theory Spec2Isabelle
  imports Main
begin

section \<open>Common JavaScript notions\<close>

text \<open>
  A JavaScript string is modelled by the bytes of its UTF-8 encoding, a \<open>string\<close>.
  A JavaScript value that is either a string or \<open>undefined\<close>/\<open>null\<close> is a
  \<open>string option\<close>. The empty string is falsy, as \<open>undefined\<close> and \<open>null\<close> are, so
  \<open>a || b\<close> yields \<open>b\<close> when \<open>a\<close> is missing or empty.
\<close>

definition truthy :: "string option \<Rightarrow> bool" where
  "truthy v = (case v of None \<Rightarrow> False | Some s \<Rightarrow> s \<noteq> [])"

definition js_or :: "string option \<Rightarrow> string option \<Rightarrow> string option" where
  "js_or a b = (if truthy a then a else b)"

text \<open>\<open>r.users = ...\<close> on the first element a \<open>find\<close> returned: an update in place.\<close>

fun upd_first :: "('a \<Rightarrow> bool) \<Rightarrow> ('a \<Rightarrow> 'a) \<Rightarrow> 'a list \<Rightarrow> 'a list" where
  "upd_first P f [] = []"
| "upd_first P f (x # xs) = (if P x then f x # xs else x # upd_first P f xs)"

type_synonym sid = string

text \<open>Where an event is sent.\<close>

datatype target =
    ToAll                  \<comment> \<open>\<open>io.emit\<close>\<close>
  | ToRoom string          \<comment> \<open>\<open>io.to(room).emit\<close>\<close>
  | ToSocket sid           \<comment> \<open>\<open>socket.emit\<close> of the connection \<open>sid\<close>\<close>
  | ToRoomExcept string sid  \<comment> \<open>\<open>socket.to(room).emit\<close>\<close>
  | ToAllExcept sid        \<comment> \<open>\<open>socket.broadcast.emit\<close>\<close>

section \<open>The database-backed server (server/server.js)\<close>

subsection \<open>Documents and state\<close>

record reaction =
  emoji :: string
  users :: "string list"
  count :: nat

text \<open>
  A document of the \<open>Message\<close> collection. The field \<open>from\<close> is \<open>from_name\<close> and
  \<open>to\<close> is \<open>to_name\<close> here; \<open>room\<close> is \<open>null\<close> for a private message.
\<close>

record Message =
  doc_id :: string
  content :: "string option"
  from_name :: string
  to_name :: "string option"
  doc_room :: "string option"
  doc_file :: "(string \<times> string \<times> string) option"
  doc_timestamp :: int
  doc_private :: bool
  reactions :: "reaction list"
  readBy :: "string list option"

text \<open>
  The state the handlers share: the two collections (\<open>Rooms\<close> holds the names of the
  \<open>Room\<close> documents), the \<open>onlineUsers\<close> map (socket id to username, in insertion
  order), the rooms each socket has joined (\<open>socket.join\<close>), and two facts of the
  environment: whether \<open>process.env.ALLOW_ADMIN_DELETE === 'true'\<close>, and whether the
  database answers (when it does not, every awaited query rejects).
\<close>

record server =
  Messages :: "Message list"
  Rooms :: "string list"
  onlineUsers :: "(sid \<times> string) list"
  joined :: "(string \<times> sid) list"
  ALLOW_ADMIN_DELETE :: bool
  db_up :: bool

text \<open>A connection: \<open>socket.id\<close> and \<open>socket.clerkUser?.username\<close>.\<close>

record socket =
  socket_id :: sid
  clerk_username :: "string option"

datatype payload =
    PMessage Message
  | PRoomMessages string "Message list"
  | POnlineUsers "(sid \<times> string) list"
  | PLegacyUsers "(sid \<times> string) list"
  | PNotification string string
  | PMessageRead string string
  | PMessageDeleted string

record emit =
  dest :: target
  event :: string
  body :: payload

datatype ack = AckOk | AckErr string

text \<open>What a handler run leaves: the state, the events sent, the acknowledgements called.\<close>

record outcome =
  state :: server
  emits :: "emit list"
  acks :: "ack list"

definition findById :: "string \<Rightarrow> Message list \<Rightarrow> Message option" where
  "findById i ms = find (\<lambda>d. doc_id d = i) ms"

text \<open>\<open>msg.save()\<close> of a document that \<open>findById\<close> gave: it replaces the stored one.\<close>

definition save :: "Message \<Rightarrow> Message list \<Rightarrow> Message list" where
  "save msg ms = upd_first (\<lambda>d. doc_id d = doc_id msg) (\<lambda>_. msg) ms"

definition findByIdAndDelete :: "string \<Rightarrow> Message list \<Rightarrow> Message list" where
  "findByIdAndDelete i ms =
     (case findById i ms of None \<Rightarrow> ms | Some d \<Rightarrow> remove1 d ms)"

definition onlineUsers_get :: "server \<Rightarrow> sid \<Rightarrow> string option" where
  "onlineUsers_get s i = map_of (onlineUsers s) i"

subsection \<open>The reaction handler\<close>

text \<open>
  Lines 300 to 316 of the handler, on the array \<open>msg.reactions\<close>; \<open>who\<close> is the
  payload's \<open>by\<close>.
\<close>

definition toggle_reaction :: "string \<Rightarrow> string \<Rightarrow> reaction list \<Rightarrow> reaction list" where
  "toggle_reaction e who rs =
     (case find (\<lambda>x. emoji x = e) rs of
        None \<Rightarrow> rs @ [\<lparr>emoji = e, users = [who], count = 1\<rparr>]
      | Some r \<Rightarrow>
          if who \<in> set (users r) then
            (let us = filter (\<lambda>u. u \<noteq> who) (users r);
                 rs' = upd_first (\<lambda>x. emoji x = e)
                         (\<lambda>x. x\<lparr>users := us, count := length us\<rparr>) rs
             in if length us = 0 then filter (\<lambda>x. emoji x \<noteq> e) rs' else rs')
          else
            (let us = users r @ [who]
             in upd_first (\<lambda>x. emoji x = e)
                  (\<lambda>x. x\<lparr>users := us, count := length us\<rparr>) rs))"

text \<open>The sockets of both participants of a private message, by username.\<close>

definition participants :: "server \<Rightarrow> Message \<Rightarrow> sid list" where
  "participants s msg =
     map fst (filter (\<lambda>(i, uname). uname = from_name msg \<or> Some uname = to_name msg)
       (onlineUsers s))"

definition room_or_global :: "string option \<Rightarrow> string" where
  "room_or_global r = (case js_or r (Some ''global'') of Some x \<Rightarrow> x | None \<Rightarrow> ''global'')"

definition reaction_emits :: "server \<Rightarrow> socket \<Rightarrow> Message \<Rightarrow> string \<Rightarrow> emit list" where
  "reaction_emits s sock msg who =
     (if doc_private msg then
        concat (map (\<lambda>i.
          [\<lparr>dest = ToRoom i, event = ''messageReaction'', body = PMessage msg\<rparr>,
           \<lparr>dest = ToRoom i, event = ''notification'',
            body = PNotification ''reaction'' who\<rparr>]) (participants s msg))
        @ [\<lparr>dest = ToSocket (socket_id sock), event = ''messageReaction'',
             body = PMessage msg\<rparr>]
      else
        [\<lparr>dest = ToRoom (room_or_global (doc_room msg)), event = ''messageReaction'',
          body = PMessage msg\<rparr>,
         \<lparr>dest = ToRoomExcept (room_or_global (doc_room msg)) (socket_id sock),
          event = ''notification'', body = PNotification ''reaction'' who\<rparr>])"

text \<open>\<open>socket.on('reaction', async ({ messageId, emoji, by }) => ...)\<close>: it takes no
  acknowledgement.\<close>

definition on_reaction :: "server \<Rightarrow> socket \<Rightarrow> string \<Rightarrow> string \<Rightarrow> string \<Rightarrow> outcome" where
  "on_reaction s sock messageId e who =
     (if \<not> db_up s then \<lparr>state = s, emits = [], acks = []\<rparr> else
      case findById messageId (Messages s) of
        None \<Rightarrow> \<lparr>state = s, emits = [], acks = []\<rparr>
      | Some msg \<Rightarrow>
          (let msg' = msg\<lparr>reactions := toggle_reaction e who (reactions msg)\<rparr>;
               s' = s\<lparr>Messages := save msg' (Messages s)\<rparr>
           in \<lparr>state = s', emits = reaction_emits s' sock msg' who, acks = []\<rparr>))"

subsection \<open>deleteMessage\<close>

text \<open>
  \<open>requester = socket.clerkUser?.username || onlineUsers.get(socket.id) || null\<close>.
\<close>

definition requester :: "server \<Rightarrow> socket \<Rightarrow> string option" where
  "requester s sock =
     js_or (clerk_username sock) (js_or (onlineUsers_get s (socket_id sock)) None)"

text \<open>
  \<open>socket.on('deleteMessage', async ({ messageId }, ack) => ...)\<close>. The payload is
  \<open>None\<close> when the first argument is \<open>undefined\<close> or \<open>null\<close>: the destructuring
  of the parameter then throws before the \<open>try\<close> block is entered, the promise of the
  handler rejects, and nothing is changed, sent or acknowledged. Otherwise the payload
  is the value of its field \<open>messageId\<close>.
\<close>

definition on_deleteMessage ::
  "server \<Rightarrow> socket \<Rightarrow> string option option \<Rightarrow> bool \<Rightarrow> outcome" where
  "on_deleteMessage s sock payload has_ack =
     (case payload of
        None \<Rightarrow> \<lparr>state = s, emits = [], acks = []\<rparr>
      | Some messageId \<Rightarrow>
      if \<not> truthy messageId then
        \<lparr>state = s, emits = [], acks = (if has_ack then [AckErr ''messageId required''] else [])\<rparr>
      else if \<not> db_up s then
        \<lparr>state = s, emits = [], acks = (if has_ack then [AckErr ''server_error''] else [])\<rparr>
      else
        case findById (the messageId) (Messages s) of
          None \<Rightarrow>
            \<lparr>state = s, emits = [], acks = (if has_ack then [AckErr ''not_found''] else [])\<rparr>
        | Some msg \<Rightarrow>
            if Some (from_name msg) \<noteq> requester s sock \<and> \<not> ALLOW_ADMIN_DELETE s then
              \<lparr>state = s, emits = [],
               acks = (if has_ack then [AckErr ''not_authorized''] else [])\<rparr>
            else
              \<lparr>state = s\<lparr>Messages := findByIdAndDelete (the messageId) (Messages s)\<rparr>,
               emits =
                 (if doc_private msg then
                    map (\<lambda>i. \<lparr>dest = ToRoom i, event = ''messageDeleted'',
                              body = PMessageDeleted (the messageId)\<rparr>) (participants s msg)
                  else
                    [\<lparr>dest = ToRoom (room_or_global (doc_room msg)),
                      event = ''messageDeleted'', body = PMessageDeleted (the messageId)\<rparr>]),
               acks = (if has_ack then [AckOk] else [])\<rparr>)"

subsection \<open>message\<close>

text \<open>The payload of a \<open>message\<close> request: \<open>content\<close>, \<open>from\<close> and \<open>room\<close>.\<close>

record message_payload =
  p_content :: "string option"
  p_from :: "string option"
  p_room :: "string option"

text \<open>
  \<open>fromName = socket.clerkUser?.username || onlineUsers.get(socket.id) || payload.from
  || 'Anonymous'\<close>.
\<close>

definition fromName :: "server \<Rightarrow> socket \<Rightarrow> string option \<Rightarrow> string" where
  "fromName s sock pfrom =
     (case js_or (clerk_username sock)
             (js_or (onlineUsers_get s (socket_id sock)) (js_or pfrom (Some ''Anonymous''))) of
        Some n \<Rightarrow> n | None \<Rightarrow> ''Anonymous'')"

text \<open>
  Modelled from the spec: the schema \<open>models/Message\<close> is not among the sources, so what
  \<open>new Message({...})\<close> fills in for the fields the handler leaves out is taken from the
  data model of the specification: no reactions, nobody has read it, not private unless
  said so. The \<open>_id\<close> is the one the driver generates, \<open>fresh\<close> here.
\<close>

definition new_Message ::
  "string \<Rightarrow> string option \<Rightarrow> string \<Rightarrow> string option \<Rightarrow> string option \<Rightarrow> bool
   \<Rightarrow> (string \<times> string \<times> string) option \<Rightarrow> int \<Rightarrow> Message" where
  "new_Message fresh c f t r priv fl ts =
     \<lparr>doc_id = fresh, content = c, from_name = f, to_name = t, doc_room = r, doc_file = fl,
      doc_timestamp = ts, doc_private = priv, reactions = [], readBy = None\<rparr>"

text \<open>
  \<open>socket.on('message', async (payload) => ...)\<close>. The function has one parameter: an
  acknowledgement the request carries (\<open>has_ack\<close>) is never looked at. \<open>now\<close> is
  \<open>new Date()\<close>.
\<close>

definition on_message ::
  "server \<Rightarrow> socket \<Rightarrow> message_payload \<Rightarrow> bool \<Rightarrow> string \<Rightarrow> int \<Rightarrow> outcome" where
  "on_message s sock p has_ack fresh now =
     (let message = new_Message fresh (p_content p) (fromName s sock (p_from p)) None
                      (Some (room_or_global (p_room p))) False None now
      in if \<not> db_up s then \<lparr>state = s, emits = [], acks = []\<rparr>
         else
           \<lparr>state = s\<lparr>Messages := Messages s @ [message]\<rparr>,
            emits = [\<lparr>dest = ToRoom (room_or_global (p_room p)), event = ''message'',
                      body = PMessage message\<rparr>,
                     \<lparr>dest = ToRoom (room_or_global (p_room p)), event = ''room_message'',
                      body = PMessage message\<rparr>],
            acks = []\<rparr>)"

subsection \<open>joinRoom and join\<close>

text \<open>
  \<open>Message.find({ room }).sort({ timestamp: -1 }).limit(50).lean()\<close>, then
  \<open>msgs.reverse()\<close>: the fifty latest messages of the room, oldest first.
\<close>

definition recent_history :: "string \<Rightarrow> Message list \<Rightarrow> Message list" where
  "recent_history r ms =
     rev (take 50 (rev (sort_key doc_timestamp (filter (\<lambda>d. doc_room d = Some r) ms))))"

text \<open>\<open>socket.join(room)\<close>.\<close>

definition socket_join :: "string \<Rightarrow> sid \<Rightarrow> (string \<times> sid) list \<Rightarrow> (string \<times> sid) list" where
  "socket_join r i js = (if (r, i) \<in> set js then js else js @ [(r, i)])"

definition rooms_of :: "sid \<Rightarrow> (string \<times> sid) list \<Rightarrow> string set" where
  "rooms_of i js = {r. (r, i) \<in> set js}"

text \<open>\<open>Map.prototype.set\<close>: a key that is present keeps its place.\<close>

definition map_set :: "'k \<Rightarrow> 'v \<Rightarrow> ('k \<times> 'v) list \<Rightarrow> ('k \<times> 'v) list" where
  "map_set k v kvs =
     (if k \<in> fst ` set kvs then upd_first (\<lambda>kv. fst kv = k) (\<lambda>kv. (k, v)) kvs
      else kvs @ [(k, v)])"

definition history_emits :: "server \<Rightarrow> socket \<Rightarrow> string \<Rightarrow> bool \<Rightarrow> emit list" where
  "history_emits s sock r legacy =
     (if db_up s then
        \<lparr>dest = ToSocket (socket_id sock), event = ''roomMessages'',
         body = PRoomMessages r (recent_history r (Messages s))\<rparr>
        # (if legacy then
             [\<lparr>dest = ToSocket (socket_id sock), event = ''room_messages'',
               body = PRoomMessages r (recent_history r (Messages s))\<rparr>]
           else [])
      else
        [\<lparr>dest = ToSocket (socket_id sock), event = ''roomMessages'',
          body = PRoomMessages r []\<rparr>])"

text \<open>
  \<open>socket.on('joinRoom', async ({ room }, ack) => ...)\<close>. The room must be a document
  of the \<open>Room\<close> collection; when the query for it rejects, the join goes on.
\<close>

definition on_joinRoom :: "server \<Rightarrow> socket \<Rightarrow> string option \<Rightarrow> bool \<Rightarrow> outcome" where
  "on_joinRoom s sock room has_ack =
     (if \<not> truthy room then
        \<lparr>state = s, emits = [], acks = (if has_ack then [AckErr ''room required''] else [])\<rparr>
      else if db_up s \<and> the room \<notin> set (Rooms s) then
        \<lparr>state = s, emits = [], acks = (if has_ack then [AckErr ''room_not_found''] else [])\<rparr>
      else
        (let s' = s\<lparr>joined := socket_join (the room) (socket_id sock) (joined s)\<rparr>
         in \<lparr>state = s',
             emits = \<lparr>dest = ToAll, event = ''onlineUsers'', body = POnlineUsers (onlineUsers s')\<rparr>
                     # history_emits s' sock (the room) False,
             acks = []\<rparr>))"

text \<open>\<open>socket.on('join', ({ username }) => ...)\<close>.\<close>

definition on_join :: "server \<Rightarrow> socket \<Rightarrow> string option \<Rightarrow> outcome" where
  "on_join s sock username =
     (let name = js_or (clerk_username sock) (js_or username None)
      in if \<not> truthy name then \<lparr>state = s, emits = [], acks = []\<rparr>
         else
           (let s' = s\<lparr>onlineUsers := map_set (socket_id sock) (the name) (onlineUsers s),
                        joined := socket_join ''global'' (socket_id sock) (joined s)\<rparr>
            in \<lparr>state = s',
                emits = [\<lparr>dest = ToAll, event = ''onlineUsers'',
                          body = POnlineUsers (onlineUsers s')\<rparr>,
                         \<lparr>dest = ToAll, event = ''users'', body = PLegacyUsers (onlineUsers s')\<rparr>,
                         \<lparr>dest = ToAllExcept (socket_id sock), event = ''notification'',
                          body = PNotification ''presence'' (the name @ '' joined'')\<rparr>]
                        @ history_emits s' sock ''global'' True,
                acks = []\<rparr>))"

subsection \<open>mark\_read\<close>

text \<open>
  \<open>reader = onlineUsers.get(socket.id) || socket.clerkUser?.username ||
  `anon-${socket.id.slice(0,6)}`\<close>.
\<close>

definition reader :: "server \<Rightarrow> socket \<Rightarrow> string" where
  "reader s sock =
     (case js_or (onlineUsers_get s (socket_id sock)) (js_or (clerk_username sock) None) of
        Some n \<Rightarrow> n | None \<Rightarrow> ''anon-'' @ take 6 (socket_id sock))"

text \<open>
  \<open>socket.on('mark_read', async ({ messageId }, ack) => ...)\<close>, with the payload as
  for \<open>deleteMessage\<close>: a missing payload makes the handler reject before its
  \<open>try\<close> block.
\<close>

definition on_mark_read ::
  "server \<Rightarrow> socket \<Rightarrow> string option option \<Rightarrow> bool \<Rightarrow> outcome" where
  "on_mark_read s sock payload has_ack =
     (case payload of
        None \<Rightarrow> \<lparr>state = s, emits = [], acks = []\<rparr>
      | Some messageId \<Rightarrow>
      if \<not> truthy messageId then
        \<lparr>state = s, emits = [], acks = (if has_ack then [AckErr ''messageId required''] else [])\<rparr>
      else if \<not> db_up s then
        \<lparr>state = s, emits = [], acks = (if has_ack then [AckErr ''server_error''] else [])\<rparr>
      else
        case findById (the messageId) (Messages s) of
          None \<Rightarrow>
            \<lparr>state = s, emits = [], acks = (if has_ack then [AckErr ''not_found''] else [])\<rparr>
        | Some m \<Rightarrow>
            (let rb = (case readBy m of None \<Rightarrow> [] | Some l \<Rightarrow> l);
                 s' = (if reader s sock \<in> set rb then s
                       else s\<lparr>Messages :=
                               save (m\<lparr>readBy := Some (rb @ [reader s sock])\<rparr>) (Messages s)\<rparr>)
             in \<lparr>state = s',
                 emits = [\<lparr>dest = ToRoom (room_or_global (doc_room m)), event = ''message_read'',
                           body = PMessageRead (doc_id m) (reader s sock)\<rparr>],
                 acks = (if has_ack then [AckOk] else [])\<rparr>))"

section \<open>The in-memory server\<close>

subsection \<open>Objects and state\<close>

text \<open>
  A message is one JavaScript object that both the global archive \<open>MESSAGES\<close> and the
  room's own array hold: the arrays are lists of addresses into a heap of message
  objects, so that a change made through one array is seen through the other.
\<close>

type_synonym addr = nat

text \<open>
  \<open>m.reactions\<close> is a plain object, \<open>{}\<close> at first, so that besides the properties
  the handler has set, a read finds the ones every object inherits from
  \<open>Object.prototype\<close>. A value of a property is a number, a string, one of the native
  functions of \<open>Object.prototype\<close> (by its name), or \<open>Object.prototype\<close> itself, which
  is what \<open>__proto__\<close> reads.
\<close>

datatype jsvalue = Number nat | Text string | NativeFunction string | ObjectPrototype

definition Object_prototype :: "(string \<times> jsvalue) list" where
  "Object_prototype =
     [(''constructor'', NativeFunction ''Object''),
      (''__defineGetter__'', NativeFunction ''__defineGetter__''),
      (''__defineSetter__'', NativeFunction ''__defineSetter__''),
      (''hasOwnProperty'', NativeFunction ''hasOwnProperty''),
      (''__lookupGetter__'', NativeFunction ''__lookupGetter__''),
      (''__lookupSetter__'', NativeFunction ''__lookupSetter__''),
      (''isPrototypeOf'', NativeFunction ''isPrototypeOf''),
      (''propertyIsEnumerable'', NativeFunction ''propertyIsEnumerable''),
      (''toString'', NativeFunction ''toString''),
      (''valueOf'', NativeFunction ''valueOf''),
      (''__proto__'', ObjectPrototype),
      (''toLocaleString'', NativeFunction ''toLocaleString'')]"

text \<open>\<open>obj[k]\<close>: the object's own property, else the inherited one, else \<open>undefined\<close>.\<close>

definition get_property :: "(string \<times> jsvalue) list \<Rightarrow> string \<Rightarrow> jsvalue option" where
  "get_property own k =
     (case map_of own k of Some v \<Rightarrow> Some v | None \<Rightarrow> map_of Object_prototype k)"

text \<open>
  \<open>obj[k] = v\<close> for a number or a string \<open>v\<close>: it sets the object's own property,
  but for \<open>__proto__\<close> (when the object has no own property of that name) it calls
  the inherited setter, which leaves the object alone for a value that is not an
  object.
\<close>

definition set_property ::
  "string \<Rightarrow> jsvalue \<Rightarrow> (string \<times> jsvalue) list \<Rightarrow> (string \<times> jsvalue) list" where
  "set_property k v own =
     (if k = ''__proto__'' \<and> k \<notin> fst ` set own then own
      else if k \<in> fst ` set own then upd_first (\<lambda>kv. fst kv = k) (\<lambda>kv. (k, v)) own
      else own @ [(k, v)])"

text \<open>
  \<open>(v || 0) + 1\<close>: a number is counted up (0 and \<open>undefined\<close> are falsy); on a
  string, \<open>+\<close> appends \<open>"1"\<close>; a function or an object is first turned into a string,
  the text of a native function being \<open>function name() { [native code] }\<close>. The
  numbers are doubles, exact up to \<open>2^53\<close>: the counts the handler makes start at 1
  and go up by one, and at \<open>2^53\<close> adding 1 gives \<open>2^53\<close> again.
\<close>

definition or_zero_plus_one :: "jsvalue option \<Rightarrow> jsvalue" where
  "or_zero_plus_one v =
     (case v of
        None \<Rightarrow> Number 1
      | Some (Number k) \<Rightarrow> Number (if k < 2 ^ 53 then k + 1 else k)
      | Some (Text t) \<Rightarrow> (if t = [] then Number 1 else Text (t @ ''1''))
      | Some (NativeFunction n) \<Rightarrow> Text (''function '' @ n @ ''() { [native code] }1'')
      | Some ObjectPrototype \<Rightarrow> Text ''[object Object]1'')"

record msg =
  msg_id :: string
  msg_room :: string
  senderId :: string
  senderName :: string
  msg_text :: "string option"
  msg_file :: "(string \<times> string \<times> string) option"
  msg_timestamp :: int
  msg_private :: bool
  msg_reactions :: "(string \<times> jsvalue) list option"
  msg_readBy :: "string list option"

record room_info =
  room_name :: string
  createdBy :: string
  createdAt :: int
  messages :: "addr list"

text \<open>
  \<open>ONLINE\<close> maps a socket id to \<open>(userId, userName)\<close>, \<open>USERS_BY_ID\<close> a user id to
  \<open>(userName, sockets)\<close>; \<open>members\<close> is what \<open>socket.join\<close> and \<open>socket.leave\<close>
  keep (\<open>io.sockets.adapter.rooms\<close>). JavaScript maps and sets keep insertion order.
\<close>

record store =
  heap :: "addr \<Rightarrow> msg"
  next_addr :: addr
  MESSAGES :: "addr list"
  ROOMS :: "(string \<times> room_info) list"
  ONLINE :: "(sid \<times> string \<times> string) list"
  USERS_BY_ID :: "(string \<times> string \<times> sid list) list"
  members :: "(string \<times> sid) list"

text \<open>
  What the connection handler closes over: \<open>socket.id\<close>, the \<open>userId\<close> and
  \<open>userName\<close> computed when the connection opened, and
  \<open>socket.handshake.auth.userId\<close>.
\<close>

record conn =
  conn_id :: sid
  userId :: string
  userName :: string
  auth_userId :: "string option"

datatype event_body =
    BRooms "(string \<times> string \<times> int \<times> nat) list"
  | BUsers "(string \<times> string \<times> bool \<times> nat) list"
  | BUsersCount nat
  | BRoomMessages string "msg list"
  | BRoomUsers string "(string \<times> string) list"
  | BMsg msg
  | BTyping string string bool
  | BReaction string string "jsvalue option" string
  | BMessageRead string string

record sent =
  sent_to :: target
  sent_event :: string
  sent_body :: event_body

text \<open>The object an acknowledgement is called with.\<close>

datatype reply =
    Failed string
  | Ok
  | OkJoin string string
  | OkRoomObject string string int "msg list"
  | OkRooms "(string \<times> string \<times> int \<times> nat) list"
  | OkRoomMessages string "msg list"
  | OkRoom string
  | OkIdTs string int
  | OkId string

record result =
  store_of :: store
  sent_of :: "sent list"
  replies :: "reply list"

datatype exn = TypeError

definition GLOBAL_ROOM :: string where
  "GLOBAL_ROOM = ''global''"

text \<open>\<open>a || b\<close> where \<open>b\<close> is a string: the result is a string.\<close>

definition or_else :: "string option \<Rightarrow> string \<Rightarrow> string" where
  "or_else a b = (case a of None \<Rightarrow> b | Some x \<Rightarrow> if x = [] then b else x)"

text \<open>
  \<open>String.prototype.trim\<close> takes the white space and the line terminators off both
  ends of a string. With strings in UTF-8, these are the following byte sequences: the
  six ASCII ones (tab, line feed, vertical tab, form feed, carriage return, space),
  U+00A0, U+1680, U+2000 to U+200A, U+2028, U+2029, U+202F, U+205F, U+3000 and U+FEFF.
\<close>

definition white_space :: "string list" where
  "white_space =
     [ [CHR 0x09], [CHR 0x0A], [CHR 0x0B], [CHR 0x0C], [CHR 0x0D], [CHR 0x20],
       [CHR 0xC2, CHR 0xA0], [CHR 0xE1, CHR 0x9A, CHR 0x80],
       [CHR 0xE2, CHR 0x80, CHR 0x80], [CHR 0xE2, CHR 0x80, CHR 0x81],
       [CHR 0xE2, CHR 0x80, CHR 0x82], [CHR 0xE2, CHR 0x80, CHR 0x83],
       [CHR 0xE2, CHR 0x80, CHR 0x84], [CHR 0xE2, CHR 0x80, CHR 0x85],
       [CHR 0xE2, CHR 0x80, CHR 0x86], [CHR 0xE2, CHR 0x80, CHR 0x87],
       [CHR 0xE2, CHR 0x80, CHR 0x88], [CHR 0xE2, CHR 0x80, CHR 0x89],
       [CHR 0xE2, CHR 0x80, CHR 0x8A], [CHR 0xE2, CHR 0x80, CHR 0xA8],
       [CHR 0xE2, CHR 0x80, CHR 0xA9], [CHR 0xE2, CHR 0x80, CHR 0xAF],
       [CHR 0xE2, CHR 0x81, CHR 0x9F], [CHR 0xE3, CHR 0x80, CHR 0x80],
       [CHR 0xEF, CHR 0xBB, CHR 0xBF] ]"

text \<open>
  The length of the first of the sequences \<open>ws\<close> that the string starts with, 0 when
  it starts with none of them.
\<close>

definition leading :: "string list \<Rightarrow> string \<Rightarrow> nat" where
  "leading ws s =
     (case find (\<lambda>w. take (length w) s = w) ws of None \<Rightarrow> 0 | Some w \<Rightarrow> length w)"

function strip_leading :: "string list \<Rightarrow> string \<Rightarrow> string" where
  "strip_leading ws s =
     (if leading ws s = 0 then s else strip_leading ws (drop (leading ws s) s))"
  by pat_completeness auto
termination
proof (relation "measure (\<lambda>(ws, s). length s)")
  show "wf (measure (\<lambda>(ws, s). length s))" by simp
next
  fix ws :: "string list" and s :: string
  assume pos: "leading ws s \<noteq> 0"
  have "s \<noteq> []"
  proof
    assume "s = []"
    then have "leading ws s = 0"
      by (auto simp: leading_def find_Some_iff split: option.splits)
    with pos show False by simp
  qed
  with pos show "((ws, drop (leading ws s) s), (ws, s)) \<in> measure (\<lambda>(ws, s). length s)"
    by simp
qed

declare strip_leading.simps [simp del]

text \<open>The end of the string is stripped as the start of the reversed string.\<close>

definition trim :: "string \<Rightarrow> string" where
  "trim s = rev (strip_leading (map rev white_space) (rev (strip_leading white_space s)))"

text \<open>\<open>Set.prototype.add\<close>.\<close>

definition set_add :: "'a \<Rightarrow> 'a list \<Rightarrow> 'a list" where
  "set_add x xs = (if x \<in> set xs then xs else xs @ [x])"

definition listRooms :: "store \<Rightarrow> (string \<times> string \<times> int \<times> nat) list" where
  "listRooms st =
     map (\<lambda>(k, info). (room_name info, createdBy info, createdAt info, length (messages info)))
       (ROOMS st)"

definition ROOMS_has :: "store \<Rightarrow> string \<Rightarrow> bool" where
  "ROOMS_has st r = (r \<in> fst ` set (ROOMS st))"

definition ROOMS_get :: "store \<Rightarrow> string \<Rightarrow> room_info option" where
  "ROOMS_get st r = map_of (ROOMS st) r"

text \<open>
  \<open>safeHandler(fn, eventName)\<close>: an exception of \<open>fn\<close> is answered through the last
  argument when that is a function. A request arrives as \<open>(payload)\<close> or
  \<open>(payload, ack)\<close>, so the last argument is a function exactly when the request
  carries an acknowledgement. Every exception of the handlers below is raised before
  the handler has changed anything.
\<close>

definition safeHandler :: "(store \<Rightarrow> exn + result) \<Rightarrow> bool \<Rightarrow> store \<Rightarrow> result" where
  "safeHandler fn has_ack st =
     (case fn st of
        Inr r \<Rightarrow> r
      | Inl err \<Rightarrow>
          \<lparr>store_of = st, sent_of = [],
           replies = (if has_ack then [Failed ''server_error''] else [])\<rparr>)"

definition broadcastUsers :: "store \<Rightarrow> sent list" where
  "broadcastUsers st =
     (let users = map (\<lambda>(i, n, socks). (i, n, 0 < length socks, length socks)) (USERS_BY_ID st)
      in [\<lparr>sent_to = ToAll, sent_event = ''users'', sent_body = BUsers users\<rparr>,
          \<lparr>sent_to = ToAll, sent_event = ''users_count'',
           sent_body = BUsersCount (length (filter (\<lambda>(i, n, on, c). on) users))\<rparr>])"

text \<open>The users of the sockets in a room, for \<open>room_users\<close>.\<close>

definition roomUsers :: "store \<Rightarrow> string \<Rightarrow> (string \<times> string) list" where
  "roomUsers st r =
     concat (map (\<lambda>i. case map_of (ONLINE st) i of None \<Rightarrow> [] | Some u \<Rightarrow> [u])
       (map snd (filter (\<lambda>(r', i). r' = r) (members st))))"

subsection \<open>join\<close>

definition register_user ::
  "string \<Rightarrow> string \<Rightarrow> sid \<Rightarrow> (string \<times> string \<times> sid list) list
   \<Rightarrow> (string \<times> string \<times> sid list) list" where
  "register_user cid uname i us =
     (if cid \<notin> fst ` set us then us @ [(cid, uname, [i])]
      else upd_first (\<lambda>u. fst u = cid) (\<lambda>(k, n, socks). (k, uname, set_add i socks)) us)"

definition canonicalId :: "conn \<Rightarrow> string" where
  "canonicalId c =
     or_else (auth_userId c) (or_else (Some (userId c)) (''anon-'' @ take 6 (conn_id c)))"

text \<open>
  The payload is \<open>None\<close> when the first argument is \<open>undefined\<close> or \<open>null\<close> (the
  destructuring of the parameter then throws), and the value of its field \<open>username\<close>
  otherwise.
\<close>

definition join_fn :: "conn \<Rightarrow> string option option \<Rightarrow> bool \<Rightarrow> store \<Rightarrow> exn + result" where
  "join_fn c payload has_ack st =
     (case payload of
        None \<Rightarrow> Inl TypeError
      | Some username \<Rightarrow>
          (let uname = trim (or_else username (or_else (Some (userName c)) ''Anonymous''));
               st' = st\<lparr>USERS_BY_ID := register_user (canonicalId c) uname (conn_id c)
                                         (USERS_BY_ID st),
                        ONLINE := map_set (conn_id c) (canonicalId c, uname) (ONLINE st)\<rparr>
           in Inr \<lparr>store_of = st', sent_of = broadcastUsers st',
                   replies = (if has_ack then [OkJoin (canonicalId c) uname] else [])\<rparr>))"

definition on_join_B :: "conn \<Rightarrow> string option option \<Rightarrow> bool \<Rightarrow> store \<Rightarrow> result" where
  "on_join_B c payload has_ack = safeHandler (join_fn c payload has_ack) has_ack"

subsection \<open>Rooms\<close>

definition new_room :: "conn \<Rightarrow> string \<Rightarrow> int \<Rightarrow> room_info" where
  "new_room c r now =
     \<lparr>room_name = r, createdBy = or_else (Some (userId c)) ''unknown'', createdAt = now,
      messages = []\<rparr>"

definition create_room_fn ::
  "conn \<Rightarrow> string option option \<Rightarrow> bool \<Rightarrow> int \<Rightarrow> store \<Rightarrow> exn + result" where
  "create_room_fn c payload has_ack now st =
     (case payload of
        None \<Rightarrow> Inl TypeError
      | Some name \<Rightarrow>
          (let roomName = trim (or_else name [])
           in if roomName = [] then
                Inr \<lparr>store_of = st, sent_of = [],
                     replies = (if has_ack then [Failed ''name required''] else [])\<rparr>
              else if ROOMS_has st roomName then
                Inr \<lparr>store_of = st, sent_of = [],
                     replies = (if has_ack then [Failed ''room exists''] else [])\<rparr>
              else
                (let st' = st\<lparr>ROOMS := ROOMS st @ [(roomName, new_room c roomName now)]\<rparr>
                 in Inr \<lparr>store_of = st',
                         sent_of = [\<lparr>sent_to = ToAll, sent_event = ''rooms'',
                                     sent_body = BRooms (listRooms st')\<rparr>],
                         replies = (if has_ack
                                    then [OkRoomObject roomName
                                            (or_else (Some (userId c)) ''unknown'') now []]
                                    else [])\<rparr>)))"

definition on_create_room ::
  "conn \<Rightarrow> string option option \<Rightarrow> bool \<Rightarrow> int \<Rightarrow> store \<Rightarrow> result" where
  "on_create_room c payload has_ack now = safeHandler (create_room_fn c payload has_ack now) has_ack"

text \<open>\<open>rooms_request\<close> does not look into its payload.\<close>

definition rooms_request_fn :: "conn \<Rightarrow> bool \<Rightarrow> store \<Rightarrow> exn + result" where
  "rooms_request_fn c has_ack st =
     Inr \<lparr>store_of = st,
          sent_of = [\<lparr>sent_to = ToSocket (conn_id c), sent_event = ''rooms'',
                      sent_body = BRooms (listRooms st)\<rparr>],
          replies = (if has_ack then [OkRooms (listRooms st)] else [])\<rparr>"

definition on_rooms_request :: "conn \<Rightarrow> bool \<Rightarrow> store \<Rightarrow> result" where
  "on_rooms_request c has_ack = safeHandler (rooms_request_fn c has_ack) has_ack"

text \<open>\<open>xs.slice(-n)\<close>: the last \<open>n\<close> elements.\<close>

definition slice_last :: "nat \<Rightarrow> 'a list \<Rightarrow> 'a list" where
  "slice_last n xs = drop (length xs - n) xs"

definition join_room_fn ::
  "conn \<Rightarrow> string option option \<Rightarrow> bool \<Rightarrow> int \<Rightarrow> store \<Rightarrow> exn + result" where
  "join_room_fn c payload has_ack now st =
     (case payload of
        None \<Rightarrow> Inl TypeError
      | Some room \<Rightarrow>
          (let roomName = trim (or_else room [])
           in if roomName = [] then
                Inr \<lparr>store_of = st, sent_of = [],
                     replies = (if has_ack then [Failed ''room required''] else [])\<rparr>
              else
                (let created = \<not> ROOMS_has st roomName;
                     st1 = (if created
                            then st\<lparr>ROOMS := ROOMS st @ [(roomName, new_room c roomName now)]\<rparr>
                            else st);
                     st2 = st1\<lparr>members := socket_join roomName (conn_id c) (members st1)\<rparr>;
                     roomMsgs = map (heap st2)
                                  (slice_last 100
                                     (case ROOMS_get st2 roomName of
                                        None \<Rightarrow> [] | Some info \<Rightarrow> messages info))
                 in Inr \<lparr>store_of = st2,
                         sent_of =
                           (if created
                            then [\<lparr>sent_to = ToAll, sent_event = ''rooms'',
                                   sent_body = BRooms (listRooms st1)\<rparr>]
                            else [])
                           @ [\<lparr>sent_to = ToSocket (conn_id c), sent_event = ''room_messages'',
                                sent_body = BRoomMessages roomName roomMsgs\<rparr>,
                              \<lparr>sent_to = ToRoom roomName, sent_event = ''room_users'',
                               sent_body = BRoomUsers roomName (roomUsers st2 roomName)\<rparr>],
                         replies = (if has_ack then [OkRoomMessages roomName roomMsgs]
                                    else [])\<rparr>)))"

definition on_join_room ::
  "conn \<Rightarrow> string option option \<Rightarrow> bool \<Rightarrow> int \<Rightarrow> store \<Rightarrow> result" where
  "on_join_room c payload has_ack now = safeHandler (join_room_fn c payload has_ack now) has_ack"

definition leave_room_fn :: "conn \<Rightarrow> string option option \<Rightarrow> bool \<Rightarrow> store \<Rightarrow> exn + result" where
  "leave_room_fn c payload has_ack st =
     (case payload of
        None \<Rightarrow> Inl TypeError
      | Some room \<Rightarrow>
          if \<not> truthy room then
            Inr \<lparr>store_of = st, sent_of = [],
                 replies = (if has_ack then [Failed ''room required''] else [])\<rparr>
          else
            (let st' = st\<lparr>members := removeAll (the room, conn_id c) (members st)\<rparr>
             in Inr \<lparr>store_of = st',
                     sent_of = [\<lparr>sent_to = ToRoom (the room), sent_event = ''room_users'',
                                 sent_body = BRoomUsers (the room) (roomUsers st' (the room))\<rparr>],
                     replies = (if has_ack then [OkRoom (the room)] else [])\<rparr>))"

definition on_leave_room :: "conn \<Rightarrow> string option option \<Rightarrow> bool \<Rightarrow> store \<Rightarrow> result" where
  "on_leave_room c payload has_ack = safeHandler (leave_room_fn c payload has_ack) has_ack"

subsection \<open>Messages\<close>

text \<open>
  \<open>MESSAGES.push(msg)\<close>, and for a room that \<open>ROOMS\<close> has,
  \<open>messages.push(msg)\<close> followed by one \<open>shift()\<close> when the length is above 2000. The
  new object gets the next free address.
\<close>

definition push_room :: "addr \<Rightarrow> room_info \<Rightarrow> room_info" where
  "push_room a info =
     (let ms = messages info @ [a]
      in info\<lparr>messages := (if 2000 < length ms then tl ms else ms)\<rparr>)"

definition archive :: "msg \<Rightarrow> store \<Rightarrow> store" where
  "archive m st =
     st\<lparr>heap := (heap st)(next_addr st := m), next_addr := Suc (next_addr st),
        MESSAGES := MESSAGES st @ [next_addr st]\<rparr>"

definition push_message :: "msg \<Rightarrow> store \<Rightarrow> store" where
  "push_message m st =
     (let st1 = archive m st
      in if ROOMS_has st1 (msg_room m) then
           st1\<lparr>ROOMS := upd_first (\<lambda>kv. fst kv = msg_room m)
                           (\<lambda>(k, info). (k, push_room (next_addr st) info)) (ROOMS st1)\<rparr>
         else st1)"

record msg_payload =
  b_room :: "string option"
  b_text :: "string option"
  b_file :: "(string \<times> string \<times> string) option"
  b_private :: bool
  b_from :: "string option"

text \<open>
  \<open>fresh\<close> is the id built from the clock and \<open>Math.random()\<close>, \<open>now\<close> is
  \<open>Date.now()\<close>. The payload's \<open>from\<close> is a field a client may send; the handler
  does not read it.
\<close>

definition message_fn ::
  "conn \<Rightarrow> msg_payload option \<Rightarrow> bool \<Rightarrow> string \<Rightarrow> int \<Rightarrow> store \<Rightarrow> exn + result" where
  "message_fn c payload has_ack fresh now st =
     (case payload of
        None \<Rightarrow> Inl TypeError
      | Some p \<Rightarrow>
          (let m = \<lparr>msg_id = fresh, msg_room = or_else (b_room p) GLOBAL_ROOM,
                    senderId = userId c, senderName = userName c, msg_text = b_text p,
                    msg_file = b_file p, msg_timestamp = now, msg_private = b_private p,
                    msg_reactions = None, msg_readBy = None\<rparr>
           in Inr \<lparr>store_of = push_message m st,
                   sent_of = [\<lparr>sent_to = ToRoom (msg_room m), sent_event = ''message'',
                               sent_body = BMsg m\<rparr>],
                   replies = (if has_ack then [OkIdTs fresh now] else [])\<rparr>))"

definition on_message_B ::
  "conn \<Rightarrow> msg_payload option \<Rightarrow> bool \<Rightarrow> string \<Rightarrow> int \<Rightarrow> store \<Rightarrow> result" where
  "on_message_B c payload has_ack fresh now =
     safeHandler (message_fn c payload has_ack fresh now) has_ack"

text \<open>\<open>({ room, name, data, mime }, ack)\<close>.\<close>

definition file_message_fn ::
  "conn \<Rightarrow> (string option \<times> string \<times> string \<times> string) option \<Rightarrow> bool \<Rightarrow> string \<Rightarrow> int
   \<Rightarrow> store \<Rightarrow> exn + result" where
  "file_message_fn c payload has_ack fresh now st =
     (case payload of
        None \<Rightarrow> Inl TypeError
      | Some (room, name, data, mime) \<Rightarrow>
          (let m = \<lparr>msg_id = fresh, msg_room = or_else room GLOBAL_ROOM,
                    senderId = userId c, senderName = userName c, msg_text = None,
                    msg_file = Some (name, data, mime), msg_timestamp = now,
                    msg_private = False, msg_reactions = None, msg_readBy = None\<rparr>
           in Inr \<lparr>store_of = push_message m st,
                   sent_of = [\<lparr>sent_to = ToRoom (msg_room m), sent_event = ''file_message'',
                               sent_body = BMsg m\<rparr>],
                   replies = (if has_ack then [OkId fresh] else [])\<rparr>))"

definition on_file_message ::
  "conn \<Rightarrow> (string option \<times> string \<times> string \<times> string) option \<Rightarrow> bool \<Rightarrow> string \<Rightarrow> int
   \<Rightarrow> store \<Rightarrow> result" where
  "on_file_message c payload has_ack fresh now =
     safeHandler (file_message_fn c payload has_ack fresh now) has_ack"

text \<open>The order \<open>Array.prototype.sort\<close> compares two strings by.\<close>

fun str_less :: "string \<Rightarrow> string \<Rightarrow> bool" where
  "str_less [] [] = False"
| "str_less [] (y # ys) = True"
| "str_less (x # xs) [] = False"
| "str_less (x # xs) (y # ys) =
     ((of_char x :: nat) < of_char y \<or> (x = y \<and> str_less xs ys))"

text \<open>
  \<open>`pm:${[userId, toUserId].sort().join("-")}`\<close>; an \<open>undefined\<close> \<open>toUserId\<close> sorts
  last and joins as the empty string.
\<close>

definition pm_room :: "string \<Rightarrow> string option \<Rightarrow> string" where
  "pm_room uid toUserId =
     ''pm:'' @ (case toUserId of
                  None \<Rightarrow> uid @ ''-''
                | Some t \<Rightarrow> if str_less t uid then t @ ''-'' @ uid else uid @ ''-'' @ t)"

text \<open>\<open>({ toUserId, text }, ack)\<close>.\<close>

definition private_message_fn ::
  "conn \<Rightarrow> (string option \<times> string option) option \<Rightarrow> bool \<Rightarrow> string \<Rightarrow> int \<Rightarrow> store
   \<Rightarrow> exn + result" where
  "private_message_fn c payload has_ack fresh now st =
     (case payload of
        None \<Rightarrow> Inl TypeError
      | Some (toUserId, txt) \<Rightarrow>
          (let m = \<lparr>msg_id = fresh, msg_room = pm_room (userId c) toUserId,
                    senderId = userId c, senderName = userName c, msg_text = txt,
                    msg_file = None, msg_timestamp = now, msg_private = True,
                    msg_reactions = None, msg_readBy = None\<rparr>;
               tsocks = (case toUserId of
                           None \<Rightarrow> []
                         | Some t \<Rightarrow> (case map_of (USERS_BY_ID st) t of
                                       None \<Rightarrow> [] | Some (n, socks) \<Rightarrow> socks))
           in Inr \<lparr>store_of = archive m st,
                   sent_of = map (\<lambda>i. \<lparr>sent_to = ToRoom i, sent_event = ''private_message'',
                                        sent_body = BMsg m\<rparr>) tsocks
                             @ [\<lparr>sent_to = ToSocket (conn_id c),
                                  sent_event = ''private_message'', sent_body = BMsg m\<rparr>],
                   replies = (if has_ack then [OkId fresh] else [])\<rparr>))"

definition on_private_message ::
  "conn \<Rightarrow> (string option \<times> string option) option \<Rightarrow> bool \<Rightarrow> string \<Rightarrow> int \<Rightarrow> store
   \<Rightarrow> result" where
  "on_private_message c payload has_ack fresh now =
     safeHandler (private_message_fn c payload has_ack fresh now) has_ack"

text \<open>\<open>({ room, isTyping }, ack)\<close>.\<close>

definition typing_fn ::
  "conn \<Rightarrow> (string option \<times> bool) option \<Rightarrow> bool \<Rightarrow> store \<Rightarrow> exn + result" where
  "typing_fn c payload has_ack st =
     (case payload of
        None \<Rightarrow> Inl TypeError
      | Some (room, isTyping) \<Rightarrow>
          Inr \<lparr>store_of = st,
               sent_of = [\<lparr>sent_to = ToRoomExcept (or_else room GLOBAL_ROOM) (conn_id c),
                           sent_event = ''typing'',
                           sent_body = BTyping (userId c) (userName c) isTyping\<rparr>],
               replies = (if has_ack then [Ok] else [])\<rparr>)"

definition on_typing ::
  "conn \<Rightarrow> (string option \<times> bool) option \<Rightarrow> bool \<Rightarrow> store \<Rightarrow> result" where
  "on_typing c payload has_ack = safeHandler (typing_fn c payload has_ack) has_ack"

subsection \<open>Reactions and read receipts\<close>

text \<open>\<open>MESSAGES.find((mm) => mm.id === messageId)\<close>: the address of the object found.\<close>

definition find_message :: "store \<Rightarrow> string option \<Rightarrow> addr option" where
  "find_message st messageId =
     find (\<lambda>a. Some (msg_id (heap st a)) = messageId) (MESSAGES st)"

text \<open>
  \<open>({ messageId, reaction }, ack)\<close>: \<open>m.reactions[reaction] = (m.reactions[reaction]
  || 0) + 1\<close>, a counter for each reaction of a message. The event carries
  \<open>m.reactions[reaction]\<close> as it reads after the assignment. The reaction is the
  property key, the string the payload's \<open>reaction\<close> turns into.
\<close>

definition react_fn ::
  "conn \<Rightarrow> (string option \<times> string) option \<Rightarrow> bool \<Rightarrow> store \<Rightarrow> exn + result" where
  "react_fn c payload has_ack st =
     (case payload of
        None \<Rightarrow> Inl TypeError
      | Some (messageId, reaction) \<Rightarrow>
          (case find_message st messageId of
             None \<Rightarrow>
               Inr \<lparr>store_of = st, sent_of = [],
                    replies = (if has_ack then [Failed ''message not found''] else [])\<rparr>
           | Some a \<Rightarrow>
               (let m = heap st a;
                    rs = (case msg_reactions m of None \<Rightarrow> [] | Some l \<Rightarrow> l);
                    rs' = set_property reaction (or_zero_plus_one (get_property rs reaction)) rs;
                    m' = m\<lparr>msg_reactions := Some rs'\<rparr>
                in Inr \<lparr>store_of = st\<lparr>heap := (heap st)(a := m')\<rparr>,
                        sent_of = [\<lparr>sent_to = ToRoom (or_else (Some (msg_room m)) GLOBAL_ROOM),
                                    sent_event = ''reaction'',
                                    sent_body = BReaction (msg_id m) reaction
                                                  (get_property rs' reaction) (userId c)\<rparr>],
                        replies = (if has_ack then [Ok] else [])\<rparr>)))"

definition on_react ::
  "conn \<Rightarrow> (string option \<times> string) option \<Rightarrow> bool \<Rightarrow> store \<Rightarrow> result" where
  "on_react c payload has_ack = safeHandler (react_fn c payload has_ack) has_ack"

text \<open>\<open>({ messageId }, ack)\<close>; the reader is the connection's \<open>userId\<close>.\<close>

definition mark_read_fn ::
  "conn \<Rightarrow> string option option \<Rightarrow> bool \<Rightarrow> store \<Rightarrow> exn + result" where
  "mark_read_fn c payload has_ack st =
     (case payload of
        None \<Rightarrow> Inl TypeError
      | Some messageId \<Rightarrow>
          if \<not> truthy messageId then
            Inr \<lparr>store_of = st, sent_of = [],
                 replies = (if has_ack then [Failed ''messageId required''] else [])\<rparr>
          else
            (case find_message st messageId of
               None \<Rightarrow>
                 Inr \<lparr>store_of = st, sent_of = [],
                      replies = (if has_ack then [Failed ''message not found''] else [])\<rparr>
             | Some a \<Rightarrow>
                 (let m = heap st a;
                      rb = (case msg_readBy m of None \<Rightarrow> [] | Some l \<Rightarrow> l);
                      rb' = (if userId c \<in> set rb then rb else rb @ [userId c]);
                      note = \<lparr>sent_to = ToRoom (or_else (Some (msg_room m)) GLOBAL_ROOM),
                              sent_event = ''message_read'',
                              sent_body = BMessageRead (msg_id m) (userId c)\<rparr>
                  in Inr \<lparr>store_of = st\<lparr>heap := (heap st)(a := m\<lparr>msg_readBy := Some rb'\<rparr>)\<rparr>,
                          sent_of = note #
                            map (\<lambda>i. note\<lparr>sent_to := ToRoom i\<rparr>)
                              (case map_of (USERS_BY_ID st) (senderId m) of
                                 None \<Rightarrow> [] | Some (n, socks) \<Rightarrow> socks),
                          replies = (if has_ack then [Ok] else [])\<rparr>)))"

definition on_mark_read_B ::
  "conn \<Rightarrow> string option option \<Rightarrow> bool \<Rightarrow> store \<Rightarrow> result" where
  "on_mark_read_B c payload has_ack = safeHandler (mark_read_fn c payload has_ack) has_ack"

subsection \<open>Pagination\<close>

text \<open>
  A number as \<open>parseInt\<close> returns it: an integer or \<open>NaN\<close>. A query parameter is
  \<open>None\<close> when the request leaves it out (or empty), so that the default applies.
\<close>

datatype jsnum = Num int | NaN

record query =
  q_room :: "string option"
  q_before :: "jsnum option"
  q_limit :: "jsnum option"

text \<open>\<open>Math.min(limit, 200)\<close> and \<open>Math.max(0, length - limit)\<close>.\<close>

definition clamp_limit :: "jsnum \<Rightarrow> jsnum" where
  "clamp_limit l = (case l of NaN \<Rightarrow> NaN | Num n \<Rightarrow> Num (min n 200))"

definition slice_start :: "nat \<Rightarrow> jsnum \<Rightarrow> jsnum" where
  "slice_start len l = (case l of NaN \<Rightarrow> NaN | Num n \<Rightarrow> Num (max 0 (int len - n)))"

text \<open>\<open>xs.slice(start, xs.length)\<close>; a \<open>NaN\<close> start counts as 0.\<close>

definition slice_from :: "jsnum \<Rightarrow> 'a list \<Rightarrow> 'a list" where
  "slice_from start xs = (case start of NaN \<Rightarrow> xs | Num k \<Rightarrow> drop (nat k) xs)"

text \<open>\<open>x < before\<close>, false when \<open>before\<close> is \<open>NaN\<close>.\<close>

definition js_less :: "int \<Rightarrow> jsnum \<Rightarrow> bool" where
  "js_less x b = (case b of NaN \<Rightarrow> False | Num y \<Rightarrow> x < y)"

text \<open>\<open>m.timestamp || Date.now()\<close>: 0 is falsy.\<close>

definition timestamp_or_now :: "int \<Rightarrow> msg \<Rightarrow> int" where
  "timestamp_or_now now m = (if msg_timestamp m = 0 then now else msg_timestamp m)"

text \<open>The handler of \<open>GET /messages/paginate\<close>: the array it answers with.\<close>

definition paginate :: "store \<Rightarrow> int \<Rightarrow> query \<Rightarrow> msg list" where
  "paginate st now q =
     (let room = or_else (q_room q) GLOBAL_ROOM;
          before_ts = (case q_before q of None \<Rightarrow> Num now | Some b \<Rightarrow> b);
          limit = clamp_limit (case q_limit q of None \<Rightarrow> Num 50 | Some l \<Rightarrow> l);
          roomMsgs = filter (\<lambda>m. or_else (Some (msg_room m)) GLOBAL_ROOM = room
                                 \<and> js_less (timestamp_or_now now m) before_ts)
                       (map (heap st) (MESSAGES st))
      in slice_from (slice_start (length roomMsgs) limit) roomMsgs)"

section \<open>Predicates and example states\<close>

text \<open>Whether \<open>who\<close> is in the user list of some entry for the emoji.\<close>

definition reacted :: "string \<Rightarrow> string \<Rightarrow> reaction list \<Rightarrow> bool" where
  "reacted e who rs = list_ex (\<lambda>x. emoji x = e \<and> who \<in> set (users x)) rs"

definition has_entry :: "string \<Rightarrow> reaction list \<Rightarrow> bool" where
  "has_entry e rs = list_ex (\<lambda>x. emoji x = e) rs"

text \<open>Every entry counts its users and has at least one.\<close>

definition reactions_ok :: "reaction list \<Rightarrow> bool" where
  "reactions_ok rs = list_all (\<lambda>r. count r = length (users r) \<and> users r \<noteq> []) rs"

text \<open>
  The count the in-memory server has for a reaction of a message, when what
  \<open>m.reactions[e]\<close> reads is a number or \<open>undefined\<close> (which counts as 0).
\<close>

definition reaction_count :: "msg \<Rightarrow> string \<Rightarrow> nat option" where
  "reaction_count m e =
     (case get_property (case msg_reactions m of None \<Rightarrow> [] | Some rs \<Rightarrow> rs) e of
        None \<Rightarrow> Some 0
      | Some (Number k) \<Rightarrow> Some k
      | Some _ \<Rightarrow> None)"

text \<open>
  A database with one message of alice in \<open>testroom\<close>, which bob has reacted to; bob is
  on socket \<open>s1\<close>, alice on \<open>s2\<close>, and \<open>s3\<close> has not announced a name.
\<close>

definition ex_msg :: Message where
  "ex_msg =
     \<lparr>doc_id = ''m1'', content = Some ''Hello from Alice'', from_name = ''alice'',
      to_name = None, doc_room = Some ''testroom'', doc_file = None, doc_timestamp = 1000,
      doc_private = False,
      reactions = [\<lparr>emoji = ''+1'', users = [''bob''], count = 1\<rparr>], readBy = None\<rparr>"

definition ex_server :: server where
  "ex_server =
     \<lparr>Messages = [ex_msg], Rooms = [''testroom''],
      onlineUsers = [(''s1'', ''bob''), (''s2'', ''alice'')], joined = [],
      ALLOW_ADMIN_DELETE = False, db_up = True\<rparr>"

definition bob_sock :: socket where
  "bob_sock = \<lparr>socket_id = ''s1'', clerk_username = None\<rparr>"

definition alice_sock :: socket where
  "alice_sock = \<lparr>socket_id = ''s2'', clerk_username = None\<rparr>"

definition anon_sock :: socket where
  "anon_sock = \<lparr>socket_id = ''s3'', clerk_username = None\<rparr>"

text \<open>An in-memory store with one message in the room \<open>General\<close>.\<close>

definition ex_m :: msg where
  "ex_m =
     \<lparr>msg_id = ''1000-abc'', msg_room = ''General'', senderId = ''u1'', senderName = ''Alice'',
      msg_text = Some ''hi'', msg_file = None, msg_timestamp = 1000, msg_private = False,
      msg_reactions = None, msg_readBy = None\<rparr>"

definition ex_store :: store where
  "ex_store =
     \<lparr>heap = (\<lambda>_. ex_m), next_addr = 1, MESSAGES = [0],
      ROOMS = [(''General'', \<lparr>room_name = ''General'', createdBy = ''system'', createdAt = 900,
                              messages = [0]\<rparr>)],
      ONLINE = [(''c1'', ''u1'', ''Alice''), (''c2'', ''u2'', ''Bob'')],
      USERS_BY_ID = [(''u1'', ''Alice'', [''c1'']), (''u2'', ''Bob'', [''c2''])],
      members = [(''global'', ''c1''), (''global'', ''c2'')]\<rparr>"

definition bob_conn :: conn where
  "bob_conn = \<lparr>conn_id = ''c2'', userId = ''u2'', userName = ''Bob'', auth_userId = None\<rparr>"

text \<open>Bodies that carry the messages of a room.\<close>

definition is_room_messages :: "event_body \<Rightarrow> bool" where
  "is_room_messages b = (case b of BRoomMessages r ms \<Rightarrow> True | _ \<Rightarrow> False)"

definition is_history :: "payload \<Rightarrow> bool" where
  "is_history b = (case b of PRoomMessages r ms \<Rightarrow> True | _ \<Rightarrow> False)"

text \<open>The last hundred messages of a room of the in-memory server, as \<open>join_room\<close> sends them.\<close>

definition room_window :: "store \<Rightarrow> string \<Rightarrow> msg list" where
  "room_window st r =
     map (heap st) (slice_last 100 (case ROOMS_get st r of None \<Rightarrow> [] | Some info \<Rightarrow> messages info))"

text \<open>
  The archive as the handlers build it: every address is allocated, the messages are in
  the order of their timestamps (each is stamped with \<open>Date.now()\<close> when it is
  pushed), and each has a room name and a timestamp that are not falsy.
\<close>

definition archive_ok :: "store \<Rightarrow> bool" where
  "archive_ok st =
     (list_all (\<lambda>a. a < next_addr st) (MESSAGES st)
      \<and> sorted (map (\<lambda>a. msg_timestamp (heap st a)) (MESSAGES st))
      \<and> list_all (\<lambda>a. msg_room (heap st a) \<noteq> [] \<and> msg_timestamp (heap st a) \<noteq> 0)
            (MESSAGES st))"

text \<open>An archive of three messages, two of them in \<open>General\<close>.\<close>

definition ex_archive :: store where
  "ex_archive =
     ex_store\<lparr>heap := (\<lambda>_. ex_m)
                 (1 := ex_m\<lparr>msg_id := ''1500-def'', msg_timestamp := 1500\<rparr>,
                  2 := ex_m\<lparr>msg_id := ''2500-ghi'', msg_timestamp := 2500\<rparr>,
                  3 := ex_m\<lparr>msg_id := ''2600-jkl'', msg_room := ''Developers'',
                            msg_timestamp := 2600\<rparr>),
              next_addr := 4, MESSAGES := [0, 1, 2, 3]\<rparr>"

text \<open>The \<open>readBy\<close> array of a message, empty while the field is missing.\<close>

definition read_by :: "Message \<Rightarrow> string list" where
  "read_by m = (case readBy m of None \<Rightarrow> [] | Some l \<Rightarrow> l)"

definition msg_read_by :: "msg \<Rightarrow> string list" where
  "msg_read_by m = (case msg_readBy m of None \<Rightarrow> [] | Some l \<Rightarrow> l)"

text \<open>No room holds more than 2000 messages.\<close>

definition rooms_capped :: "store \<Rightarrow> bool" where
  "rooms_capped st = list_all (\<lambda>kv. length (messages (snd kv)) \<le> 2000) (ROOMS st)"

text \<open>The example store with the room \<open>General\<close> filled to the cap.\<close>

definition ex_full :: store where
  "ex_full =
     ex_store\<lparr>ROOMS := [(''General'', \<lparr>room_name = ''General'', createdBy = ''system'',
                                       createdAt = 900, messages = replicate 2000 0\<rparr>)]\<rparr>"

text \<open>
  A message as it was appended: a new message has no \<open>reactions\<close> and no \<open>readBy\<close>,
  and these are the two fields that \<open>react\<close> and \<open>mark_read\<close> set later.
\<close>

definition as_sent :: "msg \<Rightarrow> msg" where
  "as_sent m = m\<lparr>msg_reactions := None, msg_readBy := None\<rparr>"

text \<open>The archive and the array of a room, as the message objects they hold.\<close>

definition log_of :: "store \<Rightarrow> msg list" where
  "log_of st = map (heap st) (MESSAGES st)"

definition buffer_of :: "store \<Rightarrow> string \<Rightarrow> msg list" where
  "buffer_of st r =
     (case ROOMS_get st r of None \<Rightarrow> [] | Some info \<Rightarrow> map (heap st) (messages info))"

text \<open>The objects the arrays hold have been made: the next object is a new one.\<close>

definition addrs_ok :: "store \<Rightarrow> bool" where
  "addrs_ok st =
     (list_all (\<lambda>a. a < next_addr st) (MESSAGES st)
      \<and> list_all (\<lambda>kv. list_all (\<lambda>a. a < next_addr st) (messages (snd kv))) (ROOMS st))"

text \<open>
  A later store keeps an earlier one: the archive starts with the earlier archive, and
  the objects made by then are as they were appended.
\<close>

definition kept :: "store \<Rightarrow> store \<Rightarrow> bool" where
  "kept st st' =
     (next_addr st \<le> next_addr st'
      \<and> take (length (MESSAGES st)) (MESSAGES st') = MESSAGES st
      \<and> list_all (\<lambda>a. as_sent (heap st' a) = as_sent (heap st a)) [0..<next_addr st])"

text \<open>
  The route \<open>GET /messages/paginate\<close> of the database-backed server. The selection is
  the query \<open>Message.find({ room, timestamp: { $lt: new Date(before) } }).sort({ timestamp:
  -1 }).limit(limit).lean()\<close>, which the database runs: \<open>run_query\<close> stands for it,
  called with the room, the bound and the limit, and gives the documents found, or
  \<open>None\<close> when it rejects. The route answers with the documents reversed, or with
  status 500.
\<close>

datatype response = Json "Message list" | Status500

definition paginate_route ::
  "(string \<Rightarrow> jsnum \<Rightarrow> jsnum \<Rightarrow> Message list option) \<Rightarrow> int \<Rightarrow> query \<Rightarrow> response" where
  "paginate_route run_query now q =
     (let room = or_else (q_room q) ''global'';
          before_ts = (case q_before q of None \<Rightarrow> Num now | Some b \<Rightarrow> b);
          limit = clamp_limit (case q_limit q of None \<Rightarrow> Num 50 | Some l \<Rightarrow> l)
      in case run_query room before_ts limit of
           None \<Rightarrow> Status500
         | Some msgs \<Rightarrow> Json (rev msgs))"

text \<open>
  \<open>`${now}`\<close>: the decimal digits of a time, an integer below \<open>10^21\<close> (from there
  on JavaScript writes a number with an exponent).
\<close>

function decimal_digits :: "int \<Rightarrow> string" where
  "decimal_digits n =
     (if n < 10 then [''0123456789'' ! nat n]
      else decimal_digits (n div 10) @ [''0123456789'' ! nat (n mod 10)])"
  by pat_completeness auto

termination
  by (relation "measure nat") auto

declare decimal_digits.simps [simp del]

definition decimal :: "int \<Rightarrow> string" where
  "decimal i = (if i < 0 then ''-'' @ decimal_digits (- i) else decimal_digits i)"

text \<open>
  The store the in-memory server starts with, \<open>t0\<close> being \<open>Date.now()\<close> at start-up:
  two rooms with two messages of the system each, and an empty archive. The seeded
  messages have no \<open>private\<close> field, which reads as \<open>undefined\<close> and is falsy
  (\<open>False\<close> here), and no \<open>file\<close>, \<open>reactions\<close> or \<open>readBy\<close>. In the first
  text the dash and the waving hand are written as their UTF-8 bytes, as is the dash of
  the third.
\<close>

definition seed :: "string \<Rightarrow> string \<Rightarrow> string \<Rightarrow> int \<Rightarrow> msg" where
  "seed i r txt ts =
     \<lparr>msg_id = i, msg_room = r, senderId = ''system'', senderName = ''System'',
      msg_text = Some txt, msg_file = None, msg_timestamp = ts, msg_private = False,
      msg_reactions = None, msg_readBy = None\<rparr>"

definition initial_store :: "int \<Rightarrow> store" where
  "initial_store t0 =
     \<lparr>heap = (\<lambda>_. seed (''init-'' @ decimal t0 @ ''-1'') ''General''
                      (''Welcome to the General room '' @ [CHR 0xE2, CHR 0x80, CHR 0x94]
                       @ '' say hi '' @ [CHR 0xF0, CHR 0x9F, CHR 0x91, CHR 0x8B])
                      (t0 - 1000 * 60 * 60))
               (1 := seed (''init-'' @ decimal t0 @ ''-2'') ''General''
                       ''Tip: create or join other rooms from the sidebar.''
                       (t0 - 1000 * 60 * 30),
                2 := seed (''init-'' @ decimal t0 @ ''-3'') ''Developers''
                       (''Welcome to Developers '' @ [CHR 0xE2, CHR 0x80, CHR 0x94]
                        @ '' share tips, snippets and bugs.'')
                       (t0 - 1000 * 60 * 45),
                3 := seed (''init-'' @ decimal t0 @ ''-4'') ''Developers''
                       ''Remember: messages here are ephemeral in this demo (in-memory).''
                       (t0 - 1000 * 60 * 15)),
      next_addr = 4, MESSAGES = [],
      ROOMS = [(''General'', \<lparr>room_name = ''General'', createdBy = ''system'', createdAt = t0,
                              messages = [0, 1]\<rparr>),
               (''Developers'', \<lparr>room_name = ''Developers'', createdBy = ''system'',
                                 createdAt = t0, messages = [2, 3]\<rparr>)],
      ONLINE = [], USERS_BY_ID = [], members = []\<rparr>"

text \<open>A request to one of the handlers, with what the environment supplies to it.\<close>

datatype request =
    Join conn "string option option" bool
  | CreateRoom conn "string option option" bool int
  | RoomsRequest conn bool
  | JoinRoom conn "string option option" bool int
  | LeaveRoom conn "string option option" bool
  | SendMessage conn "msg_payload option" bool string int
  | PrivateMessage conn "(string option \<times> string option) option" bool string int
  | Typing conn "(string option \<times> bool) option" bool
  | React conn "(string option \<times> string) option" bool
  | FileMessage conn "(string option \<times> string \<times> string \<times> string) option" bool string int
  | MarkRead conn "string option option" bool

fun handle :: "request \<Rightarrow> store \<Rightarrow> result" where
  "handle (Join c p a) st = on_join_B c p a st"
| "handle (CreateRoom c p a now) st = on_create_room c p a now st"
| "handle (RoomsRequest c a) st = on_rooms_request c a st"
| "handle (JoinRoom c p a now) st = on_join_room c p a now st"
| "handle (LeaveRoom c p a) st = on_leave_room c p a st"
| "handle (SendMessage c p a fresh now) st = on_message_B c p a fresh now st"
| "handle (PrivateMessage c p a fresh now) st = on_private_message c p a fresh now st"
| "handle (Typing c p a) st = on_typing c p a st"
| "handle (React c p a) st = on_react c p a st"
| "handle (FileMessage c p a fresh now) st = on_file_message c p a fresh now st"
| "handle (MarkRead c p a) st = on_mark_read_B c p a st"

text \<open>The requests are handled one after the other.\<close>

fun run :: "store \<Rightarrow> request list \<Rightarrow> store" where
  "run st [] = st"
| "run st (rq # rqs) = run (store_of (handle rq st)) rqs"

section \<open>Properties\<close>

subsection \<open>Trimming\<close>

lemma leading_Nil: "leading ws [] = 0"
  by (auto simp: leading_def find_Some_iff split: option.splits)

lemma trim_Nil: "trim [] = []"
  by (simp add: trim_def strip_leading.simps [of _ "[]"] leading_Nil)

subsection \<open>Lists updated in place\<close>

lemma set_upd_first: "set (upd_first P f xs) \<subseteq> set xs \<union> f ` {x \<in> set xs. P x}"
  by (induction xs) auto

lemma find_upd_first:
  "(\<And>x. P x \<Longrightarrow> P (f x)) \<Longrightarrow> find P (upd_first P f xs) = map_option f (find P xs)"
  by (induction xs) auto

lemma filter_upd_first:
  "(\<And>x. P x \<Longrightarrow> P (f x)) \<Longrightarrow>
   filter (\<lambda>x. \<not> P x) (upd_first P f xs) = filter (\<lambda>x. \<not> P x) xs"
  by (induction xs) auto

lemma upd_first_twice:
  "(\<And>x. P x \<Longrightarrow> P (f x)) \<Longrightarrow>
   upd_first P g (upd_first P f xs) = upd_first P (\<lambda>x. g (f x)) xs"
  by (induction xs) auto

lemma find_split:
  "list_all (\<lambda>x. \<not> P x) pre \<Longrightarrow> P r \<Longrightarrow> find P (pre @ r # post) = Some r"
  by (induction pre) auto

lemma upd_first_split:
  "list_all (\<lambda>x. \<not> P x) pre \<Longrightarrow> P r \<Longrightarrow> upd_first P f (pre @ r # post) = pre @ f r # post"
  by (induction pre) auto

lemma find_None_all: "list_all (\<lambda>x. \<not> P x) xs \<Longrightarrow> find P xs = None"
  by (induction xs) auto


lemma find_Some_props: "find P xs = Some x \<Longrightarrow> P x \<and> x \<in> set xs"
  by (induction xs) (auto split: if_splits)

lemma findById_save:
  assumes "findById i ms = Some m" "doc_id m' = i"
  shows "findById i (save m' ms) = Some m'"
  using assms unfolding findById_def save_def
  by (induction ms) (auto split: if_splits)

lemma findById_id: "findById i ms = Some m \<Longrightarrow> doc_id m = i"
  unfolding findById_def using find_Some_props [of "\<lambda>d. doc_id d = i" ms m] by simp

subsection \<open>The reaction toggle of the database-backed server\<close>

lemma reacted_iff: "reacted e who rs \<longleftrightarrow> (\<exists>x\<in>set rs. emoji x = e \<and> who \<in> set (users x))"
  by (simp add: reacted_def list_ex_iff)

lemma has_entry_iff: "has_entry e rs \<longleftrightarrow> (\<exists>x\<in>set rs. emoji x = e)"
  by (simp add: has_entry_def list_ex_iff)

text \<open>An entry of the array after a toggle is an old entry, or a well-formed one.\<close>

lemma toggle_entries:
  assumes "x \<in> set (toggle_reaction e who rs)"
  shows "x \<in> set rs \<or> (emoji x = e \<and> users x \<noteq> [] \<and> count x = length (users x))"
proof (cases "find (\<lambda>x. emoji x = e) rs")
  case None
  then show ?thesis using assms by (auto simp: toggle_reaction_def)
next
  case (Some r)
  have e: "emoji r = e" using find_Some_props [OF Some] by simp
  show ?thesis
  proof (cases "who \<in> set (users r)")
    case False
    then show ?thesis
      using assms Some e set_upd_first [of "\<lambda>x. emoji x = e"
          "\<lambda>x. x\<lparr>users := users r @ [who], count := length (users r @ [who])\<rparr>" rs]
      by (auto simp: toggle_reaction_def Let_def)
  next
    case True
    let ?us = "filter (\<lambda>u. u \<noteq> who) (users r)"
    let ?h = "\<lambda>x::reaction. x\<lparr>users := ?us, count := length ?us\<rparr>"
    show ?thesis
    proof (cases "?us = []")
      case True
      have "filter (\<lambda>x. emoji x \<noteq> e) (upd_first (\<lambda>x. emoji x = e) ?h rs)
            = filter (\<lambda>x. emoji x \<noteq> e) rs"
        by (rule filter_upd_first) simp
      then show ?thesis using assms Some \<open>who \<in> set (users r)\<close> True
        by (auto simp: toggle_reaction_def Let_def)
    next
      case False
      then show ?thesis
        using assms Some True set_upd_first [of "\<lambda>x. emoji x = e" ?h rs]
        by (auto simp: toggle_reaction_def Let_def)
    qed
  qed
qed

lemma toggle_no_empty:
  assumes "list_all (\<lambda>r. users r \<noteq> []) rs"
  shows "list_all (\<lambda>r. users r \<noteq> []) (toggle_reaction e who rs)"
  using assms toggle_entries [of _ e who rs] by (auto simp: list_all_iff)

lemma toggle_keeps_ok: "reactions_ok rs \<Longrightarrow> reactions_ok (toggle_reaction e who rs)"
  using toggle_entries [of _ e who rs] by (auto simp: reactions_ok_def list_all_iff)

lemma toggle_emptied_removed:
  assumes "find (\<lambda>x. emoji x = e) rs = Some r" "who \<in> set (users r)"
    "filter (\<lambda>u. u \<noteq> who) (users r) = []"
  shows "\<not> has_entry e (toggle_reaction e who rs)"
  using assms by (simp add: toggle_reaction_def has_entry_iff)

lemma toggle_twice_unreacted:
  assumes un: "\<not> reacted e who rs"
  shows "\<not> reacted e who (toggle_reaction e who (toggle_reaction e who rs))"
proof (cases "find (\<lambda>x. emoji x = e) rs")
  case None
  let ?new = "\<lparr>emoji = e, users = [who], count = 1\<rparr>"
  have t1: "toggle_reaction e who rs = rs @ [?new]"
    using None by (simp add: toggle_reaction_def)
  have f1: "find (\<lambda>x. emoji x = e) (rs @ [?new]) = Some ?new"
    using None by (induction rs) (auto split: if_splits)
  have "toggle_reaction e who (rs @ [?new])
        = filter (\<lambda>x. emoji x \<noteq> e)
            (upd_first (\<lambda>x. emoji x = e) (\<lambda>x. x\<lparr>users := [], count := 0\<rparr>) (rs @ [?new]))"
    using f1 by (simp add: toggle_reaction_def)
  then show ?thesis by (simp add: t1 reacted_iff)
next
  case (Some r)
  have notin: "who \<notin> set (users r)"
    using un find_Some_props [OF Some] by (auto simp: reacted_iff)
  let ?P = "\<lambda>x. emoji x = e"
  let ?f = "\<lambda>x. x\<lparr>users := users r @ [who], count := length (users r @ [who])\<rparr>"
  let ?g = "\<lambda>x::reaction. x\<lparr>users := users r, count := length (users r)\<rparr>"
  define rs1 where "rs1 = upd_first ?P ?f rs"
  define rs2 where "rs2 = upd_first ?P ?g rs1"
  have t1: "toggle_reaction e who rs = rs1"
    using Some notin by (simp add: toggle_reaction_def Let_def rs1_def)
  have f1: "find ?P rs1 = Some (?f r)"
    unfolding rs1_def using Some by (subst find_upd_first) simp_all
  have us: "filter (\<lambda>u. u \<noteq> who) (users r @ [who]) = users r"
    using notin by (auto simp: filter_id_conv)
  have t2: "toggle_reaction e who rs1
            = (if users r = [] then filter (\<lambda>x. emoji x \<noteq> e) rs2 else rs2)"
    using f1 us by (simp add: toggle_reaction_def Let_def rs2_def)
  have rs2: "rs2 = upd_first ?P ?g rs"
    unfolding rs2_def rs1_def by (subst upd_first_twice) simp_all
  have r2: "\<not> reacted e who rs2"
  proof
    assume "reacted e who rs2"
    then obtain x where x: "x \<in> set rs2" "emoji x = e" "who \<in> set (users x)"
      unfolding reacted_iff by blast
    from x(1) have "x \<in> set rs \<or> x \<in> ?g ` {y \<in> set rs. ?P y}"
      unfolding rs2 using set_upd_first [of ?P ?g rs] by blast
    then show False
    proof
      assume "x \<in> set rs"
      with x(2,3) un show False unfolding reacted_iff by blast
    next
      assume "x \<in> ?g ` {y \<in> set rs. ?P y}"
      then have "users x = users r" by auto
      with x(3) notin show False by simp
    qed
  qed
  have r2': "\<not> reacted e who (filter (\<lambda>x. emoji x \<noteq> e) rs2)"
    unfolding reacted_iff by simp
  show ?thesis
    unfolding t1 t2 using r2 r2' by (cases "users r = []") simp_all
qed

text \<open>What the handler stores for a message it finds.\<close>

lemma on_reaction_stored:
  assumes "db_up s" "findById i (Messages s) = Some m"
  shows "findById i (Messages (state (on_reaction s sock i e who)))
         = Some (m\<lparr>reactions := toggle_reaction e who (reactions m)\<rparr>)"
    and "db_up (state (on_reaction s sock i e who))"
  using assms findById_id [OF assms(2)]
  by (simp_all add: on_reaction_def Let_def findById_save)

text \<open>The four ways of a toggle, on the array split at the first entry of the emoji.\<close>

lemma toggle_new:
  assumes "list_all (\<lambda>x. emoji x \<noteq> e) rs"
  shows "toggle_reaction e who rs = rs @ [\<lparr>emoji = e, users = [who], count = 1\<rparr>]"
  using find_None_all [of "\<lambda>x. emoji x = e" rs] assms by (simp add: toggle_reaction_def)

lemma toggle_add:
  assumes "list_all (\<lambda>x. emoji x \<noteq> e) pre" "emoji r = e" "who \<notin> set (users r)"
  shows "toggle_reaction e who (pre @ r # post)
         = pre @ r\<lparr>users := users r @ [who], count := length (users r) + 1\<rparr> # post"
proof -
  have f: "find (\<lambda>x. emoji x = e) (pre @ r # post) = Some r"
    using assms(1,2) by (intro find_split) simp_all
  have u: "upd_first (\<lambda>x. emoji x = e)
             (\<lambda>x. x\<lparr>users := users r @ [who], count := length (users r @ [who])\<rparr>) (pre @ r # post)
           = pre @ r\<lparr>users := users r @ [who], count := length (users r @ [who])\<rparr> # post"
    using assms(1,2) by (intro upd_first_split) simp_all
  show ?thesis using assms(3) u by (simp add: toggle_reaction_def f Let_def)
qed

lemma toggle_remove:
  assumes "list_all (\<lambda>x. emoji x \<noteq> e) pre" "emoji r = e" "who \<in> set (users r)"
  shows "toggle_reaction e who (pre @ r # post)
         = (if filter (\<lambda>u. u \<noteq> who) (users r) = []
            then filter (\<lambda>x. emoji x \<noteq> e) (pre @ r # post)
            else pre @ r\<lparr>users := filter (\<lambda>u. u \<noteq> who) (users r),
                         count := length (filter (\<lambda>u. u \<noteq> who) (users r))\<rparr> # post)"
proof -
  let ?us = "filter (\<lambda>u. u \<noteq> who) (users r)"
  let ?h = "\<lambda>x::reaction. x\<lparr>users := ?us, count := length ?us\<rparr>"
  have f: "find (\<lambda>x. emoji x = e) (pre @ r # post) = Some r"
    using assms(1,2) by (intro find_split) simp_all
  have u: "upd_first (\<lambda>x. emoji x = e) ?h (pre @ r # post) = pre @ ?h r # post"
    using assms(1,2) by (intro upd_first_split) simp_all
  have g: "filter (\<lambda>x. emoji x \<noteq> e) (upd_first (\<lambda>x. emoji x = e) ?h (pre @ r # post))
           = filter (\<lambda>x. emoji x \<noteq> e) (pre @ r # post)"
    by (rule filter_upd_first) simp
  have t: "toggle_reaction e who (pre @ r # post)
           = (if ?us = [] then filter (\<lambda>x. emoji x \<noteq> e)
                                  (upd_first (\<lambda>x. emoji x = e) ?h (pre @ r # post))
              else upd_first (\<lambda>x. emoji x = e) ?h (pre @ r # post))"
    using assms(3) by (simp add: toggle_reaction_def f Let_def)
  show ?thesis unfolding t g u using assms(2) by simp
qed

lemma toggle_restores:
  assumes "list_all (\<lambda>x. emoji x \<noteq> e) pre" "emoji r = e" "who \<in> set (users r)"
  shows "toggle_reaction e who (toggle_reaction e who (pre @ r # post))
         = (if filter (\<lambda>u. u \<noteq> who) (users r) = []
            then filter (\<lambda>x. emoji x \<noteq> e) (pre @ r # post)
                 @ [\<lparr>emoji = e, users = [who], count = 1\<rparr>]
            else pre @ r\<lparr>users := filter (\<lambda>u. u \<noteq> who) (users r) @ [who],
                         count := length (filter (\<lambda>u. u \<noteq> who) (users r)) + 1\<rparr> # post)"
proof (cases "filter (\<lambda>u. u \<noteq> who) (users r) = []")
  case True
  have "list_all (\<lambda>x. emoji x \<noteq> e) (filter (\<lambda>x. emoji x \<noteq> e) (pre @ r # post))"
    by (auto simp: list_all_iff)
  from toggle_new [OF this, of who] show ?thesis
    by (simp only: toggle_remove [OF assms] True if_True simp_thms)
next
  case False
  let ?us = "filter (\<lambda>u. u \<noteq> who) (users r)"
  let ?r1 = "r\<lparr>users := ?us, count := length ?us\<rparr>"
  have "toggle_reaction e who (pre @ ?r1 # post)
        = pre @ ?r1\<lparr>users := users ?r1 @ [who], count := length (users ?r1) + 1\<rparr> # post"
    using assms(1,2) by (intro toggle_add) simp_all
  then show ?thesis
    using False by (simp add: toggle_remove [OF assms])
qed

lemma reacted_append_new: "reacted e who (rs @ [\<lparr>emoji = e, users = [who], count = 1\<rparr>])"
  by (simp add: reacted_def)

lemma reacted_split:
  "emoji r = e \<Longrightarrow> who \<in> set (users r) \<Longrightarrow> reacted e who (pre @ r # post)"
  by (auto simp: reacted_def list_ex_iff)

lemma on_reaction_others:
  "filter (\<lambda>d. doc_id d \<noteq> i) (Messages (state (on_reaction s sock i e who)))
   = filter (\<lambda>d. doc_id d \<noteq> i) (Messages s)"
proof (cases "db_up s \<and> findById i (Messages s) \<noteq> None")
  case False
  then show ?thesis by (auto simp: on_reaction_def)
next
  case True
  then obtain m where m: "findById i (Messages s) = Some m" by auto
  have i: "doc_id m = i" using findById_id [OF m] .
  have "filter (\<lambda>d. \<not> doc_id d = i)
           (upd_first (\<lambda>d. doc_id d = i)
              (\<lambda>_. m\<lparr>reactions := toggle_reaction e who (reactions m)\<rparr>) (Messages s))
        = filter (\<lambda>d. \<not> doc_id d = i) (Messages s)"
    by (rule filter_upd_first) (simp add: i)
  then show ?thesis using True m i by (simp add: on_reaction_def Let_def save_def)
qed

subsection \<open>The reaction counter of the in-memory server\<close>

lemma map_of_map_set: "map_of (map_set k v kvs) = (map_of kvs)(k \<mapsto> v)"
proof (cases "k \<in> fst ` set kvs")
  case False
  then have "map_of (kvs @ [(k, v)]) = (map_of kvs)(k \<mapsto> v)"
    by (induction kvs) (auto simp: fun_upd_twist)
  with False show ?thesis by (simp add: map_set_def)
next
  case True
  then have "map_of (upd_first (\<lambda>kv. fst kv = k) (\<lambda>kv. (k, v)) kvs) = (map_of kvs)(k \<mapsto> v)"
  proof (induction kvs)
    case Nil
    then show ?case by simp
  next
    case (Cons kv kvs)
    show ?case
    proof (cases "fst kv = k")
      case True
      then show ?thesis by (cases kv) auto
    next
      case False
      with Cons.prems have "k \<in> fst ` set kvs" by auto
      from Cons.IH [OF this] False show ?thesis
        by (cases kv) (auto simp: fun_upd_twist)
    qed
  qed
  with True show ?thesis by (simp add: map_set_def)
qed

lemma set_property_map_set:
  "k \<noteq> ''__proto__'' \<or> k \<in> fst ` set own \<Longrightarrow> set_property k v own = map_set k v own"
  by (auto simp: set_property_def map_set_def)

text \<open>A property that reads as a number, or as nothing, reads as the value it is set to.\<close>

lemma get_set_counted:
  assumes "get_property own k = None \<or> get_property own k = Some (Number n)"
  shows "get_property (set_property k v own) k = Some v"
proof -
  have ok: "k \<noteq> ''__proto__'' \<or> k \<in> fst ` set own"
  proof (cases "k = ''__proto__''")
    case True
    have "map_of own k \<noteq> None"
    proof
      assume "map_of own k = None"
      then have "get_property own k = Some ObjectPrototype"
        using True by (simp add: get_property_def Object_prototype_def)
      with assms show False by simp
    qed
    then show ?thesis by (auto simp: map_of_eq_None_iff)
  qed simp
  show ?thesis
    by (simp add: set_property_map_set [OF ok] get_property_def map_of_map_set)
qed

lemma get_set_other: "k' \<noteq> k \<Longrightarrow> get_property (set_property k v own) k' = get_property own k'"
proof (cases "k \<noteq> ''__proto__'' \<or> k \<in> fst ` set own")
  case True
  assume "k' \<noteq> k"
  then show ?thesis
    by (simp add: set_property_map_set [OF True] get_property_def map_of_map_set)
next
  case False
  then show ?thesis by (simp add: set_property_def)
qed

lemma react_counts:
  assumes "find_message st (Some j) = Some a" "reaction_count (heap st a) e = Some k"
    "k < 2 ^ 53"
  shows "reaction_count (heap (store_of (on_react c (Some (Some j, e)) has_ack st)) a) e
         = Some (k + 1)"
    and "sent_of (on_react c (Some (Some j, e)) has_ack st)
         = [\<lparr>sent_to = ToRoom (or_else (Some (msg_room (heap st a))) GLOBAL_ROOM),
             sent_event = ''reaction'',
             sent_body = BReaction (msg_id (heap st a)) e (Some (Number (k + 1))) (userId c)\<rparr>]"
proof -
  let ?own = "case msg_reactions (heap st a) of None \<Rightarrow> [] | Some rs \<Rightarrow> rs"
  have g: "get_property ?own e = None \<and> k = 0 \<or> get_property ?own e = Some (Number k)"
    using assms(2) by (auto simp: reaction_count_def split: option.splits jsvalue.splits)
  then have v: "or_zero_plus_one (get_property ?own e) = Number (Suc k)"
    using assms(3) by (auto simp: or_zero_plus_one_def)
  have s: "get_property (set_property e (Number (Suc k)) ?own) e = Some (Number (Suc k))"
    using g get_set_counted [of ?own e k] by blast
  show "reaction_count (heap (store_of (on_react c (Some (Some j, e)) has_ack st)) a) e
         = Some (k + 1)"
    using assms(1) by (simp add: on_react_def safeHandler_def react_fn_def Let_def v
        reaction_count_def s)
  show "sent_of (on_react c (Some (Some j, e)) has_ack st)
         = [\<lparr>sent_to = ToRoom (or_else (Some (msg_room (heap st a))) GLOBAL_ROOM),
             sent_event = ''reaction'',
             sent_body = BReaction (msg_id (heap st a)) e (Some (Number (k + 1))) (userId c)\<rparr>]"
    using assms(1) by (simp add: on_react_def safeHandler_def react_fn_def Let_def v s)
qed

lemma react_frame:
  assumes "find_message st (Some j) = Some a"
  shows "heap (store_of (on_react c (Some (Some j, e)) has_ack st))
         = (heap st)(a := (heap st a)\<lparr>msg_reactions :=
               msg_reactions (heap (store_of (on_react c (Some (Some j, e)) has_ack st)) a)\<rparr>)"
    and "e2 \<noteq> e \<Longrightarrow>
         reaction_count (heap (store_of (on_react c (Some (Some j, e)) has_ack st)) a) e2
         = reaction_count (heap st a) e2"
    and "MESSAGES (store_of (on_react c (Some (Some j, e)) has_ack st)) = MESSAGES st"
  using assms
  by (simp_all add: on_react_def safeHandler_def react_fn_def Let_def reaction_count_def
      get_set_other)

text \<open>
  A reaction named as a property that every object inherits is not counted: the first
  request stores a string, or nothing.
\<close>

lemma react_inherited:
  assumes "find_message st (Some j) = Some a" "msg_reactions (heap st a) = None"
  shows "msg_reactions (heap (store_of (on_react c (Some (Some j, ''constructor'')) has_ack st)) a)
         = Some [(''constructor'', Text ''function Object() { [native code] }1'')]"
    and "msg_reactions (heap (store_of (on_react c (Some (Some j, ''__proto__'')) has_ack st)) a)
         = Some []"
  using assms
  by (simp_all add: on_react_def safeHandler_def react_fn_def Let_def
      get_property_def set_property_def or_zero_plus_one_def Object_prototype_def)

subsection \<open>C1: the reaction toggle\<close>

text \<open>
  C1, as stated, says that two identical reaction requests on any stored message leave
  no reaction of the user recorded. On a message the user has already reacted to, the
  first request takes the reaction away and the second one records it again.
\<close>

theorem reaction_toggle_counterexample:
  "map reactions
     (Messages (state (on_reaction (state (on_reaction ex_server bob_sock ''m1'' ''+1'' ''bob''))
                         bob_sock ''m1'' ''+1'' ''bob'')))
   = [ [\<lparr>emoji = ''+1'', users = [''bob''], count = 1\<rparr>] ]
   \<and> reacted ''+1'' ''bob'' [\<lparr>emoji = ''+1'', users = [''bob''], count = 1\<rparr>]"
  by (simp add: on_reaction_def ex_server_def ex_msg_def bob_sock_def findById_def save_def
      toggle_reaction_def Let_def reacted_def)

text \<open>
  C1, amended. In the database-backed server a reaction request on a stored message \<open>m\<close>
  toggles the user in the first entry of the emoji and changes nothing else of the
  message or of the other messages: with no entry for the emoji, an entry with the user
  alone and count 1 is appended; a user who is not in the entry's list is added at its
  end; a user who is in it is taken out; the count is the length of the list; and when
  the list becomes empty the entries of the emoji are removed, so that no entry with an
  empty user list appears where there was none. Two identical requests by a user who has
  no reaction with the emoji leave none recorded for them; two by a user who is in the
  entry leave them recorded again (at the end of the list, or in a new entry at the end
  of the array). In the in-memory server \<open>react\<close> is a counter: a request on a stored
  message whose count for the reaction is a number below \<open>2^53\<close> (0 when there is
  none) adds one to it, the event carries the new count, and nothing else in the store
  changes; a reaction named as a property every object inherits is not counted
  (\<open>constructor\<close> stores a string, \<open>__proto__\<close> stores nothing).
\<close>

theorem reaction_toggle:
  assumes up: "db_up s" and st: "findById i (Messages s) = Some m"
  shows "(\<not> reacted e who (reactions m) \<longrightarrow>
            (\<exists>m2. findById i (Messages (state (on_reaction (state (on_reaction s sock i e who))
                                                   sock i e who))) = Some m2
                  \<and> \<not> reacted e who (reactions m2)))
       \<and> (\<exists>m1. findById i (Messages (state (on_reaction s sock i e who))) = Some m1
              \<and> m1 = m\<lparr>reactions := reactions m1\<rparr>
              \<and> reactions m1 = toggle_reaction e who (reactions m)
              \<and> (list_all (\<lambda>x. emoji x \<noteq> e) (reactions m) \<longrightarrow>
                   reactions m1 = reactions m @ [\<lparr>emoji = e, users = [who], count = 1\<rparr>])
              \<and> (\<forall>pre r post.
                   reactions m = pre @ r # post \<and> list_all (\<lambda>x. emoji x \<noteq> e) pre \<and> emoji r = e
                   \<longrightarrow> reactions m1 =
                        (if who \<notin> set (users r) then
                           pre @ r\<lparr>users := users r @ [who], count := length (users r) + 1\<rparr> # post
                         else if filter (\<lambda>u. u \<noteq> who) (users r) = [] then
                           filter (\<lambda>x. emoji x \<noteq> e) (reactions m)
                         else
                           pre @ r\<lparr>users := filter (\<lambda>u. u \<noteq> who) (users r),
                                   count := length (filter (\<lambda>u. u \<noteq> who) (users r))\<rparr> # post))
              \<and> (\<forall>r. find (\<lambda>x. emoji x = e) (reactions m) = Some r \<and> set (users r) = {who}
                       \<longrightarrow> \<not> has_entry e (reactions m1))
              \<and> (list_all (\<lambda>r. users r \<noteq> []) (reactions m)
                    \<longrightarrow> list_all (\<lambda>r. users r \<noteq> []) (reactions m1)))
       \<and> filter (\<lambda>d. doc_id d \<noteq> i) (Messages (state (on_reaction s sock i e who)))
         = filter (\<lambda>d. doc_id d \<noteq> i) (Messages s)
       \<and> (\<forall>pre r post.
            reactions m = pre @ r # post \<and> list_all (\<lambda>x. emoji x \<noteq> e) pre \<and> emoji r = e
            \<and> who \<in> set (users r)
            \<longrightarrow> (\<exists>m2. findById i (Messages (state (on_reaction (state (on_reaction s sock i e who))
                                                         sock i e who))) = Some m2
                       \<and> reacted e who (reactions m2)
                       \<and> reactions m2 =
                           (if filter (\<lambda>u. u \<noteq> who) (users r) = [] then
                              filter (\<lambda>x. emoji x \<noteq> e) (reactions m)
                              @ [\<lparr>emoji = e, users = [who], count = 1\<rparr>]
                            else
                              pre @ r\<lparr>users := filter (\<lambda>u. u \<noteq> who) (users r) @ [who],
                                      count := length (filter (\<lambda>u. u \<noteq> who) (users r)) + 1\<rparr>
                                  # post)))
       \<and> (find_message str (Some j) = Some a \<and> reaction_count (heap str a) e' = Some k
            \<and> k < 2 ^ 53 \<longrightarrow>
            reaction_count (heap (store_of (on_react c (Some (Some j, e')) has_ack str)) a) e'
              = Some (k + 1)
            \<and> sent_of (on_react c (Some (Some j, e')) has_ack str)
              = [\<lparr>sent_to = ToRoom (or_else (Some (msg_room (heap str a))) GLOBAL_ROOM),
                  sent_event = ''reaction'',
                  sent_body = BReaction (msg_id (heap str a)) e' (Some (Number (k + 1)))
                                (userId c)\<rparr>])
       \<and> (find_message str (Some j) = Some a \<longrightarrow>
            heap (store_of (on_react c (Some (Some j, e')) has_ack str))
              = (heap str)(a := (heap str a)\<lparr>msg_reactions :=
                   msg_reactions (heap (store_of (on_react c (Some (Some j, e')) has_ack str)) a)\<rparr>)
            \<and> MESSAGES (store_of (on_react c (Some (Some j, e')) has_ack str)) = MESSAGES str
            \<and> (e2 \<noteq> e' \<longrightarrow>
                 reaction_count (heap (store_of (on_react c (Some (Some j, e')) has_ack str)) a) e2
                 = reaction_count (heap str a) e2))
       \<and> (find_message str (Some j) = Some a \<and> msg_reactions (heap str a) = None \<longrightarrow>
            msg_reactions
              (heap (store_of (on_react c (Some (Some j, ''constructor'')) has_ack str)) a)
              = Some [(''constructor'', Text ''function Object() { [native code] }1'')]
            \<and> msg_reactions
                (heap (store_of (on_react c (Some (Some j, ''__proto__'')) has_ack str)) a)
              = Some [])"
proof -
  let ?s1 = "state (on_reaction s sock i e who)"
  let ?s2 = "state (on_reaction ?s1 sock i e who)"
  let ?m1 = "m\<lparr>reactions := toggle_reaction e who (reactions m)\<rparr>"
  let ?new = "\<lparr>emoji = e, users = [who], count = 1\<rparr>"
  have s1: "findById i (Messages ?s1) = Some ?m1" and up1: "db_up ?s1"
    using on_reaction_stored [OF up st] by simp_all
  have s2: "findById i (Messages ?s2)
            = Some (?m1\<lparr>reactions := toggle_reaction e who (reactions ?m1)\<rparr>)"
    using on_reaction_stored(1) [OF up1 s1] .
  have twice: "\<not> reacted e who (reactions m) \<longrightarrow>
     (\<exists>m2. findById i (Messages ?s2) = Some m2 \<and> \<not> reacted e who (reactions m2))"
    using s2 toggle_twice_unreacted [of e who "reactions m"] by simp
  have new: "list_all (\<lambda>x. emoji x \<noteq> e) (reactions m) \<longrightarrow>
             reactions ?m1 = reactions m @ [?new]"
    using toggle_new [of e "reactions m" who] by simp
  have split: "\<forall>pre r post.
       reactions m = pre @ r # post \<and> list_all (\<lambda>x. emoji x \<noteq> e) pre \<and> emoji r = e
       \<longrightarrow> reactions ?m1 =
            (if who \<notin> set (users r) then
               pre @ r\<lparr>users := users r @ [who], count := length (users r) + 1\<rparr> # post
             else if filter (\<lambda>u. u \<noteq> who) (users r) = [] then
               filter (\<lambda>x. emoji x \<noteq> e) (reactions m)
             else
               pre @ r\<lparr>users := filter (\<lambda>u. u \<noteq> who) (users r),
                       count := length (filter (\<lambda>u. u \<noteq> who) (users r))\<rparr> # post)"
  proof (intro allI impI, elim conjE)
    fix pre r post
    assume a: "reactions m = pre @ r # post" "list_all (\<lambda>x. emoji x \<noteq> e) pre" "emoji r = e"
    show "reactions ?m1 =
            (if who \<notin> set (users r) then
               pre @ r\<lparr>users := users r @ [who], count := length (users r) + 1\<rparr> # post
             else if filter (\<lambda>u. u \<noteq> who) (users r) = [] then
               filter (\<lambda>x. emoji x \<noteq> e) (reactions m)
             else
               pre @ r\<lparr>users := filter (\<lambda>u. u \<noteq> who) (users r),
                       count := length (filter (\<lambda>u. u \<noteq> who) (users r))\<rparr> # post)"
    proof (cases "who \<in> set (users r)")
      case False
      with toggle_add [OF a(2,3) False, of post] show ?thesis by (simp add: a(1))
    next
      case True
      with toggle_remove [OF a(2,3) True, of post] show ?thesis by (simp add: a(1))
    qed
  qed
  have gone: "\<forall>r. find (\<lambda>x. emoji x = e) (reactions m) = Some r \<and> set (users r) = {who}
                \<longrightarrow> \<not> has_entry e (reactions ?m1)"
  proof (intro allI impI)
    fix r assume a: "find (\<lambda>x. emoji x = e) (reactions m) = Some r \<and> set (users r) = {who}"
    then have "who \<in> set (users r)" "filter (\<lambda>u. u \<noteq> who) (users r) = []"
      by (auto simp: filter_empty_conv)
    with a show "\<not> has_entry e (reactions ?m1)"
      using toggle_emptied_removed [of e "reactions m" r who] by simp
  qed
  have keep: "list_all (\<lambda>r. users r \<noteq> []) (reactions m)
              \<longrightarrow> list_all (\<lambda>r. users r \<noteq> []) (reactions ?m1)"
    using toggle_no_empty [of "reactions m" e who] by simp
  have once: "\<exists>m1. findById i (Messages ?s1) = Some m1
              \<and> m1 = m\<lparr>reactions := reactions m1\<rparr>
              \<and> reactions m1 = toggle_reaction e who (reactions m)
              \<and> (list_all (\<lambda>x. emoji x \<noteq> e) (reactions m) \<longrightarrow>
                   reactions m1 = reactions m @ [?new])
              \<and> (\<forall>pre r post.
                   reactions m = pre @ r # post \<and> list_all (\<lambda>x. emoji x \<noteq> e) pre \<and> emoji r = e
                   \<longrightarrow> reactions m1 =
                        (if who \<notin> set (users r) then
                           pre @ r\<lparr>users := users r @ [who], count := length (users r) + 1\<rparr> # post
                         else if filter (\<lambda>u. u \<noteq> who) (users r) = [] then
                           filter (\<lambda>x. emoji x \<noteq> e) (reactions m)
                         else
                           pre @ r\<lparr>users := filter (\<lambda>u. u \<noteq> who) (users r),
                                   count := length (filter (\<lambda>u. u \<noteq> who) (users r))\<rparr> # post))
              \<and> (\<forall>r. find (\<lambda>x. emoji x = e) (reactions m) = Some r \<and> set (users r) = {who}
                       \<longrightarrow> \<not> has_entry e (reactions m1))
              \<and> (list_all (\<lambda>r. users r \<noteq> []) (reactions m)
                    \<longrightarrow> list_all (\<lambda>r. users r \<noteq> []) (reactions m1))"
  proof (intro exI conjI)
    show "findById i (Messages ?s1) = Some ?m1" by (rule s1)
    show "?m1 = m\<lparr>reactions := reactions ?m1\<rparr>" by simp
    show "reactions ?m1 = toggle_reaction e who (reactions m)" by simp
  qed (rule new split gone keep)+
  have others: "filter (\<lambda>d. doc_id d \<noteq> i) (Messages ?s1)
                = filter (\<lambda>d. doc_id d \<noteq> i) (Messages s)"
    by (rule on_reaction_others)
  have restore: "\<forall>pre r post.
            reactions m = pre @ r # post \<and> list_all (\<lambda>x. emoji x \<noteq> e) pre \<and> emoji r = e
            \<and> who \<in> set (users r)
            \<longrightarrow> (\<exists>m2. findById i (Messages ?s2) = Some m2
                       \<and> reacted e who (reactions m2)
                       \<and> reactions m2 =
                           (if filter (\<lambda>u. u \<noteq> who) (users r) = [] then
                              filter (\<lambda>x. emoji x \<noteq> e) (reactions m) @ [?new]
                            else
                              pre @ r\<lparr>users := filter (\<lambda>u. u \<noteq> who) (users r) @ [who],
                                      count := length (filter (\<lambda>u. u \<noteq> who) (users r)) + 1\<rparr>
                                  # post))"
  proof (intro allI impI, elim conjE)
    fix pre r post
    assume a: "reactions m = pre @ r # post" "list_all (\<lambda>x. emoji x \<noteq> e) pre" "emoji r = e"
      "who \<in> set (users r)"
    let ?us = "filter (\<lambda>u. u \<noteq> who) (users r)"
    let ?rs2 = "if ?us = [] then filter (\<lambda>x. emoji x \<noteq> e) (reactions m) @ [?new]
                else pre @ r\<lparr>users := ?us @ [who], count := length ?us + 1\<rparr> # post"
    have t: "toggle_reaction e who (toggle_reaction e who (reactions m)) = ?rs2"
      unfolding a(1) by (rule toggle_restores [OF a(2,3,4)])
    have r: "reacted e who ?rs2"
    proof (cases "?us = []")
      case True
      then show ?thesis by (simp only: if_True reacted_append_new simp_thms)
    next
      case False
      have "reacted e who (pre @ r\<lparr>users := ?us @ [who], count := length ?us + 1\<rparr> # post)"
        by (rule reacted_split) (simp_all add: a(3))
      with False show ?thesis by (simp only: if_False)
    qed
    show "\<exists>m2. findById i (Messages ?s2) = Some m2 \<and> reacted e who (reactions m2)
               \<and> reactions m2 = ?rs2"
    proof (intro exI conjI)
      show "findById i (Messages ?s2)
            = Some (?m1\<lparr>reactions := toggle_reaction e who (reactions ?m1)\<rparr>)" by (rule s2)
      show "reacted e who (reactions (?m1\<lparr>reactions := toggle_reaction e who (reactions ?m1)\<rparr>))"
        using r t by simp
      show "reactions (?m1\<lparr>reactions := toggle_reaction e who (reactions ?m1)\<rparr>) = ?rs2"
        using t by simp
    qed
  qed
  have counter: "find_message str (Some j) = Some a \<and> reaction_count (heap str a) e' = Some k
            \<and> k < 2 ^ 53 \<longrightarrow>
            reaction_count (heap (store_of (on_react c (Some (Some j, e')) has_ack str)) a) e'
              = Some (k + 1)
            \<and> sent_of (on_react c (Some (Some j, e')) has_ack str)
              = [\<lparr>sent_to = ToRoom (or_else (Some (msg_room (heap str a))) GLOBAL_ROOM),
                  sent_event = ''reaction'',
                  sent_body = BReaction (msg_id (heap str a)) e' (Some (Number (k + 1)))
                                (userId c)\<rparr>]"
    using react_counts [of str j a e' k c has_ack] by blast
  have frame: "find_message str (Some j) = Some a \<longrightarrow>
            heap (store_of (on_react c (Some (Some j, e')) has_ack str))
              = (heap str)(a := (heap str a)\<lparr>msg_reactions :=
                   msg_reactions (heap (store_of (on_react c (Some (Some j, e')) has_ack str)) a)\<rparr>)
            \<and> MESSAGES (store_of (on_react c (Some (Some j, e')) has_ack str)) = MESSAGES str
            \<and> (e2 \<noteq> e' \<longrightarrow>
                 reaction_count (heap (store_of (on_react c (Some (Some j, e')) has_ack str)) a) e2
                 = reaction_count (heap str a) e2)"
  proof (intro impI conjI)
    assume f: "find_message str (Some j) = Some a"
    show "heap (store_of (on_react c (Some (Some j, e')) has_ack str))
              = (heap str)(a := (heap str a)\<lparr>msg_reactions :=
                   msg_reactions (heap (store_of (on_react c (Some (Some j, e')) has_ack str)) a)\<rparr>)"
      by (rule react_frame(1) [OF f])
    show "MESSAGES (store_of (on_react c (Some (Some j, e')) has_ack str)) = MESSAGES str"
      by (rule react_frame(3) [OF f])
    assume "e2 \<noteq> e'"
    then show "reaction_count (heap (store_of (on_react c (Some (Some j, e')) has_ack str)) a) e2
                 = reaction_count (heap str a) e2"
      by (rule react_frame(2) [OF f])
  qed
  have inherited: "find_message str (Some j) = Some a \<and> msg_reactions (heap str a) = None \<longrightarrow>
            msg_reactions
              (heap (store_of (on_react c (Some (Some j, ''constructor'')) has_ack str)) a)
              = Some [(''constructor'', Text ''function Object() { [native code] }1'')]
            \<and> msg_reactions
                (heap (store_of (on_react c (Some (Some j, ''__proto__'')) has_ack str)) a)
              = Some []"
    using react_inherited [of str j a c has_ack] by blast
  show ?thesis by (intro conjI twice once others restore counter frame inherited)
qed

theorem reaction_toggle_witness:
  "db_up ex_server \<and> findById ''m1'' (Messages ex_server) = Some ex_msg
   \<and> reactions ex_msg = [\<lparr>emoji = ''+1'', users = [''bob''], count = 1\<rparr>]
   \<and> \<not> reacted ''+1'' ''carol'' (reactions ex_msg)
   \<and> find_message ex_store (Some ''1000-abc'') = Some 0
   \<and> reaction_count (heap ex_store 0) ''+1'' = Some 0
   \<and> msg_reactions (heap ex_store 0) = None
   \<and> (\<exists>m2. findById ''m1''
              (Messages (state (on_reaction
                 (state (on_reaction ex_server bob_sock ''m1'' ''+1'' ''carol''))
                 bob_sock ''m1'' ''+1'' ''carol''))) = Some m2
          \<and> \<not> reacted ''+1'' ''carol'' (reactions m2))
   \<and> (\<exists>m1. findById ''m1'' (Messages (state (on_reaction ex_server bob_sock ''m1'' ''+1'' ''carol'')))
             = Some m1
          \<and> reactions m1 = [\<lparr>emoji = ''+1'', users = [''bob'', ''carol''], count = 2\<rparr>])
   \<and> (\<exists>m1. findById ''m1'' (Messages (state (on_reaction ex_server bob_sock ''m1'' ''ok'' ''carol'')))
             = Some m1
          \<and> reactions m1 = [\<lparr>emoji = ''+1'', users = [''bob''], count = 1\<rparr>,
                             \<lparr>emoji = ''ok'', users = [''carol''], count = 1\<rparr>])
   \<and> (\<exists>m1. findById ''m1'' (Messages (state (on_reaction ex_server bob_sock ''m1'' ''+1'' ''bob'')))
             = Some m1 \<and> reactions m1 = [] \<and> \<not> has_entry ''+1'' (reactions m1))
   \<and> (\<exists>m2. findById ''m1''
              (Messages (state (on_reaction
                 (state (on_reaction ex_server bob_sock ''m1'' ''+1'' ''bob''))
                 bob_sock ''m1'' ''+1'' ''bob''))) = Some m2
          \<and> reacted ''+1'' ''bob'' (reactions m2)
          \<and> reactions m2 = [\<lparr>emoji = ''+1'', users = [''bob''], count = 1\<rparr>])
   \<and> reaction_count
        (heap (store_of (on_react bob_conn (Some (Some ''1000-abc'', ''+1'')) True ex_store)) 0)
        ''+1'' = Some 1
   \<and> sent_of (on_react bob_conn (Some (Some ''1000-abc'', ''+1'')) True ex_store)
       = [\<lparr>sent_to = ToRoom ''General'', sent_event = ''reaction'',
           sent_body = BReaction ''1000-abc'' ''+1'' (Some (Number 1)) ''u2''\<rparr>]
   \<and> msg_reactions
        (heap (store_of (on_react bob_conn (Some (Some ''1000-abc'', ''constructor'')) True
                           ex_store)) 0)
       = Some [(''constructor'', Text ''function Object() { [native code] }1'')]
   \<and> msg_reactions
        (heap (store_of (on_react bob_conn (Some (Some ''1000-abc'', ''__proto__'')) True
                           ex_store)) 0)
       = Some []"
proof -
  let ?r = "\<lparr>emoji = ''+1'', users = [''bob''], count = 1\<rparr>"
  have h1: "db_up ex_server" by (simp add: ex_server_def)
  have h2: "findById ''m1'' (Messages ex_server) = Some ex_msg"
    by (simp add: ex_server_def ex_msg_def findById_def)
  have rs: "reactions ex_msg = [?r]" by (simp add: ex_msg_def)
  have h3: "\<not> reacted ''+1'' ''carol'' (reactions ex_msg)"
    by (simp add: ex_msg_def reacted_def)
  have h5: "find_message ex_store (Some ''1000-abc'') = Some 0"
    by (simp add: find_message_def ex_store_def ex_m_def)
  have h6: "reaction_count (heap ex_store 0) ''+1'' = Some 0"
    by (simp add: reaction_count_def ex_store_def ex_m_def get_property_def
        Object_prototype_def)
  have h7: "msg_reactions (heap ex_store 0) = None" by (simp add: ex_store_def ex_m_def)
  have room: "or_else (Some (msg_room (heap ex_store 0))) GLOBAL_ROOM = ''General''"
    by (simp add: ex_store_def ex_m_def or_else_def truthy_def)
  have ids: "msg_id (heap ex_store 0) = ''1000-abc''" "userId bob_conn = ''u2''"
    by (simp_all add: ex_store_def ex_m_def bob_conn_def)
  note carol = reaction_toggle [OF h1 h2, where e = "''+1''" and who = "''carol''"
      and sock = bob_sock and str = ex_store and j = "''1000-abc''" and a = 0 and e' = "''+1''"
      and k = 0 and c = bob_conn and has_ack = True and ?e2.0 = "''ok''"]
  note ok = reaction_toggle [OF h1 h2, where e = "''ok''" and who = "''carol''"
      and sock = bob_sock and str = ex_store and j = "''1000-abc''" and a = 0 and e' = "''+1''"
      and k = 0 and c = bob_conn and has_ack = True and ?e2.0 = "''ok''"]
  note bob = reaction_toggle [OF h1 h2, where e = "''+1''" and who = "''bob''"
      and sock = bob_sock and str = ex_store and j = "''1000-abc''" and a = 0 and e' = "''+1''"
      and k = 0 and c = bob_conn and has_ack = True and ?e2.0 = "''ok''"]
  have c1: "\<exists>m2. findById ''m1''
              (Messages (state (on_reaction
                 (state (on_reaction ex_server bob_sock ''m1'' ''+1'' ''carol''))
                 bob_sock ''m1'' ''+1'' ''carol''))) = Some m2
          \<and> \<not> reacted ''+1'' ''carol'' (reactions m2)"
    by (rule carol [THEN conjunct1, THEN mp, OF h3])
  have c2: "\<exists>m1. findById ''m1'' (Messages (state (on_reaction ex_server bob_sock ''m1'' ''+1'' ''carol'')))
             = Some m1
          \<and> reactions m1 = [\<lparr>emoji = ''+1'', users = [''bob'', ''carol''], count = 2\<rparr>]"
  proof -
    from carol [THEN conjunct2, THEN conjunct1] obtain m1 where
      f: "findById ''m1'' (Messages (state (on_reaction ex_server bob_sock ''m1'' ''+1'' ''carol'')))
          = Some m1"
      and sp: "\<forall>pre r post.
                   reactions ex_msg = pre @ r # post \<and> list_all (\<lambda>x. emoji x \<noteq> ''+1'') pre
                   \<and> emoji r = ''+1''
                   \<longrightarrow> reactions m1 =
                        (if ''carol'' \<notin> set (users r) then
                           pre @ r\<lparr>users := users r @ [''carol''], count := length (users r) + 1\<rparr> # post
                         else if filter (\<lambda>u. u \<noteq> ''carol'') (users r) = [] then
                           filter (\<lambda>x. emoji x \<noteq> ''+1'') (reactions ex_msg)
                         else
                           pre @ r\<lparr>users := filter (\<lambda>u. u \<noteq> ''carol'') (users r),
                                   count := length (filter (\<lambda>u. u \<noteq> ''carol'') (users r))\<rparr> # post)"
      by blast
    from sp [rule_format, of "[]" ?r "[]"] rs
    have "reactions m1 = [\<lparr>emoji = ''+1'', users = [''bob'', ''carol''], count = 2\<rparr>]"
      by simp
    with f show ?thesis by blast
  qed
  have c3: "\<exists>m1. findById ''m1'' (Messages (state (on_reaction ex_server bob_sock ''m1'' ''ok'' ''carol'')))
             = Some m1
          \<and> reactions m1 = [\<lparr>emoji = ''+1'', users = [''bob''], count = 1\<rparr>,
                             \<lparr>emoji = ''ok'', users = [''carol''], count = 1\<rparr>]"
  proof -
    from ok [THEN conjunct2, THEN conjunct1] obtain m1 where
      f: "findById ''m1'' (Messages (state (on_reaction ex_server bob_sock ''m1'' ''ok'' ''carol'')))
          = Some m1"
      and nw: "list_all (\<lambda>x. emoji x \<noteq> ''ok'') (reactions ex_msg) \<longrightarrow>
                   reactions m1 = reactions ex_msg @ [\<lparr>emoji = ''ok'', users = [''carol''], count = 1\<rparr>]"
      by blast
    from nw rs
    have "reactions m1 = [\<lparr>emoji = ''+1'', users = [''bob''], count = 1\<rparr>,
                          \<lparr>emoji = ''ok'', users = [''carol''], count = 1\<rparr>]"
      by simp
    with f show ?thesis by blast
  qed
  have c4: "\<exists>m1. findById ''m1'' (Messages (state (on_reaction ex_server bob_sock ''m1'' ''+1'' ''bob'')))
             = Some m1 \<and> reactions m1 = [] \<and> \<not> has_entry ''+1'' (reactions m1)"
  proof -
    from bob [THEN conjunct2, THEN conjunct1] obtain m1 where
      f: "findById ''m1'' (Messages (state (on_reaction ex_server bob_sock ''m1'' ''+1'' ''bob'')))
          = Some m1"
      and sp: "\<forall>pre r post.
                   reactions ex_msg = pre @ r # post \<and> list_all (\<lambda>x. emoji x \<noteq> ''+1'') pre
                   \<and> emoji r = ''+1''
                   \<longrightarrow> reactions m1 =
                        (if ''bob'' \<notin> set (users r) then
                           pre @ r\<lparr>users := users r @ [''bob''], count := length (users r) + 1\<rparr> # post
                         else if filter (\<lambda>u. u \<noteq> ''bob'') (users r) = [] then
                           filter (\<lambda>x. emoji x \<noteq> ''+1'') (reactions ex_msg)
                         else
                           pre @ r\<lparr>users := filter (\<lambda>u. u \<noteq> ''bob'') (users r),
                                   count := length (filter (\<lambda>u. u \<noteq> ''bob'') (users r))\<rparr> # post)"
      and gone: "\<forall>r. find (\<lambda>x. emoji x = ''+1'') (reactions ex_msg) = Some r
                     \<and> set (users r) = {''bob''} \<longrightarrow> \<not> has_entry ''+1'' (reactions m1)"
      by blast
    from sp [rule_format, of "[]" ?r "[]"] rs
    have e: "reactions m1 = []" by simp
    from gone [rule_format, of ?r] rs have "\<not> has_entry ''+1'' (reactions m1)" by simp
    with f e show ?thesis by blast
  qed
  have c5: "\<exists>m2. findById ''m1''
              (Messages (state (on_reaction
                 (state (on_reaction ex_server bob_sock ''m1'' ''+1'' ''bob''))
                 bob_sock ''m1'' ''+1'' ''bob''))) = Some m2
          \<and> reacted ''+1'' ''bob'' (reactions m2)
          \<and> reactions m2 = [\<lparr>emoji = ''+1'', users = [''bob''], count = 1\<rparr>]"
    using bob [THEN conjunct2, THEN conjunct2, THEN conjunct2, THEN conjunct1, rule_format,
        of "[]" ?r "[]"] rs
    by simp
  note cnt = carol [THEN conjunct2, THEN conjunct2, THEN conjunct2, THEN conjunct2,
      THEN conjunct1, THEN mp]
  have c6: "reaction_count
        (heap (store_of (on_react bob_conn (Some (Some ''1000-abc'', ''+1'')) True ex_store)) 0)
        ''+1'' = Some 1"
    using cnt h5 h6 by simp
  have c7: "sent_of (on_react bob_conn (Some (Some ''1000-abc'', ''+1'')) True ex_store)
       = [\<lparr>sent_to = ToRoom ''General'', sent_event = ''reaction'',
           sent_body = BReaction ''1000-abc'' ''+1'' (Some (Number 1)) ''u2''\<rparr>]"
    using cnt h5 h6 room ids by simp
  note inh = carol [THEN conjunct2, THEN conjunct2, THEN conjunct2, THEN conjunct2,
      THEN conjunct2, THEN conjunct2, THEN mp, OF conjI, OF h5 h7]
  show ?thesis
    by (intro conjI h1 h2 rs h3 h5 h6 h7 c1 c2 c3 c4 c5 c6 c7 inh [THEN conjunct1]
        inh [THEN conjunct2])
qed

subsection \<open>C10: reaction entries count their users\<close>

text \<open>
  C10. A reaction request on a stored message stores the toggled array. Every entry of
  it is an entry the message had before, unchanged, or has its \<open>count\<close> equal to the
  length of its \<open>users\<close> and a non-empty \<open>users\<close> list; so when every entry of the
  message counted its users and had at least one before the request, every entry does
  after it. A new message has no entries, so the property holds of every message that
  only this handler changes.
\<close>

theorem reaction_invariant:
  assumes up: "db_up s" and st: "findById i (Messages s) = Some m"
  shows "\<exists>m1. findById i (Messages (state (on_reaction s sock i e who))) = Some m1
            \<and> reactions m1 = toggle_reaction e who (reactions m)
            \<and> (\<forall>x \<in> set (reactions m1).
                  x \<in> set (reactions m) \<or> (count x = length (users x) \<and> users x \<noteq> []))
            \<and> (reactions_ok (reactions m) \<longrightarrow> reactions_ok (reactions m1))"
proof -
  have "\<forall>x \<in> set (toggle_reaction e who (reactions m)).
          x \<in> set (reactions m) \<or> (count x = length (users x) \<and> users x \<noteq> [])"
    using toggle_entries [of _ e who "reactions m"] by blast
  then show ?thesis
    using on_reaction_stored(1) [OF up st] toggle_keeps_ok [of "reactions m" e who] by simp
qed

theorem reaction_invariant_witness:
  "db_up ex_server \<and> findById ''m1'' (Messages ex_server) = Some ex_msg
   \<and> reactions_ok (reactions ex_msg)
   \<and> (\<exists>m1. findById ''m1'' (Messages (state (on_reaction ex_server alice_sock ''m1'' ''+1'' ''alice'')))
             = Some m1
           \<and> reactions m1 = [\<lparr>emoji = ''+1'', users = [''bob'', ''alice''], count = 2\<rparr>]
           \<and> reactions_ok (reactions m1))"
proof -
  have h1: "db_up ex_server" by (simp add: ex_server_def)
  have h2: "findById ''m1'' (Messages ex_server) = Some ex_msg"
    by (simp add: ex_server_def ex_msg_def findById_def)
  have h3: "reactions_ok (reactions ex_msg)"
    by (simp add: ex_msg_def reactions_ok_def)
  have t: "toggle_reaction ''+1'' ''alice'' (reactions ex_msg)
           = [\<lparr>emoji = ''+1'', users = [''bob'', ''alice''], count = 2\<rparr>]"
    by (simp add: toggle_reaction_def ex_msg_def Let_def)
  from reaction_invariant [OF h1 h2, of alice_sock "''+1''" "''alice''"]
  obtain m1 where m1:
    "findById ''m1'' (Messages (state (on_reaction ex_server alice_sock ''m1'' ''+1'' ''alice''))) = Some m1"
    "reactions m1 = toggle_reaction ''+1'' ''alice'' (reactions ex_msg)"
    "reactions_ok (reactions ex_msg) \<longrightarrow> reactions_ok (reactions m1)"
    by blast
  from m1(3) h3 have "reactions_ok (reactions m1)" by (rule mp)
  with m1(1) m1(2) t have
    "\<exists>m1. findById ''m1'' (Messages (state (on_reaction ex_server alice_sock ''m1'' ''+1'' ''alice'')))
             = Some m1
           \<and> reactions m1 = [\<lparr>emoji = ''+1'', users = [''bob'', ''alice''], count = 2\<rparr>]
           \<and> reactions_ok (reactions m1)"
    by auto
  then show ?thesis using h1 h2 h3 by (intro conjI)
qed

lemma new_Message_reactions_ok: "reactions_ok (reactions (new_Message i c f t r p fl ts))"
  by (simp add: new_Message_def reactions_ok_def)

subsection \<open>C2: only the sender deletes a message\<close>

lemma findById_remove1:
  assumes "distinct (map doc_id ms)" "findById i ms = Some m"
  shows "findById i (remove1 m ms) = None"
proof -
  have mem: "m \<in> set ms" and idm: "doc_id m = i"
    using assms(2) find_Some_props [of "\<lambda>d. doc_id d = i" ms m] by (simp_all add: findById_def)
  have "\<forall>d \<in> set (remove1 m ms). doc_id d \<noteq> i"
  proof
    fix d assume d: "d \<in> set (remove1 m ms)"
    have "distinct ms" using assms(1) by (rule distinct_map [THEN iffD1, THEN conjunct1])
    then have "d \<noteq> m" "d \<in> set ms" using d by auto
    then show "doc_id d \<noteq> i"
      using assms(1) mem idm by (auto simp: distinct_map inj_on_def)
  qed
  then show ?thesis by (simp add: findById_def find_None_iff)
qed

text \<open>
  C2. While \<open>ALLOW_ADMIN_DELETE\<close> is unset, a \<open>deleteMessage\<close> request for a stored
  message by a requester whose name is not the message's \<open>from\<close> leaves the state as it
  is, sends nothing and answers \<open>not_authorized\<close>; by the sender, the message is taken
  out of the collection and the request is answered with \<open>ok: true\<close>. The requester
  is the session's name (the Clerk username, else the \<open>onlineUsers\<close> entry); the
  acknowledgement is called when the request carries one.
\<close>

theorem deleteMessage_authorization:
  assumes up: "db_up s" and st: "findById i (Messages s) = Some m" and i: "i \<noteq> []"
  shows "(Some (from_name m) \<noteq> requester s sock \<and> \<not> ALLOW_ADMIN_DELETE s \<longrightarrow>
            on_deleteMessage s sock (Some (Some i)) has_ack
            = \<lparr>state = s, emits = [],
               acks = (if has_ack then [AckErr ''not_authorized''] else [])\<rparr>)
       \<and> (Some (from_name m) = requester s sock \<longrightarrow>
            Messages (state (on_deleteMessage s sock (Some (Some i)) has_ack)) = remove1 m (Messages s)
          \<and> acks (on_deleteMessage s sock (Some (Some i)) has_ack) = (if has_ack then [AckOk] else [])
          \<and> (distinct (map doc_id (Messages s)) \<longrightarrow>
               findById i (Messages (state (on_deleteMessage s sock (Some (Some i)) has_ack))) = None
             \<and> m \<notin> set (Messages (state (on_deleteMessage s sock (Some (Some i)) has_ack)))))"
proof -
  have d: "distinct (map doc_id (Messages s)) \<Longrightarrow> m \<notin> set (remove1 m (Messages s))"
    using distinct_map [of doc_id "Messages s"] by auto
  show ?thesis
    using up st i findById_remove1 [of "Messages s" i m] d
    by (simp add: on_deleteMessage_def truthy_def findByIdAndDelete_def)
qed

theorem deleteMessage_authorization_witness:
  "db_up ex_server \<and> findById ''m1'' (Messages ex_server) = Some ex_msg \<and> ''m1'' \<noteq> []
   \<and> Some (from_name ex_msg) \<noteq> requester ex_server bob_sock \<and> \<not> ALLOW_ADMIN_DELETE ex_server
   \<and> Some (from_name ex_msg) = requester ex_server alice_sock
   \<and> distinct (map doc_id (Messages ex_server))
   \<and> on_deleteMessage ex_server bob_sock (Some (Some ''m1'')) True
       = \<lparr>state = ex_server, emits = [], acks = [AckErr ''not_authorized'']\<rparr>
   \<and> Messages (state (on_deleteMessage ex_server alice_sock (Some (Some ''m1'')) True)) = []
   \<and> acks (on_deleteMessage ex_server alice_sock (Some (Some ''m1'')) True) = [AckOk]
   \<and> findById ''m1'' (Messages (state (on_deleteMessage ex_server alice_sock (Some (Some ''m1'')) True)))
     = None"
proof -
  have h1: "db_up ex_server" by (simp add: ex_server_def)
  have h2: "findById ''m1'' (Messages ex_server) = Some ex_msg"
    by (simp add: ex_server_def ex_msg_def findById_def)
  have h3: "''m1'' \<noteq> []" by simp
  have b: "Some (from_name ex_msg) \<noteq> requester ex_server bob_sock \<and> \<not> ALLOW_ADMIN_DELETE ex_server"
    by (simp add: requester_def ex_server_def ex_msg_def bob_sock_def js_or_def truthy_def
        onlineUsers_get_def)
  have a: "Some (from_name ex_msg) = requester ex_server alice_sock"
    by (simp add: requester_def ex_server_def ex_msg_def alice_sock_def js_or_def truthy_def
        onlineUsers_get_def)
  have d: "distinct (map doc_id (Messages ex_server))" by (simp add: ex_server_def)
  have r: "remove1 ex_msg (Messages ex_server) = []" by (simp add: ex_server_def)
  from deleteMessage_authorization [OF h1 h2 h3, of bob_sock True] b
  have bob: "on_deleteMessage ex_server bob_sock (Some (Some ''m1'')) True
       = \<lparr>state = ex_server, emits = [], acks = [AckErr ''not_authorized'']\<rparr>"
    by simp
  from deleteMessage_authorization [OF h1 h2 h3, of alice_sock True] a r
  have alice: "Messages (state (on_deleteMessage ex_server alice_sock (Some (Some ''m1'')) True)) = []
     \<and> acks (on_deleteMessage ex_server alice_sock (Some (Some ''m1'')) True) = [AckOk]"
    by simp
  from deleteMessage_authorization [OF h1 h2 h3, of alice_sock True] a d
  have gone: "findById ''m1''
      (Messages (state (on_deleteMessage ex_server alice_sock (Some (Some ''m1'')) True))) = None"
    by blast
  show ?thesis using h1 h2 b a d bob alice gone by simp
qed


subsection \<open>C3: where the sender of a message comes from\<close>

lemma fromName_known:
  assumes "truthy (clerk_username sock) \<or> truthy (onlineUsers_get s (socket_id sock))"
  shows "fromName s sock f = fromName s sock g"
  using assms by (auto simp: fromName_def js_or_def)

lemma push_message_MESSAGES: "MESSAGES (push_message m st) = MESSAGES st @ [next_addr st]"
  by (simp add: push_message_def archive_def Let_def)

lemma push_message_heap: "heap (push_message m st) = (heap st)(next_addr st := m)"
  by (simp add: push_message_def archive_def Let_def)

text \<open>
  C3, as stated, says that the stored sender never comes from the payload. A connection
  of the database-backed server that has neither a Clerk username nor an entry in
  \<open>onlineUsers\<close> stores the \<open>from\<close> the client sent.
\<close>

theorem sender_from_session_counterexample:
  "map from_name (Messages (state (on_message ex_server anon_sock
       \<lparr>p_content = Some ''x'', p_from = Some ''alice'', p_room = Some ''testroom''\<rparr> False ''m2'' 2000)))
     = [''alice'', ''alice'']
   \<and> map from_name (Messages (state (on_message ex_server anon_sock
       \<lparr>p_content = Some ''x'', p_from = Some ''mallory'', p_room = Some ''testroom''\<rparr> False ''m2'' 2000)))
     = [''alice'', ''mallory'']"
  by (simp add: on_message_def ex_server_def ex_msg_def anon_sock_def new_Message_def fromName_def
      js_or_def truthy_def onlineUsers_get_def Let_def)

text \<open>
  C3, amended. In the database-backed server, when the session has a name (a Clerk
  username or an \<open>onlineUsers\<close> entry), two runs of the handler that differ only in
  the payload's \<open>from\<close> have the same outcome; the stored \<open>from\<close> is \<open>fromName\<close>,
  which falls back to the payload's \<open>from\<close> only without such a name. In the
  in-memory server the payload's \<open>from\<close> changes nothing, and the stored message has
  the connection's \<open>userId\<close> and \<open>userName\<close> as its sender.
\<close>

theorem sender_from_session:
  "(truthy (clerk_username sock) \<or> truthy (onlineUsers_get s (socket_id sock)) \<longrightarrow>
      on_message s sock (p\<lparr>p_from := f\<rparr>) has_ack fresh now = on_message s sock p has_ack fresh now)
   \<and> (db_up s \<longrightarrow>
        Messages (state (on_message s sock p has_ack fresh now))
        = Messages s @ [new_Message fresh (p_content p) (fromName s sock (p_from p)) None
                          (Some (room_or_global (p_room p))) False None now])
   \<and> on_message_B c (Some (q\<lparr>b_from := g\<rparr>)) has_ack fresh now st
     = on_message_B c (Some q) has_ack fresh now st
   \<and> MESSAGES (store_of (on_message_B c (Some q) has_ack fresh now st))
     = MESSAGES st @ [next_addr st]
   \<and> senderId (heap (store_of (on_message_B c (Some q) has_ack fresh now st)) (next_addr st))
     = userId c
   \<and> senderName (heap (store_of (on_message_B c (Some q) has_ack fresh now st)) (next_addr st))
     = userName c"
proof -
  have a: "truthy (clerk_username sock) \<or> truthy (onlineUsers_get s (socket_id sock)) \<longrightarrow>
      on_message s sock (p\<lparr>p_from := f\<rparr>) has_ack fresh now = on_message s sock p has_ack fresh now"
    using fromName_known [of sock s f "p_from p"] by (auto simp: on_message_def Let_def)
  have b: "db_up s \<longrightarrow>
        Messages (state (on_message s sock p has_ack fresh now))
        = Messages s @ [new_Message fresh (p_content p) (fromName s sock (p_from p)) None
                          (Some (room_or_global (p_room p))) False None now]"
    by (simp add: on_message_def Let_def)
  have c: "on_message_B c (Some (q\<lparr>b_from := g\<rparr>)) has_ack fresh now st
     = on_message_B c (Some q) has_ack fresh now st"
    by (simp add: on_message_B_def message_fn_def safeHandler_def)
  have d: "store_of (on_message_B c (Some q) has_ack fresh now st)
           = push_message \<lparr>msg_id = fresh, msg_room = or_else (b_room q) GLOBAL_ROOM,
                    senderId = userId c, senderName = userName c, msg_text = b_text q,
                    msg_file = b_file q, msg_timestamp = now, msg_private = b_private q,
                    msg_reactions = None, msg_readBy = None\<rparr> st"
    by (simp add: on_message_B_def message_fn_def safeHandler_def Let_def)
  show ?thesis using a b c by (simp add: d push_message_MESSAGES push_message_heap)
qed

theorem sender_from_session_witness:
  "truthy (onlineUsers_get ex_server (socket_id bob_sock)) \<and> db_up ex_server
   \<and> on_message ex_server bob_sock
        \<lparr>p_content = Some ''x'', p_from = Some ''mallory'', p_room = Some ''testroom''\<rparr> False ''m2'' 2000
     = on_message ex_server bob_sock
        \<lparr>p_content = Some ''x'', p_from = Some ''alice'', p_room = Some ''testroom''\<rparr> False ''m2'' 2000
   \<and> map from_name (Messages (state (on_message ex_server bob_sock
        \<lparr>p_content = Some ''x'', p_from = Some ''mallory'', p_room = Some ''testroom''\<rparr> False ''m2'' 2000)))
     = [''alice'', ''bob'']"
proof -
  have h1: "truthy (onlineUsers_get ex_server (socket_id bob_sock))"
    by (simp add: truthy_def onlineUsers_get_def ex_server_def bob_sock_def)
  have h2: "db_up ex_server" by (simp add: ex_server_def)
  have f: "fromName ex_server bob_sock (Some ''mallory'') = ''bob''"
    by (simp add: fromName_def js_or_def truthy_def onlineUsers_get_def ex_server_def bob_sock_def)
  from sender_from_session [where sock = bob_sock and s = ex_server
      and p = "\<lparr>p_content = Some ''x'', p_from = Some ''alice'', p_room = Some ''testroom''\<rparr>"
      and f = "Some ''mallory''" and has_ack = False and fresh = "''m2''" and now = 2000] h1
  have eq: "on_message ex_server bob_sock
        \<lparr>p_content = Some ''x'', p_from = Some ''mallory'', p_room = Some ''testroom''\<rparr> False ''m2'' 2000
     = on_message ex_server bob_sock
        \<lparr>p_content = Some ''x'', p_from = Some ''alice'', p_room = Some ''testroom''\<rparr> False ''m2'' 2000"
    by simp
  from sender_from_session [where sock = bob_sock and s = ex_server
      and p = "\<lparr>p_content = Some ''x'', p_from = Some ''mallory'', p_room = Some ''testroom''\<rparr>"
      and f = "Some ''mallory''" and has_ack = False and fresh = "''m2''" and now = 2000] h2 f
  have st: "map from_name (Messages (state (on_message ex_server bob_sock
        \<lparr>p_content = Some ''x'', p_from = Some ''mallory'', p_room = Some ''testroom''\<rparr> False ''m2'' 2000)))
     = [''alice'', ''bob'']"
    by (simp add: new_Message_def ex_server_def ex_msg_def)
  show ?thesis using h1 h2 eq st by simp
qed


subsection \<open>C4: joining a room\<close>

lemma ROOMS_get_append_new:
  "\<not> ROOMS_has st r \<Longrightarrow> map_of (ROOMS st @ [(r, info)]) r = Some info"
  by (simp add: ROOMS_has_def map_add_dom_app_simps dom_map_of_conv_image_fst)

lemma ROOMS_get_None: "\<not> ROOMS_has st r \<Longrightarrow> ROOMS_get st r = None"
  by (simp add: ROOMS_has_def ROOMS_get_def map_of_eq_None_iff)

lemma socket_join_mem: "(r, i) \<in> set (socket_join r i js)"
  by (simp add: socket_join_def)

lemma length_slice_last: "length (slice_last n xs) \<le> n"
  by (simp add: slice_last_def)

lemma join_room_empty:
  assumes "trim (or_else room []) = []"
  shows "on_join_room c (Some room) has_ack now st
         = \<lparr>store_of = st, sent_of = [],
            replies = (if has_ack then [Failed ''room required''] else [])\<rparr>"
  using assms by (simp add: on_join_room_def join_room_fn_def safeHandler_def)

lemma join_room_joins:
  assumes ne: "trim (or_else room []) = r" "r \<noteq> []"
  shows "ROOMS_has (store_of (on_join_room c (Some room) has_ack now st)) r"
    and "ROOMS (store_of (on_join_room c (Some room) has_ack now st))
         = (if ROOMS_has st r then ROOMS st else ROOMS st @ [(r, new_room c r now)])"
    and "(r, conn_id c) \<in> set (members (store_of (on_join_room c (Some room) has_ack now st)))"
    and "heap (store_of (on_join_room c (Some room) has_ack now st)) = heap st"
    and "\<lparr>sent_to = ToSocket (conn_id c), sent_event = ''room_messages'',
          sent_body = BRoomMessages r (room_window st r)\<rparr>
         \<in> set (sent_of (on_join_room c (Some room) has_ack now st))"
    and "\<forall>x \<in> set (sent_of (on_join_room c (Some room) has_ack now st)).
           is_room_messages (sent_body x) \<longrightarrow> sent_to x = ToSocket (conn_id c)"
    and "replies (on_join_room c (Some room) has_ack now st)
         = (if has_ack then [OkRoomMessages r (room_window st r)] else [])"
  using ne
  by (auto simp: on_join_room_def join_room_fn_def safeHandler_def Let_def ROOMS_has_def
      ROOMS_get_def socket_join_mem room_window_def is_room_messages_def new_room_def
      map_add_dom_app_simps dom_map_of_conv_image_fst
      ROOMS_get_None [unfolded ROOMS_has_def ROOMS_get_def])

lemma length_recent_history: "length (recent_history r ms) \<le> 50"
  by (simp add: recent_history_def)

lemma joinRoom_refused:
  "\<not> truthy room \<Longrightarrow>
     on_joinRoom s sock room has_ack
     = \<lparr>state = s, emits = [], acks = (if has_ack then [AckErr ''room required''] else [])\<rparr>"
  "truthy room \<Longrightarrow> db_up s \<Longrightarrow> the room \<notin> set (Rooms s) \<Longrightarrow>
     on_joinRoom s sock room has_ack
     = \<lparr>state = s, emits = [], acks = (if has_ack then [AckErr ''room_not_found''] else [])\<rparr>"
  by (simp_all add: on_joinRoom_def)

lemma joinRoom_joins:
  assumes "truthy room" "db_up s" "the room \<in> set (Rooms s)"
  shows "(the room, socket_id sock) \<in> set (joined (state (on_joinRoom s sock room has_ack)))"
    and "Rooms (state (on_joinRoom s sock room has_ack)) = Rooms s"
    and "\<lparr>dest = ToSocket (socket_id sock), event = ''roomMessages'',
          body = PRoomMessages (the room) (recent_history (the room) (Messages s))\<rparr>
         \<in> set (emits (on_joinRoom s sock room has_ack))"
    and "\<forall>x \<in> set (emits (on_joinRoom s sock room has_ack)).
           is_history (body x) \<longrightarrow> dest x = ToSocket (socket_id sock)"
  using assms
  by (auto simp: on_joinRoom_def Let_def socket_join_mem history_emits_def is_history_def)

text \<open>
  C4, amended. In the in-memory server (\<open>join_room\<close>): a room name that is empty
  after trimming is refused with \<open>room required\<close> and nothing changes; otherwise the
  room is created when \<open>ROOMS\<close> does not have it, the connection becomes a member, and
  the last (at most 100) messages of the room are sent to the requesting socket, no
  other destination getting a \<open>room_messages\<close> body. In the database-backed server
  (\<open>joinRoom\<close>): an empty room name is refused with \<open>room required\<close>; while the
  database answers, a room that is not in the \<open>Room\<close> collection is refused with
  \<open>room_not_found\<close>, it is not created and the socket does not join, and for a room
  of the collection the socket joins and the requester alone gets the (at most 50)
  latest messages; when the database does not answer, the socket joins the room
  whatever its name and gets an empty list of messages. Only the in-memory server
  trims the name.
\<close>

theorem joinRoom_behaviour:
  "(trim (or_else room []) = [] \<longrightarrow>
      on_join_room c (Some room) has_ack now st
      = \<lparr>store_of = st, sent_of = [],
         replies = (if has_ack then [Failed ''room required''] else [])\<rparr>)
   \<and> (trim (or_else room []) \<noteq> [] \<longrightarrow>
        ROOMS_has (store_of (on_join_room c (Some room) has_ack now st)) (trim (or_else room []))
      \<and> ROOMS (store_of (on_join_room c (Some room) has_ack now st))
        = (if ROOMS_has st (trim (or_else room [])) then ROOMS st
           else ROOMS st @ [(trim (or_else room []), new_room c (trim (or_else room [])) now)])
      \<and> (trim (or_else room []), conn_id c)
        \<in> set (members (store_of (on_join_room c (Some room) has_ack now st)))
      \<and> \<lparr>sent_to = ToSocket (conn_id c), sent_event = ''room_messages'',
          sent_body = BRoomMessages (trim (or_else room []))
                        (room_window st (trim (or_else room [])))\<rparr>
        \<in> set (sent_of (on_join_room c (Some room) has_ack now st))
      \<and> (\<forall>x \<in> set (sent_of (on_join_room c (Some room) has_ack now st)).
            is_room_messages (sent_body x) \<longrightarrow> sent_to x = ToSocket (conn_id c))
      \<and> length (room_window st (trim (or_else room []))) \<le> 100)
   \<and> (\<not> truthy aroom \<longrightarrow>
        on_joinRoom s sock aroom has_ack
        = \<lparr>state = s, emits = [],
           acks = (if has_ack then [AckErr ''room required''] else [])\<rparr>)
   \<and> (truthy aroom \<and> db_up s \<and> the aroom \<notin> set (Rooms s) \<longrightarrow>
        on_joinRoom s sock aroom has_ack
        = \<lparr>state = s, emits = [],
           acks = (if has_ack then [AckErr ''room_not_found''] else [])\<rparr>)
   \<and> (truthy aroom \<and> db_up s \<and> the aroom \<in> set (Rooms s) \<longrightarrow>
        (the aroom, socket_id sock) \<in> set (joined (state (on_joinRoom s sock aroom has_ack)))
      \<and> Rooms (state (on_joinRoom s sock aroom has_ack)) = Rooms s
      \<and> \<lparr>dest = ToSocket (socket_id sock), event = ''roomMessages'',
          body = PRoomMessages (the aroom) (recent_history (the aroom) (Messages s))\<rparr>
        \<in> set (emits (on_joinRoom s sock aroom has_ack))
      \<and> (\<forall>x \<in> set (emits (on_joinRoom s sock aroom has_ack)).
            is_history (body x) \<longrightarrow> dest x = ToSocket (socket_id sock))
      \<and> length (recent_history (the aroom) (Messages s)) \<le> 50)
   \<and> (truthy aroom \<and> \<not> db_up s \<longrightarrow>
        on_joinRoom s sock aroom has_ack
        = \<lparr>state = s\<lparr>joined := socket_join (the aroom) (socket_id sock) (joined s)\<rparr>,
           emits = [\<lparr>dest = ToAll, event = ''onlineUsers'',
                     body = POnlineUsers (onlineUsers s)\<rparr>,
                    \<lparr>dest = ToSocket (socket_id sock), event = ''roomMessages'',
                     body = PRoomMessages (the aroom) []\<rparr>],
           acks = []\<rparr>
      \<and> (the aroom, socket_id sock) \<in> set (socket_join (the aroom) (socket_id sock) (joined s)))"
proof -
  have d: "truthy aroom \<and> \<not> db_up s \<longrightarrow>
        on_joinRoom s sock aroom has_ack
        = \<lparr>state = s\<lparr>joined := socket_join (the aroom) (socket_id sock) (joined s)\<rparr>,
           emits = [\<lparr>dest = ToAll, event = ''onlineUsers'',
                     body = POnlineUsers (onlineUsers s)\<rparr>,
                    \<lparr>dest = ToSocket (socket_id sock), event = ''roomMessages'',
                     body = PRoomMessages (the aroom) []\<rparr>],
           acks = []\<rparr>
      \<and> (the aroom, socket_id sock) \<in> set (socket_join (the aroom) (socket_id sock) (joined s))"
    by (simp add: on_joinRoom_def Let_def history_emits_def socket_join_mem)
  have w: "length (room_window st (trim (or_else room []))) \<le> 100"
    by (simp add: room_window_def length_slice_last)
  have b: "trim (or_else room []) \<noteq> [] \<longrightarrow>
        ROOMS_has (store_of (on_join_room c (Some room) has_ack now st)) (trim (or_else room []))
      \<and> ROOMS (store_of (on_join_room c (Some room) has_ack now st))
        = (if ROOMS_has st (trim (or_else room [])) then ROOMS st
           else ROOMS st @ [(trim (or_else room []), new_room c (trim (or_else room [])) now)])
      \<and> (trim (or_else room []), conn_id c)
        \<in> set (members (store_of (on_join_room c (Some room) has_ack now st)))
      \<and> \<lparr>sent_to = ToSocket (conn_id c), sent_event = ''room_messages'',
          sent_body = BRoomMessages (trim (or_else room []))
                        (room_window st (trim (or_else room [])))\<rparr>
        \<in> set (sent_of (on_join_room c (Some room) has_ack now st))
      \<and> (\<forall>x \<in> set (sent_of (on_join_room c (Some room) has_ack now st)).
            is_room_messages (sent_body x) \<longrightarrow> sent_to x = ToSocket (conn_id c))"
    using join_room_joins [OF refl, where room = room and c = c and has_ack = has_ack and now = now and st = st] by blast
  have a: "truthy aroom \<and> db_up s \<and> the aroom \<in> set (Rooms s) \<longrightarrow>
        (the aroom, socket_id sock) \<in> set (joined (state (on_joinRoom s sock aroom has_ack)))
      \<and> Rooms (state (on_joinRoom s sock aroom has_ack)) = Rooms s
      \<and> \<lparr>dest = ToSocket (socket_id sock), event = ''roomMessages'',
          body = PRoomMessages (the aroom) (recent_history (the aroom) (Messages s))\<rparr>
        \<in> set (emits (on_joinRoom s sock aroom has_ack))
      \<and> (\<forall>x \<in> set (emits (on_joinRoom s sock aroom has_ack)).
            is_history (body x) \<longrightarrow> dest x = ToSocket (socket_id sock))"
    using joinRoom_joins [where room = aroom and s = s and sock = sock and has_ack = has_ack] by blast
  show ?thesis
    using join_room_empty [where room = room and c = c and has_ack = has_ack and now = now and st = st] b w
      joinRoom_refused [where room = aroom and s = s and sock = sock and has_ack = has_ack]
      a length_recent_history [of "the aroom" "Messages s"] d
    by blast
qed

text \<open>
  C4, as stated, has every room that does not exist created on \<open>joinRoom\<close>. The
  database-backed server answers \<open>room_not_found\<close> instead.
\<close>

theorem joinRoom_behaviour_counterexample:
  "truthy (Some ''lobby'') \<and> ''lobby'' \<notin> set (Rooms ex_server)
   \<and> on_joinRoom ex_server bob_sock (Some ''lobby'') True
     = \<lparr>state = ex_server, emits = [], acks = [AckErr ''room_not_found'']\<rparr>
   \<and> ''lobby'' \<notin> set (Rooms (state (on_joinRoom ex_server bob_sock (Some ''lobby'') True)))
   \<and> (''lobby'', socket_id bob_sock)
       \<notin> set (joined (state (on_joinRoom ex_server bob_sock (Some ''lobby'') True)))"
  by (simp add: on_joinRoom_def ex_server_def truthy_def)

theorem joinRoom_behaviour_witness:
  "trim (or_else (Some '' lobby '') []) = ''lobby'' \<and> \<not> ROOMS_has ex_store ''lobby''
   \<and> ROOMS_has (store_of (on_join_room bob_conn (Some (Some '' lobby '')) True 5000 ex_store))
        ''lobby''
   \<and> (''lobby'', ''c2'')
       \<in> set (members (store_of (on_join_room bob_conn (Some (Some '' lobby '')) True 5000 ex_store)))
   \<and> trim (or_else (Some ''  '') []) = []
   \<and> on_join_room bob_conn (Some (Some ''  '')) True 5000 ex_store
     = \<lparr>store_of = ex_store, sent_of = [], replies = [Failed ''room required'']\<rparr>
   \<and> truthy (Some ''testroom'') \<and> db_up ex_server \<and> ''testroom'' \<in> set (Rooms ex_server)
   \<and> (''testroom'', ''s1'')
       \<in> set (joined (state (on_joinRoom ex_server bob_sock (Some ''testroom'') True)))
   \<and> \<not> truthy None
   \<and> on_joinRoom ex_server bob_sock None True
     = \<lparr>state = ex_server, emits = [], acks = [AckErr ''room required'']\<rparr>
   \<and> truthy (Some ''lobby'') \<and> ''lobby'' \<notin> set (Rooms ex_server)
   \<and> on_joinRoom ex_server bob_sock (Some ''lobby'') True
     = \<lparr>state = ex_server, emits = [], acks = [AckErr ''room_not_found'']\<rparr>
   \<and> trim (or_else (Some [CHR 0xC2, CHR 0xA0, CHR 0x20, CHR 0xE2, CHR 0x80, CHR 0xA8]) []) = []
   \<and> on_join_room bob_conn
        (Some (Some [CHR 0xC2, CHR 0xA0, CHR 0x20, CHR 0xE2, CHR 0x80, CHR 0xA8])) True 5000
        ex_store
     = \<lparr>store_of = ex_store, sent_of = [], replies = [Failed ''room required'']\<rparr>
   \<and> \<not> db_up (ex_server\<lparr>db_up := False\<rparr>)
   \<and> on_joinRoom (ex_server\<lparr>db_up := False\<rparr>) bob_sock (Some ''lobby'') True
     = \<lparr>state = ex_server\<lparr>db_up := False, joined := [(''lobby'', ''s1'')]\<rparr>,
        emits = [\<lparr>dest = ToAll, event = ''onlineUsers'',
                  body = POnlineUsers [(''s1'', ''bob''), (''s2'', ''alice'')]\<rparr>,
                 \<lparr>dest = ToSocket ''s1'', event = ''roomMessages'',
                  body = PRoomMessages ''lobby'' []\<rparr>],
        acks = []\<rparr>"
proof -
  have t3: "trim (or_else (Some [CHR 0xC2, CHR 0xA0, CHR 0x20, CHR 0xE2, CHR 0x80, CHR 0xA8]) [])
            = []"
    by code_simp
  have dn: "\<not> db_up (ex_server\<lparr>db_up := False\<rparr>)" by simp
  have t1: "trim (or_else (Some '' lobby '') []) = ''lobby''"
    by code_simp
  have t2: "trim (or_else (Some ''  '') []) = []"
    by code_simp
  have n: "\<not> ROOMS_has ex_store ''lobby''" by (simp add: ROOMS_has_def ex_store_def)
  have a: "truthy (Some ''testroom'')" "db_up ex_server" "''testroom'' \<in> set (Rooms ex_server)"
    "\<not> truthy None" "truthy (Some ''lobby'')" "''lobby'' \<notin> set (Rooms ex_server)"
    by (simp_all add: truthy_def ex_server_def)
  have c2: "conn_id bob_conn = ''c2''" "socket_id bob_sock = ''s1''"
    by (simp_all add: bob_conn_def bob_sock_def)
  from joinRoom_behaviour [where room = "Some '' lobby ''" and c = bob_conn and has_ack = True
      and now = 5000 and st = ex_store and aroom = "Some ''testroom''" and s = ex_server
      and sock = bob_sock] t1 a c2
  have w1: "ROOMS_has (store_of (on_join_room bob_conn (Some (Some '' lobby '')) True 5000 ex_store))
        ''lobby''"
    and w2: "(''lobby'', ''c2'')
       \<in> set (members (store_of (on_join_room bob_conn (Some (Some '' lobby '')) True 5000 ex_store)))"
    and w3: "(''testroom'', ''s1'')
       \<in> set (joined (state (on_joinRoom ex_server bob_sock (Some ''testroom'') True)))"
    by simp_all
  from joinRoom_behaviour [where room = "Some ''  ''" and c = bob_conn and has_ack = True
      and now = 5000 and st = ex_store and aroom = None and s = ex_server
      and sock = bob_sock] t2 a
  have w4: "on_join_room bob_conn (Some (Some ''  '')) True 5000 ex_store
     = \<lparr>store_of = ex_store, sent_of = [], replies = [Failed ''room required'']\<rparr>"
    and w5: "on_joinRoom ex_server bob_sock None True
     = \<lparr>state = ex_server, emits = [], acks = [AckErr ''room required'']\<rparr>"
    by simp_all
  from joinRoom_behaviour [where room = "Some ''  ''" and c = bob_conn and has_ack = True
      and now = 5000 and st = ex_store and aroom = "Some ''lobby''" and s = ex_server
      and sock = bob_sock] a
  have w6: "on_joinRoom ex_server bob_sock (Some ''lobby'') True
     = \<lparr>state = ex_server, emits = [], acks = [AckErr ''room_not_found'']\<rparr>"
    by simp
  from joinRoom_behaviour [where room = "Some [CHR 0xC2, CHR 0xA0, CHR 0x20, CHR 0xE2, CHR 0x80,
        CHR 0xA8]" and c = bob_conn and has_ack = True
      and now = 5000 and st = ex_store and aroom = "Some ''lobby''"
      and s = "ex_server\<lparr>db_up := False\<rparr>" and sock = bob_sock] t3
  have w7: "on_join_room bob_conn
        (Some (Some [CHR 0xC2, CHR 0xA0, CHR 0x20, CHR 0xE2, CHR 0x80, CHR 0xA8])) True 5000
        ex_store
     = \<lparr>store_of = ex_store, sent_of = [], replies = [Failed ''room required'']\<rparr>"
    by simp
  have j: "socket_join ''lobby'' ''s1'' [] = [(''lobby'', ''s1'')]"
    by (simp add: socket_join_def set_add_def)
  from joinRoom_behaviour [where room = "Some ''  ''" and c = bob_conn and has_ack = True
      and now = 5000 and st = ex_store and aroom = "Some ''lobby''"
      and s = "ex_server\<lparr>db_up := False\<rparr>" and sock = bob_sock] a dn c2 j
  have w8: "on_joinRoom (ex_server\<lparr>db_up := False\<rparr>) bob_sock (Some ''lobby'') True
     = \<lparr>state = ex_server\<lparr>db_up := False, joined := [(''lobby'', ''s1'')]\<rparr>,
        emits = [\<lparr>dest = ToAll, event = ''onlineUsers'',
                  body = POnlineUsers [(''s1'', ''bob''), (''s2'', ''alice'')]\<rparr>,
                 \<lparr>dest = ToSocket ''s1'', event = ''roomMessages'',
                  body = PRoomMessages ''lobby'' []\<rparr>],
        acks = []\<rparr>"
    by (simp add: ex_server_def)
  show ?thesis using t1 t2 n a w1 w2 w3 w4 w5 w6 by (intro conjI t3 w7 dn w8) simp_all
qed

subsection \<open>C5: announcing a username\<close>

lemma map_of_upd_first_key:
  assumes "k \<in> fst ` set us" "\<And>x. fst (f x) = fst x"
  shows "map_of (upd_first (\<lambda>u. fst u = k) f us) k
         = (case map_of us k of None \<Rightarrow> None | Some v \<Rightarrow> Some (snd (f (k, v))))"
  using assms(1)
proof (induction us)
  case Nil
  then show ?case by simp
next
  case (Cons u us)
  show ?case
  proof (cases "fst u = k")
    case True
    then show ?thesis using assms(2) [of u] by (cases u, cases "f u") auto
  next
    case False
    with Cons.prems have "k \<in> fst ` set us" by auto
    from Cons.IH [OF this] False show ?thesis by (cases u) auto
  qed
qed

lemma register_user_lookup:
  "\<exists>socks. map_of (register_user cid uname i us) cid = Some (uname, socks) \<and> i \<in> set socks"
proof (cases "cid \<in> fst ` set us")
  case False
  then show ?thesis
    by (simp add: register_user_def map_add_dom_app_simps dom_map_of_conv_image_fst)
next
  case True
  then obtain v where v: "map_of us cid = Some v"
    by (metis domD dom_map_of_conv_image_fst)
  have "map_of (upd_first (\<lambda>u. fst u = cid) (\<lambda>(k, n, socks). (k, uname, set_add i socks)) us) cid
        = (case map_of us cid of None \<Rightarrow> None
           | Some v \<Rightarrow> Some (snd ((\<lambda>(k, n, socks). (k, uname, set_add i socks)) (cid, v))))"
    by (rule map_of_upd_first_key [OF True]) (simp add: split_beta)
  with True v show ?thesis
    by (cases v) (simp add: register_user_def set_add_def)
qed

lemma join_B_registers:
  assumes "trim u \<noteq> []"
  shows "members (store_of (on_join_B c (Some (Some u)) has_ack st)) = members st"
    and "map_of (ONLINE (store_of (on_join_B c (Some (Some u)) has_ack st))) (conn_id c)
         = Some (canonicalId c, trim u)"
    and "\<exists>socks. map_of (USERS_BY_ID (store_of (on_join_B c (Some (Some u)) has_ack st)))
                    (canonicalId c) = Some (trim u, socks) \<and> conn_id c \<in> set socks"
    and "sent_of (on_join_B c (Some (Some u)) has_ack st)
         = broadcastUsers (store_of (on_join_B c (Some (Some u)) has_ack st))"
    and "\<forall>x \<in> set (sent_of (on_join_B c (Some (Some u)) has_ack st)). sent_to x = ToAll"
    and "replies (on_join_B c (Some (Some u)) has_ack st)
         = (if has_ack then [OkJoin (canonicalId c) (trim u)] else [])"
proof -
  have u: "u \<noteq> []" using assms trim_Nil by auto
  then have n: "or_else (Some u) (or_else (Some (userName c)) ''Anonymous'') = u"
    by (simp add: or_else_def)
  show "members (store_of (on_join_B c (Some (Some u)) has_ack st)) = members st"
    by (simp add: on_join_B_def join_fn_def safeHandler_def Let_def)
  show "map_of (ONLINE (store_of (on_join_B c (Some (Some u)) has_ack st))) (conn_id c)
         = Some (canonicalId c, trim u)"
    by (simp add: on_join_B_def join_fn_def safeHandler_def Let_def n map_of_map_set)
  show "\<exists>socks. map_of (USERS_BY_ID (store_of (on_join_B c (Some (Some u)) has_ack st)))
                    (canonicalId c) = Some (trim u, socks) \<and> conn_id c \<in> set socks"
    using register_user_lookup [of "canonicalId c" "trim u" "conn_id c" "USERS_BY_ID st"]
    by (simp add: on_join_B_def join_fn_def safeHandler_def Let_def n)
  show "sent_of (on_join_B c (Some (Some u)) has_ack st)
         = broadcastUsers (store_of (on_join_B c (Some (Some u)) has_ack st))"
    by (simp add: on_join_B_def join_fn_def safeHandler_def Let_def)
  show "\<forall>x \<in> set (sent_of (on_join_B c (Some (Some u)) has_ack st)). sent_to x = ToAll"
    by (simp add: on_join_B_def join_fn_def safeHandler_def Let_def broadcastUsers_def)
  show "replies (on_join_B c (Some (Some u)) has_ack st)
         = (if has_ack then [OkJoin (canonicalId c) (trim u)] else [])"
    by (simp add: on_join_B_def join_fn_def safeHandler_def Let_def n)
qed

lemma rooms_of_socket_join: "rooms_of i (socket_join r i js) = insert r (rooms_of i js)"
  by (auto simp: rooms_of_def socket_join_def)

lemma join_A_registers:
  assumes "u \<noteq> []"
  shows "onlineUsers_get (state (on_join s sock (Some u))) (socket_id sock)
         = js_or (clerk_username sock) (Some u)"
    and "\<lparr>dest = ToAll, event = ''onlineUsers'',
          body = POnlineUsers (onlineUsers (state (on_join s sock (Some u))))\<rparr>
         \<in> set (emits (on_join s sock (Some u)))"
    and "rooms_of (socket_id sock) (joined (state (on_join s sock (Some u))))
         = insert ''global'' (rooms_of (socket_id sock) (joined s))"
proof -
  have t: "truthy (js_or (clerk_username sock) (js_or (Some u) None))"
    using assms by (simp add: js_or_def truthy_def)
  have e: "js_or (clerk_username sock) (js_or (Some u) None) = js_or (clerk_username sock) (Some u)"
    using assms by (simp add: js_or_def truthy_def)
  obtain n where n: "js_or (clerk_username sock) (Some u) = Some n"
    using t e by (cases "js_or (clerk_username sock) (Some u)") (simp_all add: truthy_def)
  show "onlineUsers_get (state (on_join s sock (Some u))) (socket_id sock)
         = js_or (clerk_username sock) (Some u)"
    using t by (simp add: on_join_def Let_def onlineUsers_get_def map_of_map_set e n)
  show "\<lparr>dest = ToAll, event = ''onlineUsers'',
          body = POnlineUsers (onlineUsers (state (on_join s sock (Some u))))\<rparr>
         \<in> set (emits (on_join s sock (Some u)))"
    using t by (simp add: on_join_def Let_def)
  show "rooms_of (socket_id sock) (joined (state (on_join s sock (Some u))))
         = insert ''global'' (rooms_of (socket_id sock) (joined s))"
    using t by (simp add: on_join_def Let_def rooms_of_socket_join)
qed

text \<open>
  C5, as stated, has \<open>join\<close> add the connection to no room. The database-backed
  server puts the socket into the default room \<open>global\<close>.
\<close>

theorem join_counterexample:
  "trim ''carol'' \<noteq> []
   \<and> rooms_of (socket_id anon_sock) (joined ex_server) = {}
   \<and> rooms_of (socket_id anon_sock) (joined (state (on_join ex_server anon_sock (Some ''carol''))))
     = {''global''}"
proof -
  have "trim ''carol'' = ''carol''" by code_simp
  then show ?thesis
    by (simp add: on_join_def ex_server_def anon_sock_def js_or_def truthy_def Let_def
        rooms_of_def socket_join_def)
qed

text \<open>
  C5, amended. For a \<open>join\<close> request whose username is not empty after trimming: the
  in-memory server registers the trimmed name for the connection (in \<open>ONLINE\<close> and in
  \<open>USERS_BY_ID\<close>), sends the users snapshot to everybody, and leaves the room
  memberships as they are; the database-backed server records the session's name (the
  Clerk username, else the username sent) in \<open>onlineUsers\<close>, sends the \<open>onlineUsers\<close>
  snapshot to everybody, and adds the socket to the room \<open>global\<close> and to no other.
\<close>

theorem join_registers:
  "(trim u \<noteq> [] \<longrightarrow>
      members (store_of (on_join_B c (Some (Some u)) has_ack st)) = members st
    \<and> map_of (ONLINE (store_of (on_join_B c (Some (Some u)) has_ack st))) (conn_id c)
      = Some (canonicalId c, trim u)
    \<and> (\<exists>socks. map_of (USERS_BY_ID (store_of (on_join_B c (Some (Some u)) has_ack st)))
                  (canonicalId c) = Some (trim u, socks) \<and> conn_id c \<in> set socks)
    \<and> sent_of (on_join_B c (Some (Some u)) has_ack st)
      = broadcastUsers (store_of (on_join_B c (Some (Some u)) has_ack st))
    \<and> (\<forall>x \<in> set (sent_of (on_join_B c (Some (Some u)) has_ack st)). sent_to x = ToAll)
    \<and> replies (on_join_B c (Some (Some u)) has_ack st)
      = (if has_ack then [OkJoin (canonicalId c) (trim u)] else []))
   \<and> (trim u \<noteq> [] \<longrightarrow>
      onlineUsers_get (state (on_join s sock (Some u))) (socket_id sock)
      = js_or (clerk_username sock) (Some u)
    \<and> \<lparr>dest = ToAll, event = ''onlineUsers'',
        body = POnlineUsers (onlineUsers (state (on_join s sock (Some u))))\<rparr>
      \<in> set (emits (on_join s sock (Some u)))
    \<and> rooms_of (socket_id sock) (joined (state (on_join s sock (Some u))))
      = insert ''global'' (rooms_of (socket_id sock) (joined s)))"
proof -
  have u: "trim u \<noteq> [] \<Longrightarrow> u \<noteq> []" using trim_Nil by auto
  show ?thesis
    using join_B_registers [where u = u and c = c and has_ack = has_ack and st = st]
      join_A_registers [where u = u and s = s and sock = sock] u
    by blast
qed

theorem join_registers_witness:
  "trim '' Bobby '' \<noteq> []
   \<and> members (store_of (on_join_B bob_conn (Some (Some '' Bobby '')) True ex_store))
     = [(''global'', ''c1''), (''global'', ''c2'')]
   \<and> map_of (ONLINE (store_of (on_join_B bob_conn (Some (Some '' Bobby '')) True ex_store))) ''c2''
     = Some (''u2'', ''Bobby'')
   \<and> replies (on_join_B bob_conn (Some (Some '' Bobby '')) True ex_store)
     = [OkJoin ''u2'' ''Bobby'']
   \<and> onlineUsers_get (state (on_join ex_server anon_sock (Some '' Bobby ''))) ''s3''
     = Some '' Bobby ''
   \<and> rooms_of ''s3'' (joined (state (on_join ex_server anon_sock (Some '' Bobby ''))))
     = {''global''}
   \<and> trim ([CHR 0xC2, CHR 0xA0] @ ''Bobby'' @ [CHR 0xE3, CHR 0x80, CHR 0x80]) = ''Bobby''
   \<and> map_of (ONLINE (store_of (on_join_B bob_conn
         (Some (Some ([CHR 0xC2, CHR 0xA0] @ ''Bobby'' @ [CHR 0xE3, CHR 0x80, CHR 0x80])))
         True ex_store))) ''c2''
     = Some (''u2'', ''Bobby'')
   \<and> replies (on_join_B bob_conn
         (Some (Some ([CHR 0xC2, CHR 0xA0] @ ''Bobby'' @ [CHR 0xE3, CHR 0x80, CHR 0x80])))
         True ex_store)
     = [OkJoin ''u2'' ''Bobby'']"
proof -
  have t: "trim '' Bobby '' = ''Bobby''" by code_simp
  have t': "trim ([CHR 0xC2, CHR 0xA0] @ ''Bobby'' @ [CHR 0xE3, CHR 0x80, CHR 0x80]) = ''Bobby''"
    by code_simp
  have c: "conn_id bob_conn = ''c2''" "canonicalId bob_conn = ''u2''" "socket_id anon_sock = ''s3''"
    "js_or (clerk_username anon_sock) (Some '' Bobby '') = Some '' Bobby ''"
    "members ex_store = [(''global'', ''c1''), (''global'', ''c2'')]"
    "rooms_of ''s3'' (joined ex_server) = {}"
    by (simp_all add: bob_conn_def canonicalId_def or_else_def anon_sock_def js_or_def truthy_def
        ex_store_def ex_server_def rooms_of_def)
  from join_registers [where u = "'' Bobby ''" and c = bob_conn and has_ack = True
      and st = ex_store and s = ex_server and sock = anon_sock] t c
  have w1: "trim '' Bobby '' \<noteq> []
   \<and> members (store_of (on_join_B bob_conn (Some (Some '' Bobby '')) True ex_store))
     = [(''global'', ''c1''), (''global'', ''c2'')]
   \<and> map_of (ONLINE (store_of (on_join_B bob_conn (Some (Some '' Bobby '')) True ex_store))) ''c2''
     = Some (''u2'', ''Bobby'')
   \<and> replies (on_join_B bob_conn (Some (Some '' Bobby '')) True ex_store)
     = [OkJoin ''u2'' ''Bobby'']
   \<and> onlineUsers_get (state (on_join ex_server anon_sock (Some '' Bobby ''))) ''s3''
     = Some '' Bobby ''
   \<and> rooms_of ''s3'' (joined (state (on_join ex_server anon_sock (Some '' Bobby ''))))
     = {''global''}"
    by simp
  from join_registers [where u = "[CHR 0xC2, CHR 0xA0] @ ''Bobby'' @ [CHR 0xE3, CHR 0x80, CHR 0x80]"
      and c = bob_conn and has_ack = True
      and st = ex_store and s = ex_server and sock = anon_sock, THEN conjunct1] t' c(1,2)
  have w2: "map_of (ONLINE (store_of (on_join_B bob_conn
         (Some (Some ([CHR 0xC2, CHR 0xA0] @ ''Bobby'' @ [CHR 0xE3, CHR 0x80, CHR 0x80])))
         True ex_store))) ''c2''
     = Some (''u2'', ''Bobby'')
   \<and> replies (on_join_B bob_conn
         (Some (Some ([CHR 0xC2, CHR 0xA0] @ ''Bobby'' @ [CHR 0xE3, CHR 0x80, CHR 0x80])))
         True ex_store)
     = [OkJoin ''u2'' ''Bobby'']"
    by simp
  show ?thesis using w1 t' w2 by (simp only: simp_thms)
qed

subsection \<open>C6: acknowledgements\<close>








subsection \<open>C7: pagination\<close>

lemma sorted_map_filter: "sorted (map f xs) \<Longrightarrow> sorted (map f (filter P xs))"
  by (induction xs) auto

lemma sorted_map_drop: "sorted (map f xs) \<Longrightarrow> sorted (map f (drop k xs))"
  by (simp add: drop_map [symmetric] sorted_wrt_drop)

lemma paginate_eq:
  assumes ok: "archive_ok st" and room: "room \<noteq> []"
  shows "paginate st now \<lparr>q_room = Some room, q_before = Some (Num T), q_limit = Some (Num n)\<rparr>
         = slice_last (nat (min n 200))
             (filter (\<lambda>m. msg_room m = room \<and> msg_timestamp m < T) (map (heap st) (MESSAGES st)))"
proof -
  have f: "filter (\<lambda>m. or_else (Some (msg_room m)) GLOBAL_ROOM = or_else (Some room) GLOBAL_ROOM
                       \<and> js_less (timestamp_or_now now m) (Num T)) (map (heap st) (MESSAGES st))
           = filter (\<lambda>m. msg_room m = room \<and> msg_timestamp m < T) (map (heap st) (MESSAGES st))"
    using ok room
    by (intro filter_cong refl)
       (auto simp: archive_ok_def list_all_iff or_else_def js_less_def timestamp_or_now_def)
  have d: "drop (nat (max 0 (int (length xs) - min n 200))) xs = slice_last (nat (min n 200)) xs"
    for xs :: "msg list"
  proof (cases "min n 200 \<le> 0")
    case True
    then have "length xs \<le> nat (max 0 (int (length xs) - min n 200))" by linarith
    with True show ?thesis by (simp add: slice_last_def)
  next
    case False
    then have "nat (max 0 (int (length xs) - min n 200)) = length xs - nat (min n 200)"
      by linarith
    then show ?thesis by (simp add: slice_last_def)
  qed
  show ?thesis
    by (simp only: paginate_def Let_def query.simps option.simps jsnum.simps clamp_limit_def
        slice_start_def slice_from_def f d)
qed

lemma archive_keeps_ok:
  assumes ok: "archive_ok st" and m: "msg_room m \<noteq> []" "msg_timestamp m \<noteq> 0"
    and late: "\<forall>a \<in> set (MESSAGES st). msg_timestamp (heap st a) \<le> msg_timestamp m"
  shows "archive_ok (archive m st)"
proof -
  have old: "\<forall>a \<in> set (MESSAGES st). a \<noteq> next_addr st"
    using ok by (auto simp: archive_ok_def list_all_iff)
  then have same: "map (\<lambda>a. msg_timestamp (((heap st)(next_addr st := m)) a)) (MESSAGES st)
                   = map (\<lambda>a. msg_timestamp (heap st a)) (MESSAGES st)"
    by (intro map_cong refl) simp
  show ?thesis
    using ok m late old
    by (auto simp: archive_ok_def archive_def list_all_iff sorted_append same less_Suc_eq
        simp del: fun_upd_apply) (auto simp: fun_upd_apply)
qed

lemma push_message_keeps_ok:
  assumes "archive_ok st" "msg_room m \<noteq> []" "msg_timestamp m \<noteq> 0"
    "\<forall>a \<in> set (MESSAGES st). msg_timestamp (heap st a) \<le> msg_timestamp m"
  shows "archive_ok (push_message m st)"
  using archive_keeps_ok [OF assms]
  by (simp add: push_message_def Let_def archive_ok_def)

lemma or_else_nonempty: "b \<noteq> [] \<Longrightarrow> or_else a b \<noteq> []"
  by (simp add: or_else_def split: option.splits)

text \<open>
  The handlers that push messages keep the archive in this shape while the clock does
  not run backwards; the ones that change a stored message leave its room and timestamp
  alone.
\<close>

lemma handlers_keep_archive_ok:
  assumes ok: "archive_ok st" and now: "now \<noteq> 0"
    and late: "\<forall>a \<in> set (MESSAGES st). msg_timestamp (heap st a) \<le> now"
  shows "archive_ok (store_of (on_message_B c p has_ack fresh now st))"
    and "archive_ok (store_of (on_file_message c pf has_ack fresh now st))"
proof -
  show "archive_ok (store_of (on_message_B c p has_ack fresh now st))"
  proof (cases p)
    case None
    then show ?thesis using ok by (simp add: on_message_B_def message_fn_def safeHandler_def)
  next
    case (Some q)
    then show ?thesis
      using ok now late
      by (simp add: on_message_B_def message_fn_def safeHandler_def Let_def
          push_message_keeps_ok or_else_nonempty GLOBAL_ROOM_def)
  qed
  show "archive_ok (store_of (on_file_message c pf has_ack fresh now st))"
  proof (cases pf)
    case None
    then show ?thesis using ok by (simp add: on_file_message_def file_message_fn_def safeHandler_def)
  next
    case (Some q)
    then show ?thesis
      using ok now late
      by (cases q) (simp add: on_file_message_def file_message_fn_def safeHandler_def Let_def
          push_message_keeps_ok or_else_nonempty GLOBAL_ROOM_def)
  qed
qed

text \<open>
  C7. On an archive in the order of the timestamps, \<open>GET /messages/paginate\<close> of the
  in-memory server with room \<open>r\<close>, \<open>before = T\<close> and \<open>limit = n\<close> answers with messages
  of room \<open>r\<close> whose timestamps are below \<open>T\<close>, at most \<open>min n 200\<close> of them (none for
  a limit below 1), in ascending order of the timestamps: they are the last
  \<open>min n 200\<close> of the messages of the room below \<open>T\<close>.
\<close>

theorem paginate_page:
  assumes ok: "archive_ok st" and room: "room \<noteq> []"
  shows "(\<forall>m \<in> set (paginate st now
                        \<lparr>q_room = Some room, q_before = Some (Num T), q_limit = Some (Num n)\<rparr>).
            msg_room m = room \<and> msg_timestamp m < T)
       \<and> int (length (paginate st now
                        \<lparr>q_room = Some room, q_before = Some (Num T), q_limit = Some (Num n)\<rparr>))
         \<le> max 0 (min n 200)
       \<and> sorted (map msg_timestamp (paginate st now
                        \<lparr>q_room = Some room, q_before = Some (Num T), q_limit = Some (Num n)\<rparr>))
       \<and> paginate st now \<lparr>q_room = Some room, q_before = Some (Num T), q_limit = Some (Num n)\<rparr>
         = slice_last (nat (min n 200))
             (filter (\<lambda>m. msg_room m = room \<and> msg_timestamp m < T)
                (map (heap st) (MESSAGES st)))"
proof -
  let ?all = "filter (\<lambda>m. msg_room m = room \<and> msg_timestamp m < T) (map (heap st) (MESSAGES st))"
  have eq: "paginate st now \<lparr>q_room = Some room, q_before = Some (Num T), q_limit = Some (Num n)\<rparr>
            = slice_last (nat (min n 200)) ?all"
    by (rule paginate_eq [OF ok room])
  have sub: "set (slice_last (nat (min n 200)) ?all) \<subseteq> set ?all"
    unfolding slice_last_def by (rule set_drop_subset)
  have only: "\<forall>m \<in> set (slice_last (nat (min n 200)) ?all). msg_room m = room \<and> msg_timestamp m < T"
    using sub by auto
  have len: "int (length (slice_last (nat (min n 200)) ?all)) \<le> max 0 (min n 200)"
    by (simp add: slice_last_def)
  have "sorted (map msg_timestamp (map (heap st) (MESSAGES st)))"
    using ok by (simp add: archive_ok_def comp_def)
  then have "sorted (map msg_timestamp ?all)" by (rule sorted_map_filter)
  then have asc: "sorted (map msg_timestamp (slice_last (nat (min n 200)) ?all))"
    unfolding slice_last_def by (rule sorted_map_drop)
  show ?thesis unfolding eq using only len asc by blast
qed

theorem paginate_page_witness:
  "archive_ok ex_archive \<and> ''General'' \<noteq> []
   \<and> map msg_id (paginate ex_archive 5000
         \<lparr>q_room = Some ''General'', q_before = Some (Num 2600), q_limit = Some (Num 2)\<rparr>)
     = [''1500-def'', ''2500-ghi'']
   \<and> int (length (paginate ex_archive 5000
         \<lparr>q_room = Some ''General'', q_before = Some (Num 2600), q_limit = Some (Num 2)\<rparr>)) \<le> 2
   \<and> sorted (map msg_timestamp (paginate ex_archive 5000
         \<lparr>q_room = Some ''General'', q_before = Some (Num 2600), q_limit = Some (Num 2)\<rparr>))"
proof -
  have h1: "archive_ok ex_archive"
    by (simp add: archive_ok_def ex_archive_def ex_store_def ex_m_def)
  have h2: "''General'' \<noteq> []" by simp
  have v: "map msg_id (paginate ex_archive 5000
         \<lparr>q_room = Some ''General'', q_before = Some (Num 2600), q_limit = Some (Num 2)\<rparr>)
     = [''1500-def'', ''2500-ghi'']"
    by code_simp
  have m: "max 0 (min (2::int) 200) = 2" by simp
  note p = paginate_page [OF h1 h2, of 5000 2600 2, unfolded m]
  show ?thesis using h1 h2 v p by blast
qed

subsection \<open>C8: read receipts\<close>

lemma count_list_append1: "count_list (xs @ [x]) y = count_list xs y + (if x = y then 1 else 0)"
  by (induction xs) auto

lemma count_list_member: "x \<in> set xs \<Longrightarrow> count_list xs x \<le> 1 \<Longrightarrow> count_list xs x = 1"
  using count_list_0_iff [of xs x] by (cases "count_list xs x") auto

lemma reader_state: "onlineUsers s' = onlineUsers s \<Longrightarrow> reader s' sock = reader s sock"
  by (simp add: reader_def onlineUsers_get_def)

lemma mark_read_A_present:
  assumes up: "db_up s" and st: "findById i (Messages s) = Some m" and i: "i \<noteq> []"
  shows "reader s sock \<in> set (read_by m) \<Longrightarrow> state (on_mark_read s sock (Some (Some i)) has_ack) = s"
    and "reader s sock \<notin> set (read_by m) \<Longrightarrow>
           findById i (Messages (state (on_mark_read s sock (Some (Some i)) has_ack)))
           = Some (m\<lparr>readBy := Some (read_by m @ [reader s sock])\<rparr>)"
    and "acks (on_mark_read s sock (Some (Some i)) has_ack) = (if has_ack then [AckOk] else [])"
    and "db_up (state (on_mark_read s sock (Some (Some i)) has_ack))"
    and "onlineUsers (state (on_mark_read s sock (Some (Some i)) has_ack)) = onlineUsers s"
  using up st i findById_id [OF st]
  by (simp_all add: on_mark_read_def truthy_def Let_def read_by_def [symmetric] findById_save)

lemma mark_read_A_twice:
  assumes up: "db_up s" and st: "findById i (Messages s) = Some m" and i: "i \<noteq> []"
    and once: "count_list (read_by m) (reader s sock) \<le> 1"
  shows "\<exists>m2. findById i (Messages (state (on_mark_read (state (on_mark_read s sock (Some (Some i)) has_ack))
                                          sock (Some (Some i)) has_ack))) = Some m2
              \<and> count_list (read_by m2) (reader s sock) = 1"
    and "state (on_mark_read (state (on_mark_read s sock (Some (Some i)) has_ack)) sock (Some (Some i)) has_ack)
         = state (on_mark_read s sock (Some (Some i)) has_ack)"
    and "acks (on_mark_read (state (on_mark_read s sock (Some (Some i)) has_ack)) sock (Some (Some i)) has_ack)
         = (if has_ack then [AckOk] else [])"
proof -
  let ?s1 = "state (on_mark_read s sock (Some (Some i)) has_ack)"
  let ?u = "reader s sock"
  have up1: "db_up ?s1" and on1: "onlineUsers ?s1 = onlineUsers s"
    using mark_read_A_present(4,5) [OF up st i] by simp_all
  have rd: "reader ?s1 sock = ?u" using on1 by (rule reader_state)
  obtain m1 where m1: "findById i (Messages ?s1) = Some m1" "?u \<in> set (read_by m1)"
    "count_list (read_by m1) ?u = 1"
  proof (cases "?u \<in> set (read_by m)")
    case True
    then have "?s1 = s" using mark_read_A_present(1) [OF up st i] by simp
    with True st once that [of m] show ?thesis by (simp add: count_list_member)
  next
    case False
    then have "findById i (Messages ?s1) = Some (m\<lparr>readBy := Some (read_by m @ [?u])\<rparr>)"
      using mark_read_A_present(2) [OF up st i] by simp
    moreover have "count_list (read_by m) ?u = 0" using False by (simp add: count_list_0_iff)
    ultimately show ?thesis
      using that [of "m\<lparr>readBy := Some (read_by m @ [?u])\<rparr>"]
      by (simp add: read_by_def count_list_append1)
  qed
  have same: "state (on_mark_read ?s1 sock (Some (Some i)) has_ack) = ?s1"
    using mark_read_A_present(1) [OF up1 m1(1) i, of sock has_ack] m1(2) rd by simp
  show "state (on_mark_read ?s1 sock (Some (Some i)) has_ack) = ?s1" by (rule same)
  show "\<exists>m2. findById i (Messages (state (on_mark_read ?s1 sock (Some (Some i)) has_ack))) = Some m2
              \<and> count_list (read_by m2) ?u = 1"
    unfolding same using m1 by blast
  show "acks (on_mark_read ?s1 sock (Some (Some i)) has_ack) = (if has_ack then [AckOk] else [])"
    by (rule mark_read_A_present(3) [OF up1 m1(1) i])
qed

lemma mark_read_A_absent:
  assumes "db_up s" "findById i (Messages s) = None" "i \<noteq> []"
  shows "on_mark_read s sock (Some (Some i)) has_ack
         = \<lparr>state = s, emits = [], acks = (if has_ack then [AckErr ''not_found''] else [])\<rparr>"
  using assms by (simp add: on_mark_read_def truthy_def)

lemma find_message_heap_upd:
  assumes "msg_id m' = msg_id (heap st a)"
  shows "find_message (st\<lparr>heap := (heap st)(a := m')\<rparr>) i = find_message st i"
  unfolding find_message_def using assms
  by (intro find_cong) auto

lemma mark_read_B_present:
  assumes st: "find_message st (Some i) = Some a" and i: "i \<noteq> []"
  shows "store_of (on_mark_read_B c (Some (Some i)) has_ack st)
         = st\<lparr>heap := (heap st)(a := (heap st a)
                 \<lparr>msg_readBy := Some (if userId c \<in> set (msg_read_by (heap st a))
                                       then msg_read_by (heap st a)
                                       else msg_read_by (heap st a) @ [userId c])\<rparr>)\<rparr>"
    and "replies (on_mark_read_B c (Some (Some i)) has_ack st) = (if has_ack then [Ok] else [])"
  using st i
  by (simp_all add: on_mark_read_B_def mark_read_fn_def safeHandler_def truthy_def Let_def
      msg_read_by_def [symmetric])

lemma mark_read_B_twice:
  assumes st: "find_message st (Some i) = Some a" and i: "i \<noteq> []"
    and once: "count_list (msg_read_by (heap st a)) (userId c) \<le> 1"
  shows "count_list (msg_read_by (heap (store_of (on_mark_read_B c (Some (Some i)) has_ack
            (store_of (on_mark_read_B c (Some (Some i)) has_ack st)))) a)) (userId c) = 1"
    and "store_of (on_mark_read_B c (Some (Some i)) has_ack
            (store_of (on_mark_read_B c (Some (Some i)) has_ack st)))
         = store_of (on_mark_read_B c (Some (Some i)) has_ack st)"
    and "replies (on_mark_read_B c (Some (Some i)) has_ack
            (store_of (on_mark_read_B c (Some (Some i)) has_ack st)))
         = (if has_ack then [Ok] else [])"
proof -
  let ?u = "userId c"
  let ?rb = "msg_read_by (heap st a)"
  let ?rb1 = "if ?u \<in> set ?rb then ?rb else ?rb @ [?u]"
  let ?st1 = "st\<lparr>heap := (heap st)(a := (heap st a)\<lparr>msg_readBy := Some ?rb1\<rparr>)\<rparr>"
  have s1: "store_of (on_mark_read_B c (Some (Some i)) has_ack st) = ?st1"
    by (rule mark_read_B_present(1) [OF st i])
  have f1: "find_message ?st1 (Some i) = Some a"
    using st by (simp add: find_message_heap_upd)
  have rb1: "msg_read_by (heap ?st1 a) = ?rb1" by (simp add: msg_read_by_def)
  have in1: "?u \<in> set ?rb1" by simp
  have c1: "count_list ?rb1 ?u = 1"
    using once by (auto simp: count_list_member count_list_append1 count_list_0_iff)
  have s2: "store_of (on_mark_read_B c (Some (Some i)) has_ack ?st1) = ?st1"
    unfolding mark_read_B_present(1) [OF f1 i] rb1 using in1 by simp
  show "store_of (on_mark_read_B c (Some (Some i)) has_ack
            (store_of (on_mark_read_B c (Some (Some i)) has_ack st)))
         = store_of (on_mark_read_B c (Some (Some i)) has_ack st)"
    unfolding s1 by (rule s2)
  show "count_list (msg_read_by (heap (store_of (on_mark_read_B c (Some (Some i)) has_ack
            (store_of (on_mark_read_B c (Some (Some i)) has_ack st)))) a)) (userId c) = 1"
    unfolding s1 s2 rb1 by (rule c1)
  show "replies (on_mark_read_B c (Some (Some i)) has_ack
            (store_of (on_mark_read_B c (Some (Some i)) has_ack st)))
         = (if has_ack then [Ok] else [])"
    unfolding s1 by (rule mark_read_B_present(2) [OF f1 i])
qed

lemma mark_read_B_absent:
  assumes "find_message st (Some i) = None" "i \<noteq> []"
  shows "on_mark_read_B c (Some (Some i)) has_ack st
         = \<lparr>store_of = st, sent_of = [],
            replies = (if has_ack then [Failed ''message not found''] else [])\<rparr>"
  using assms by (simp add: on_mark_read_B_def mark_read_fn_def safeHandler_def truthy_def)

text \<open>
  C8. Marking a stored message read twice by the same connection leaves the reader in
  \<open>readBy\<close> exactly once (the reader being there at most once before), the second
  request leaves the state as the first one left it, and both are acknowledged with
  \<open>ok: true\<close>; for an id that no stored message has, the request is answered with
  the not-found error and nothing changes. This holds of \<open>mark_read\<close> in both
  servers; the reader is the session's name in the database-backed server and the
  connection's \<open>userId\<close> in the in-memory one.
\<close>

theorem mark_read_idempotent:
  "(db_up s \<and> findById i (Messages s) = Some m \<and> i \<noteq> []
      \<and> count_list (read_by m) (reader s sock) \<le> 1 \<longrightarrow>
      (\<exists>m2. findById i (Messages (state (on_mark_read (state (on_mark_read s sock (Some (Some i)) has_ack))
                                            sock (Some (Some i)) has_ack))) = Some m2
            \<and> count_list (read_by m2) (reader s sock) = 1)
    \<and> state (on_mark_read (state (on_mark_read s sock (Some (Some i)) has_ack)) sock (Some (Some i)) has_ack)
      = state (on_mark_read s sock (Some (Some i)) has_ack)
    \<and> acks (on_mark_read s sock (Some (Some i)) has_ack) = (if has_ack then [AckOk] else [])
    \<and> acks (on_mark_read (state (on_mark_read s sock (Some (Some i)) has_ack)) sock (Some (Some i)) has_ack)
      = (if has_ack then [AckOk] else []))
   \<and> (db_up s \<and> findById i (Messages s) = None \<and> i \<noteq> [] \<longrightarrow>
        on_mark_read s sock (Some (Some i)) has_ack
        = \<lparr>state = s, emits = [], acks = (if has_ack then [AckErr ''not_found''] else [])\<rparr>)
   \<and> (find_message st (Some j) = Some a \<and> j \<noteq> []
      \<and> count_list (msg_read_by (heap st a)) (userId c) \<le> 1 \<longrightarrow>
      count_list (msg_read_by (heap (store_of (on_mark_read_B c (Some (Some j)) has_ack
            (store_of (on_mark_read_B c (Some (Some j)) has_ack st)))) a)) (userId c) = 1
    \<and> store_of (on_mark_read_B c (Some (Some j)) has_ack
            (store_of (on_mark_read_B c (Some (Some j)) has_ack st)))
      = store_of (on_mark_read_B c (Some (Some j)) has_ack st)
    \<and> replies (on_mark_read_B c (Some (Some j)) has_ack st) = (if has_ack then [Ok] else [])
    \<and> replies (on_mark_read_B c (Some (Some j)) has_ack
            (store_of (on_mark_read_B c (Some (Some j)) has_ack st)))
      = (if has_ack then [Ok] else []))
   \<and> (find_message st (Some j) = None \<and> j \<noteq> [] \<longrightarrow>
        on_mark_read_B c (Some (Some j)) has_ack st
        = \<lparr>store_of = st, sent_of = [],
           replies = (if has_ack then [Failed ''message not found''] else [])\<rparr>)"
proof (intro conjI impI)
  assume h: "db_up s \<and> findById i (Messages s) = Some m \<and> i \<noteq> []
      \<and> count_list (read_by m) (reader s sock) \<le> 1"
  then have up: "db_up s" and st: "findById i (Messages s) = Some m" and i: "i \<noteq> []"
    and once: "count_list (read_by m) (reader s sock) \<le> 1"
    by simp_all
  show "\<exists>m2. findById i (Messages (state (on_mark_read (state (on_mark_read s sock (Some (Some i)) has_ack))
                                            sock (Some (Some i)) has_ack))) = Some m2
            \<and> count_list (read_by m2) (reader s sock) = 1"
    by (rule mark_read_A_twice(1) [OF up st i once])
  show "state (on_mark_read (state (on_mark_read s sock (Some (Some i)) has_ack)) sock (Some (Some i)) has_ack)
      = state (on_mark_read s sock (Some (Some i)) has_ack)"
    by (rule mark_read_A_twice(2) [OF up st i once])
  show "acks (on_mark_read s sock (Some (Some i)) has_ack) = (if has_ack then [AckOk] else [])"
    by (rule mark_read_A_present(3) [OF up st i])
  show "acks (on_mark_read (state (on_mark_read s sock (Some (Some i)) has_ack)) sock (Some (Some i)) has_ack)
      = (if has_ack then [AckOk] else [])"
    by (rule mark_read_A_twice(3) [OF up st i once])
next
  assume "db_up s \<and> findById i (Messages s) = None \<and> i \<noteq> []"
  then show "on_mark_read s sock (Some (Some i)) has_ack
        = \<lparr>state = s, emits = [], acks = (if has_ack then [AckErr ''not_found''] else [])\<rparr>"
    using mark_read_A_absent [of s i sock has_ack] by simp
next
  assume h: "find_message st (Some j) = Some a \<and> j \<noteq> []
      \<and> count_list (msg_read_by (heap st a)) (userId c) \<le> 1"
  then have st: "find_message st (Some j) = Some a" and j: "j \<noteq> []"
    and once: "count_list (msg_read_by (heap st a)) (userId c) \<le> 1"
    by simp_all
  show "count_list (msg_read_by (heap (store_of (on_mark_read_B c (Some (Some j)) has_ack
            (store_of (on_mark_read_B c (Some (Some j)) has_ack st)))) a)) (userId c) = 1"
    by (rule mark_read_B_twice(1) [OF st j once])
  show "store_of (on_mark_read_B c (Some (Some j)) has_ack
            (store_of (on_mark_read_B c (Some (Some j)) has_ack st)))
      = store_of (on_mark_read_B c (Some (Some j)) has_ack st)"
    by (rule mark_read_B_twice(2) [OF st j once])
  show "replies (on_mark_read_B c (Some (Some j)) has_ack st) = (if has_ack then [Ok] else [])"
    by (rule mark_read_B_present(2) [OF st j])
  show "replies (on_mark_read_B c (Some (Some j)) has_ack
            (store_of (on_mark_read_B c (Some (Some j)) has_ack st)))
      = (if has_ack then [Ok] else [])"
    by (rule mark_read_B_twice(3) [OF st j once])
next
  assume "find_message st (Some j) = None \<and> j \<noteq> []"
  then show "on_mark_read_B c (Some (Some j)) has_ack st
        = \<lparr>store_of = st, sent_of = [],
           replies = (if has_ack then [Failed ''message not found''] else [])\<rparr>"
    using mark_read_B_absent [of st j c has_ack] by simp
qed

theorem mark_read_idempotent_witness:
  "db_up ex_server \<and> findById ''m1'' (Messages ex_server) = Some ex_msg \<and> ''m1'' \<noteq> []
   \<and> count_list (read_by ex_msg) (reader ex_server bob_sock) \<le> 1
   \<and> reader ex_server bob_sock = ''bob''
   \<and> (\<exists>m2. findById ''m1''
              (Messages (state (on_mark_read (state (on_mark_read ex_server bob_sock (Some (Some ''m1'')) True))
                                  bob_sock (Some (Some ''m1'')) True))) = Some m2
          \<and> count_list (read_by m2) ''bob'' = 1)
   \<and> acks (on_mark_read (state (on_mark_read ex_server bob_sock (Some (Some ''m1'')) True))
             bob_sock (Some (Some ''m1'')) True) = [AckOk]
   \<and> findById ''m9'' (Messages ex_server) = None
   \<and> acks (on_mark_read ex_server bob_sock (Some (Some ''m9'')) True) = [AckErr ''not_found'']
   \<and> find_message ex_store (Some ''1000-abc'') = Some 0
   \<and> count_list (msg_read_by (heap ex_store 0)) (userId bob_conn) \<le> 1
   \<and> count_list (msg_read_by (heap (store_of (on_mark_read_B bob_conn (Some (Some ''1000-abc'')) True
            (store_of (on_mark_read_B bob_conn (Some (Some ''1000-abc'')) True ex_store)))) 0))
         (userId bob_conn) = 1
   \<and> find_message ex_store (Some ''nope'') = None
   \<and> replies (on_mark_read_B bob_conn (Some (Some ''nope'')) True ex_store)
     = [Failed ''message not found'']"
proof -
  have a: "db_up ex_server" "findById ''m1'' (Messages ex_server) = Some ex_msg" "''m1'' \<noteq> []"
    "count_list (read_by ex_msg) (reader ex_server bob_sock) \<le> 1"
    "reader ex_server bob_sock = ''bob''" "findById ''m9'' (Messages ex_server) = None"
    by (simp_all add: ex_server_def ex_msg_def findById_def read_by_def reader_def js_or_def
        truthy_def onlineUsers_get_def bob_sock_def)
  have b: "find_message ex_store (Some ''1000-abc'') = Some 0"
    "count_list (msg_read_by (heap ex_store 0)) (userId bob_conn) \<le> 1"
    "find_message ex_store (Some ''nope'') = None"
    by (simp_all add: find_message_def ex_store_def ex_m_def msg_read_by_def)
  note t1 = mark_read_idempotent [where s = ex_server and i = "''m1''" and m = ex_msg
      and sock = bob_sock and has_ack = True and st = ex_store and j = "''1000-abc''" and a = 0
      and c = bob_conn]
  note t2 = mark_read_idempotent [where s = ex_server and i = "''m9''" and m = ex_msg
      and sock = bob_sock and has_ack = True and st = ex_store and j = "''nope''" and a = 0
      and c = bob_conn]
  have hA: "db_up ex_server \<and> findById ''m1'' (Messages ex_server) = Some ex_msg \<and> ''m1'' \<noteq> []
      \<and> count_list (read_by ex_msg) (reader ex_server bob_sock) \<le> 1"
    by (intro conjI a)
  have hB: "find_message ex_store (Some ''1000-abc'') = Some 0 \<and> ''1000-abc'' \<noteq> []
      \<and> count_list (msg_read_by (heap ex_store 0)) (userId bob_conn) \<le> 1"
    by (intro conjI b) simp
  have hA': "db_up ex_server \<and> findById ''m9'' (Messages ex_server) = None \<and> ''m9'' \<noteq> []"
    by (intro conjI a) simp
  have hB': "find_message ex_store (Some ''nope'') = None \<and> ''nope'' \<noteq> []"
    by (intro conjI b) simp
  note cA = t1 [THEN conjunct1, THEN mp, OF hA]
  note cB = t1 [THEN conjunct2, THEN conjunct2, THEN conjunct1, THEN mp, OF hB]
  note cA' = t2 [THEN conjunct2, THEN conjunct1, THEN mp, OF hA']
  note cB' = t2 [THEN conjunct2, THEN conjunct2, THEN conjunct2, THEN mp, OF hB']
  have r1: "\<exists>m2. findById ''m1''
              (Messages (state (on_mark_read (state (on_mark_read ex_server bob_sock (Some (Some ''m1'')) True))
                                  bob_sock (Some (Some ''m1'')) True))) = Some m2
          \<and> count_list (read_by m2) ''bob'' = 1"
    using cA [THEN conjunct1] unfolding a(5) .
  have r2: "acks (on_mark_read (state (on_mark_read ex_server bob_sock (Some (Some ''m1'')) True))
             bob_sock (Some (Some ''m1'')) True) = [AckOk]"
    using cA [THEN conjunct2, THEN conjunct2, THEN conjunct2] by simp
  have r3: "count_list (msg_read_by (heap (store_of (on_mark_read_B bob_conn (Some (Some ''1000-abc'')) True
            (store_of (on_mark_read_B bob_conn (Some (Some ''1000-abc'')) True ex_store)))) 0))
         (userId bob_conn) = 1"
    by (rule cB [THEN conjunct1])
  have r4: "acks (on_mark_read ex_server bob_sock (Some (Some ''m9'')) True) = [AckErr ''not_found'']"
    unfolding cA' by simp
  have r5: "replies (on_mark_read_B bob_conn (Some (Some ''nope'')) True ex_store)
     = [Failed ''message not found'']"
    unfolding cB' by simp
  show ?thesis by (intro conjI a b r1 r2 r3 r4 r5)
qed

subsection \<open>C9: the cap of a room's messages\<close>

lemma list_all_upd_first:
  "list_all Q xs \<Longrightarrow> (\<And>x. x \<in> set xs \<Longrightarrow> P x \<Longrightarrow> Q (f x)) \<Longrightarrow>
   list_all Q (upd_first P f xs)"
  by (induction xs) auto

lemma map_of_upd_first_other:
  assumes "k' \<noteq> k" "\<And>x. fst (f x) = fst x"
  shows "map_of (upd_first (\<lambda>u. fst u = k) f us) k' = map_of us k'"
proof (induction us)
  case Nil
  then show ?case by simp
next
  case (Cons u us)
  then show ?case using assms(1) assms(2) [of u] by (cases u, cases "f u") auto
qed

lemma length_push_room: "length (messages info) \<le> 2000 \<Longrightarrow> length (messages (push_room a info)) \<le> 2000"
  by (simp add: push_room_def Let_def)

lemma messages_push_room:
  "messages (push_room a info)
   = (if 2000 \<le> length (messages info) then tl (messages info) @ [a] else messages info @ [a])"
  by (cases "messages info") (auto simp: push_room_def Let_def)

lemma push_room_eq: 
  "push_room a info
   = info\<lparr>messages := (if 2000 \<le> length (messages info) then tl (messages info) @ [a]
                        else messages info @ [a])\<rparr>"
  using messages_push_room [of a info] by (simp add: push_room_def Let_def)

lemma push_message_rooms:
  shows "MESSAGES (push_message m st) = MESSAGES st @ [next_addr st]"
    and "heap (push_message m st) (next_addr st) = m"
    and "rooms_capped st \<Longrightarrow> rooms_capped (push_message m st)"
    and "ROOMS_get st (msg_room m) = Some info \<Longrightarrow>
           ROOMS_get (push_message m st) (msg_room m) = Some (push_room (next_addr st) info)"
    and "r \<noteq> msg_room m \<Longrightarrow> ROOMS_get (push_message m st) r = ROOMS_get st r"
proof -
  let ?f = "\<lambda>(k, info). (k, push_room (next_addr st) info)"
  have key: "fst (?f x) = fst x" for x by (cases x) simp
  show "MESSAGES (push_message m st) = MESSAGES st @ [next_addr st]"
    by (simp add: push_message_def archive_def Let_def)
  show "heap (push_message m st) (next_addr st) = m"
    by (simp add: push_message_def archive_def Let_def)
  show "rooms_capped (push_message m st)" if "rooms_capped st"
  proof -
    have "list_all (\<lambda>kv. length (messages (snd kv)) \<le> 2000)
            (upd_first (\<lambda>kv. fst kv = msg_room m) ?f (ROOMS st))"
    proof (rule list_all_upd_first)
      show "list_all (\<lambda>kv. length (messages (snd kv)) \<le> 2000) (ROOMS st)"
        using that by (simp add: rooms_capped_def)
    next
      fix x assume "x \<in> set (ROOMS st)"
      then have "length (messages (snd x)) \<le> 2000"
        using that by (simp add: rooms_capped_def list_all_iff)
      then show "length (messages (snd (?f x))) \<le> 2000"
        by (cases x) (simp add: length_push_room)
    qed
    with that show ?thesis
      by (simp add: push_message_def archive_def Let_def rooms_capped_def ROOMS_has_def)
  qed
  show "ROOMS_get (push_message m st) (msg_room m) = Some (push_room (next_addr st) info)"
    if "ROOMS_get st (msg_room m) = Some info"
  proof -
    have has: "msg_room m \<in> fst ` set (ROOMS st)"
      using that by (metis ROOMS_get_def domI dom_map_of_conv_image_fst)
    have "map_of (upd_first (\<lambda>u. fst u = msg_room m) ?f (ROOMS st)) (msg_room m)
          = (case map_of (ROOMS st) (msg_room m) of None \<Rightarrow> None
             | Some v \<Rightarrow> Some (snd (?f (msg_room m, v))))"
      by (rule map_of_upd_first_key [OF has key])
    with that has show ?thesis
      by (simp add: push_message_def archive_def Let_def ROOMS_has_def ROOMS_get_def)
  qed
  show "ROOMS_get (push_message m st) r = ROOMS_get st r" if "r \<noteq> msg_room m"
    using map_of_upd_first_other [OF that key, of "ROOMS st"]
    by (simp add: push_message_def archive_def Let_def ROOMS_get_def)
qed

lemma message_B_store:
  "store_of (on_message_B c (Some p) has_ack fresh now st)
   = push_message \<lparr>msg_id = fresh, msg_room = or_else (b_room p) GLOBAL_ROOM,
        senderId = userId c, senderName = userName c, msg_text = b_text p,
        msg_file = b_file p, msg_timestamp = now, msg_private = b_private p,
        msg_reactions = None, msg_readBy = None\<rparr> st"
  by (simp add: on_message_B_def message_fn_def safeHandler_def Let_def)

lemma file_message_store:
  "store_of (on_file_message c (Some (room, name, data, mime)) has_ack fresh now st)
   = push_message \<lparr>msg_id = fresh, msg_room = or_else room GLOBAL_ROOM,
        senderId = userId c, senderName = userName c, msg_text = None,
        msg_file = Some (name, data, mime), msg_timestamp = now,
        msg_private = False, msg_reactions = None, msg_readBy = None\<rparr> st"
  by (simp add: on_file_message_def file_message_fn_def safeHandler_def Let_def)

text \<open>The handlers that make rooms start them empty.\<close>

lemma room_makers_keep_cap:
  assumes "rooms_capped st"
  shows "rooms_capped (store_of (on_create_room c p has_ack now st))"
    and "rooms_capped (store_of (on_join_room c p has_ack now st))"
  using assms
  by (auto simp: on_create_room_def create_room_fn_def on_join_room_def join_room_fn_def
      safeHandler_def Let_def rooms_capped_def new_room_def split: option.splits)

lemma other_handlers_keep_ROOMS:
  "ROOMS (store_of (on_join_B c p1 a st)) = ROOMS st"
  "ROOMS (store_of (on_rooms_request c a st)) = ROOMS st"
  "ROOMS (store_of (on_leave_room c p2 a st)) = ROOMS st"
  "ROOMS (store_of (on_private_message c p3 a fresh now st)) = ROOMS st"
  "ROOMS (store_of (on_typing c p4 a st)) = ROOMS st"
  "ROOMS (store_of (on_react c p5 a st)) = ROOMS st"
  "ROOMS (store_of (on_mark_read_B c p6 a st)) = ROOMS st"
  by (auto simp: on_join_B_def join_fn_def on_rooms_request_def rooms_request_fn_def
      on_leave_room_def leave_room_fn_def on_private_message_def private_message_fn_def
      on_typing_def typing_fn_def on_react_def react_fn_def on_mark_read_B_def mark_read_fn_def
      safeHandler_def Let_def archive_def split: option.splits prod.splits)

lemma push_handlers_keep_cap:
  assumes "rooms_capped st"
  shows "rooms_capped (store_of (on_message_B c p a fresh now st))"
    and "rooms_capped (store_of (on_file_message c pf a fresh now st))"
proof -
  show "rooms_capped (store_of (on_message_B c p a fresh now st))"
  proof (cases p)
    case None
    then show ?thesis
      using assms by (simp add: on_message_B_def message_fn_def safeHandler_def)
  next
    case (Some q)
    then show ?thesis
      unfolding Some message_B_store by (intro push_message_rooms(3) assms)
  qed
  show "rooms_capped (store_of (on_file_message c pf a fresh now st))"
  proof (cases pf)
    case None
    then show ?thesis
      using assms by (simp add: on_file_message_def file_message_fn_def safeHandler_def)
  next
    case (Some q)
    obtain room name data mime where q: "q = (room, name, data, mime)" by (cases q)
    show ?thesis
      unfolding Some q file_message_store by (intro push_message_rooms(3) assms)
  qed
qed

lemma handle_keeps_cap: "rooms_capped st \<Longrightarrow> rooms_capped (store_of (handle rq st))"
proof (cases rq)
  case (CreateRoom c p a now)
  assume "rooms_capped st"
  then show ?thesis using room_makers_keep_cap(1) CreateRoom by simp
next
  case (JoinRoom c p a now)
  assume "rooms_capped st"
  then show ?thesis using room_makers_keep_cap(2) JoinRoom by simp
next
  case (SendMessage c p a fresh now)
  assume "rooms_capped st"
  then show ?thesis using push_handlers_keep_cap(1) SendMessage by simp
next
  case (FileMessage c p a fresh now)
  assume "rooms_capped st"
  then show ?thesis using push_handlers_keep_cap(2) FileMessage by simp
qed (simp_all add: rooms_capped_def other_handlers_keep_ROOMS)

lemma run_keeps_cap: "rooms_capped st \<Longrightarrow> rooms_capped (run st rqs)"
  by (induction rqs arbitrary: st) (simp_all add: handle_keeps_cap)

lemma initial_store_capped: "rooms_capped (initial_store t0)"
  by (simp add: rooms_capped_def initial_store_def)

lemma reachable_rooms_capped: "rooms_capped (run (initial_store t0) rqs)"
  by (rule run_keeps_cap [OF initial_store_capped])

subsection \<open>The archive keeps its messages\<close>

lemma kept_refl: "kept st st"
  by (simp add: kept_def list_all_iff)

lemma kept_trans:
  assumes a: "kept st st1" and b: "kept st1 st2"
  shows "kept st st2"
proof -
  have ta: "take (length (MESSAGES st)) (MESSAGES st1) = MESSAGES st"
    and tb: "take (length (MESSAGES st1)) (MESSAGES st2) = MESSAGES st1"
    and na: "next_addr st \<le> next_addr st1" and nb: "next_addr st1 \<le> next_addr st2"
    using a b by (simp_all add: kept_def)
  have "length (take (length (MESSAGES st)) (MESSAGES st1)) = length (MESSAGES st)"
    by (simp only: ta)
  then have l: "length (MESSAGES st) \<le> length (MESSAGES st1)" by simp
  have "take (length (MESSAGES st)) (MESSAGES st2)
        = take (length (MESSAGES st)) (take (length (MESSAGES st1)) (MESSAGES st2))"
    using l by (simp add: min_def)
  also have "\<dots> = MESSAGES st" by (simp only: tb ta)
  finally have t: "take (length (MESSAGES st)) (MESSAGES st2) = MESSAGES st" .
  have h: "as_sent (heap st2 x) = as_sent (heap st x)" if "x < next_addr st" for x
  proof -
    have "as_sent (heap st1 x) = as_sent (heap st x)"
      using a that by (simp add: kept_def list_all_iff)
    moreover have "as_sent (heap st2 x) = as_sent (heap st1 x)"
      using b that na by (simp add: kept_def list_all_iff)
    ultimately show ?thesis by simp
  qed
  show ?thesis
    unfolding kept_def using na nb t h by (simp add: list_all_iff)
qed

lemma kept_archive: "kept st (archive m st)"
  by (simp add: kept_def archive_def list_all_iff)

lemma kept_same_heap:
  "heap st' = heap st \<Longrightarrow> next_addr st' = next_addr st \<Longrightarrow> MESSAGES st' = MESSAGES st \<Longrightarrow>
   kept st st'"
  by (simp add: kept_def list_all_iff)

lemma kept_push_message: "kept st (push_message m st)"
  by (rule kept_trans [OF kept_archive [of st m]], rule kept_same_heap)
     (simp_all add: push_message_def Let_def)

lemma kept_heap_upd:
  "as_sent m' = as_sent (heap st a) \<Longrightarrow> kept st (st\<lparr>heap := (heap st)(a := m')\<rparr>)"
  by (simp add: kept_def list_all_iff)

lemma set_tl_subset: "a \<in> set (tl xs) \<Longrightarrow> a \<in> set xs"
  by (cases xs) auto

lemma addrs_ok_archive: "addrs_ok st \<Longrightarrow> addrs_ok (archive m st)"
  by (auto simp: addrs_ok_def archive_def list_all_iff less_Suc_eq)

lemma addrs_ok_push_message: "addrs_ok st \<Longrightarrow> addrs_ok (push_message m st)"
proof -
  assume ok: "addrs_ok st"
  let ?f = "\<lambda>(k, info). (k, push_room (next_addr st) info)"
  let ?Q = "\<lambda>kv. list_all (\<lambda>a. a < Suc (next_addr st)) (messages (snd kv))"
  have r: "list_all ?Q (ROOMS st)"
    using ok by (auto simp: addrs_ok_def list_all_iff less_Suc_eq)
  have "list_all ?Q (upd_first (\<lambda>kv. fst kv = msg_room m) ?f (ROOMS st))"
  proof (rule list_all_upd_first [OF r])
    fix x assume "x \<in> set (ROOMS st)"
    then have "?Q x" using r by (simp add: list_all_iff)
    then show "?Q (?f x)"
      by (cases x) (auto simp: messages_push_room list_all_iff dest: set_tl_subset)
  qed
  with r addrs_ok_archive [OF ok, of m] show ?thesis
    by (simp add: push_message_def Let_def addrs_ok_def archive_def)
qed

lemma addrs_ok_same:
  "next_addr st' = next_addr st \<Longrightarrow> MESSAGES st' = MESSAGES st \<Longrightarrow> ROOMS st' = ROOMS st \<Longrightarrow>
   addrs_ok st \<Longrightarrow> addrs_ok st'"
  by (simp add: addrs_ok_def)

text \<open>What each handler does to the store.\<close>

lemma message_store_cases:
  "store_of (on_message_B c p a fresh now st) = st
   \<or> (\<exists>m. store_of (on_message_B c p a fresh now st) = push_message m st)"
  "store_of (on_file_message c pf a fresh now st) = st
   \<or> (\<exists>m. store_of (on_file_message c pf a fresh now st) = push_message m st)"
  "store_of (on_private_message c pp a fresh now st) = st
   \<or> (\<exists>m. store_of (on_private_message c pp a fresh now st) = archive m st)"
  by (auto simp: on_message_B_def message_fn_def on_file_message_def file_message_fn_def
      on_private_message_def private_message_fn_def safeHandler_def Let_def
      split: option.splits prod.splits)

lemma update_store_cases:
  shows "store_of (on_react c pr a st) = st
   \<or> (\<exists>b m'. store_of (on_react c pr a st) = st\<lparr>heap := (heap st)(b := m')\<rparr>
              \<and> as_sent m' = as_sent (heap st b))"
    and "store_of (on_mark_read_B c pm a st) = st
   \<or> (\<exists>b m'. store_of (on_mark_read_B c pm a st) = st\<lparr>heap := (heap st)(b := m')\<rparr>
              \<and> as_sent m' = as_sent (heap st b))"
proof -
  show "store_of (on_react c pr a st) = st
   \<or> (\<exists>b m'. store_of (on_react c pr a st) = st\<lparr>heap := (heap st)(b := m')\<rparr>
              \<and> as_sent m' = as_sent (heap st b))"
  proof (cases pr)
    case None
    then show ?thesis by (simp add: on_react_def react_fn_def safeHandler_def)
  next
    case (Some q)
    obtain i e where q: "q = (i, e)" by (cases q)
    show ?thesis
    proof (cases "find_message st i")
      case None
      then show ?thesis by (simp add: Some q on_react_def react_fn_def safeHandler_def)
    next
      case (Some b)
      have "\<exists>m'. store_of (on_react c pr a st) = st\<lparr>heap := (heap st)(b := m')\<rparr>
              \<and> as_sent m' = as_sent (heap st b)"
        by (rule exI [where x = "heap (store_of (on_react c pr a st)) b"])
           (simp add: \<open>pr = Some q\<close> q Some on_react_def react_fn_def safeHandler_def Let_def
             as_sent_def)
      then show ?thesis by blast
    qed
  qed
  show "store_of (on_mark_read_B c pm a st) = st
   \<or> (\<exists>b m'. store_of (on_mark_read_B c pm a st) = st\<lparr>heap := (heap st)(b := m')\<rparr>
              \<and> as_sent m' = as_sent (heap st b))"
  proof (cases pm)
    case None
    then show ?thesis by (simp add: on_mark_read_B_def mark_read_fn_def safeHandler_def)
  next
    case (Some i)
    show ?thesis
    proof (cases "truthy i \<and> find_message st i \<noteq> None")
      case False
      then show ?thesis
        by (auto simp: Some on_mark_read_B_def mark_read_fn_def safeHandler_def)
    next
      case True
      then obtain b where b: "find_message st i = Some b" by auto
      have "\<exists>m'. store_of (on_mark_read_B c pm a st) = st\<lparr>heap := (heap st)(b := m')\<rparr>
              \<and> as_sent m' = as_sent (heap st b)"
        by (rule exI [where x = "heap (store_of (on_mark_read_B c pm a st)) b"])
           (use True in \<open>simp add: Some b on_mark_read_B_def mark_read_fn_def safeHandler_def
             Let_def as_sent_def\<close>)
      then show ?thesis by blast
    qed
  qed
qed

lemma room_makers_store:
  "heap (store_of (on_create_room c p a now st)) = heap st"
  "next_addr (store_of (on_create_room c p a now st)) = next_addr st"
  "MESSAGES (store_of (on_create_room c p a now st)) = MESSAGES st"
  "heap (store_of (on_join_room c p a now st)) = heap st"
  "next_addr (store_of (on_join_room c p a now st)) = next_addr st"
  "MESSAGES (store_of (on_join_room c p a now st)) = MESSAGES st"
  by (auto simp: on_create_room_def create_room_fn_def on_join_room_def join_room_fn_def
      safeHandler_def Let_def split: option.splits)

lemma room_makers_addrs_ok:
  assumes "addrs_ok st"
  shows "addrs_ok (store_of (on_create_room c p a now st))"
    and "addrs_ok (store_of (on_join_room c p a now st))"
  using assms
  by (auto simp: on_create_room_def create_room_fn_def on_join_room_def join_room_fn_def
      safeHandler_def Let_def addrs_ok_def new_room_def split: option.splits)

lemma quiet_handlers_store:
  "heap (store_of (on_join_B c p1 a st)) = heap st"
  "next_addr (store_of (on_join_B c p1 a st)) = next_addr st"
  "MESSAGES (store_of (on_join_B c p1 a st)) = MESSAGES st"
  "heap (store_of (on_rooms_request c a st)) = heap st"
  "next_addr (store_of (on_rooms_request c a st)) = next_addr st"
  "MESSAGES (store_of (on_rooms_request c a st)) = MESSAGES st"
  "heap (store_of (on_leave_room c p2 a st)) = heap st"
  "next_addr (store_of (on_leave_room c p2 a st)) = next_addr st"
  "MESSAGES (store_of (on_leave_room c p2 a st)) = MESSAGES st"
  "heap (store_of (on_typing c p4 a st)) = heap st"
  "next_addr (store_of (on_typing c p4 a st)) = next_addr st"
  "MESSAGES (store_of (on_typing c p4 a st)) = MESSAGES st"
  by (auto simp: on_join_B_def join_fn_def on_rooms_request_def rooms_request_fn_def
      on_leave_room_def leave_room_fn_def on_typing_def typing_fn_def
      safeHandler_def Let_def split: option.splits prod.splits)

lemma handle_kept: "kept st (store_of (handle rq st))"
proof (cases rq)
  case (SendMessage c p a fresh now)
  then show ?thesis
    using message_store_cases(1) [of c p a fresh now st] by (auto simp: kept_refl kept_push_message)
next
  case (FileMessage c p a fresh now)
  then show ?thesis
    using message_store_cases(2) [of c p a fresh now st] by (auto simp: kept_refl kept_push_message)
next
  case (PrivateMessage c p a fresh now)
  then show ?thesis
    using message_store_cases(3) [of c p a fresh now st] by (auto simp: kept_refl kept_archive)
next
  case (React c p a)
  then show ?thesis
    using update_store_cases(1) [of c p a st] by (auto simp: kept_refl kept_heap_upd)
next
  case (MarkRead c p a)
  then show ?thesis
    using update_store_cases(2) [of c p a st] by (auto simp: kept_refl kept_heap_upd)
qed (simp_all add: kept_same_heap room_makers_store quiet_handlers_store)

lemma handle_addrs_ok: "addrs_ok st \<Longrightarrow> addrs_ok (store_of (handle rq st))"
proof (cases rq)
  case (SendMessage c p a fresh now)
  assume "addrs_ok st"
  then show ?thesis
    using message_store_cases(1) [of c p a fresh now st] SendMessage
    by (auto simp: addrs_ok_push_message)
next
  case (FileMessage c p a fresh now)
  assume "addrs_ok st"
  then show ?thesis
    using message_store_cases(2) [of c p a fresh now st] FileMessage
    by (auto simp: addrs_ok_push_message)
next
  case (PrivateMessage c p a fresh now)
  assume "addrs_ok st"
  then show ?thesis
    using message_store_cases(3) [of c p a fresh now st] PrivateMessage
    by (auto simp: addrs_ok_archive)
next
  case (React c p a)
  assume "addrs_ok st"
  then show ?thesis
    using update_store_cases(1) [of c p a st] React by (auto simp: addrs_ok_def)
next
  case (MarkRead c p a)
  assume "addrs_ok st"
  then show ?thesis
    using update_store_cases(2) [of c p a st] MarkRead by (auto simp: addrs_ok_def)
next
  case (CreateRoom c p a now)
  assume "addrs_ok st"
  then show ?thesis using room_makers_addrs_ok(1) CreateRoom by simp
next
  case (JoinRoom c p a now)
  assume "addrs_ok st"
  then show ?thesis using room_makers_addrs_ok(2) JoinRoom by simp
qed (simp_all add: addrs_ok_def quiet_handlers_store other_handlers_keep_ROOMS)

lemma run_kept: "kept st (run st rqs)"
proof (induction rqs arbitrary: st)
  case Nil
  show ?case by (simp add: kept_refl)
next
  case (Cons rq rqs)
  show ?case using kept_trans [OF handle_kept Cons.IH] by simp
qed

lemma run_addrs_ok: "addrs_ok st \<Longrightarrow> addrs_ok (run st rqs)"
  by (induction rqs arbitrary: st) (simp_all add: handle_addrs_ok)

lemma initial_store_addrs_ok: "addrs_ok (initial_store t0)"
  by (simp add: addrs_ok_def initial_store_def)

text \<open>The log of a store as it reads later.\<close>

lemma kept_log:
  assumes "kept st st'" "addrs_ok st"
  shows "map as_sent (take (length (MESSAGES st)) (log_of st')) = map as_sent (log_of st)"
proof -
  have t: "take (length (MESSAGES st)) (MESSAGES st') = MESSAGES st"
    using assms(1) by (simp add: kept_def)
  have "as_sent (heap st' a) = as_sent (heap st a)" if "a \<in> set (MESSAGES st)" for a
    using that assms by (auto simp: kept_def addrs_ok_def list_all_iff)
  then have "map (\<lambda>a. as_sent (heap st' a)) (MESSAGES st) = map (\<lambda>a. as_sent (heap st a)) (MESSAGES st)"
    by simp
  then have "map as_sent (map (heap st') (take (length (MESSAGES st)) (MESSAGES st')))
             = map as_sent (map (heap st) (MESSAGES st))"
    unfolding t by simp
  then show ?thesis
    by (simp only: log_of_def take_map)
qed

lemma push_message_log:
  assumes "addrs_ok st"
  shows "log_of (push_message m st) = log_of st @ [m]"
proof -
  have "next_addr st \<notin> set (MESSAGES st)"
    using assms by (auto simp: addrs_ok_def list_all_iff)
  then have "map ((heap st)(next_addr st := m)) (MESSAGES st) = map (heap st) (MESSAGES st)"
    by (simp add: map_fun_upd)
  then show ?thesis
    by (simp add: log_of_def push_message_MESSAGES push_message_heap)
qed

lemma push_message_buffer:
  assumes ok: "addrs_ok st" and g: "ROOMS_get st (msg_room m) = Some info"
  shows "buffer_of (push_message m st) (msg_room m)
         = (if 2000 \<le> length (messages info) then tl (buffer_of st (msg_room m)) @ [m]
            else buffer_of st (msg_room m) @ [m])"
proof -
  have "(msg_room m, info) \<in> set (ROOMS st)"
    using g by (simp add: ROOMS_get_def map_of_SomeD)
  then have "list_all (\<lambda>a. a < next_addr st) (messages (snd (msg_room m, info)))"
    using ok unfolding addrs_ok_def list_all_iff by blast
  then have "next_addr st \<notin> set (messages info)"
    by (auto simp: list_all_iff)
  then have old: "map ((heap st)(next_addr st := m)) (messages info) = map (heap st) (messages info)"
    by (simp add: map_fun_upd)
  have "next_addr st \<notin> set (tl (messages info))"
    using \<open>next_addr st \<notin> set (messages info)\<close> set_tl_subset by fast
  then have "map ((heap st)(next_addr st := m)) (tl (messages info))
             = map (heap st) (tl (messages info))"
    by (simp add: map_fun_upd)
  then have old': "map ((heap st)(next_addr st := m)) (tl (messages info))
                   = tl (map (heap st) (messages info))"
    by (simp only: map_tl)
  show ?thesis
    using g old old'
    by (simp add: buffer_of_def push_message_rooms(4) [OF g] push_message_heap
        messages_push_room)
qed

lemma push_message_next: "next_addr (push_message m st) = Suc (next_addr st)"
  by (simp add: push_message_def archive_def Let_def)

subsection \<open>C9: the theorem\<close>

text \<open>
  C9. While no room holds more than 2000 messages, a \<open>message\<close> or \<open>file_message\<close>
  request of the in-memory server leaves no room with more than 2000: the new message
  is a new object, it goes to the end of the array of its room, and when the array
  already holds 2000 its first (oldest) element is dropped; the other rooms are as they
  were. The archive \<open>MESSAGES\<close> gets the new message at its end and loses none: its
  messages are the ones it had, followed by the new one. The store the server starts
  with has two messages in each room, and the handlers that make rooms start them
  empty: after any sequence of requests no room holds more than 2000 messages, and the
  archive begins with the messages it had before the requests, each as it was appended
  (later requests set reactions and read receipts only).
\<close>

theorem room_buffer_capped:
  assumes cap: "rooms_capped st"
  shows "rooms_capped (store_of (on_message_B c (Some p) has_ack fresh now st))
       \<and> MESSAGES (store_of (on_message_B c (Some p) has_ack fresh now st))
         = MESSAGES st @ [next_addr st]
       \<and> (ROOMS_get st (or_else (b_room p) GLOBAL_ROOM) = Some info \<longrightarrow>
            ROOMS_get (store_of (on_message_B c (Some p) has_ack fresh now st))
              (or_else (b_room p) GLOBAL_ROOM)
            = Some (info\<lparr>messages :=
                      (if 2000 \<le> length (messages info)
                       then tl (messages info) @ [next_addr st]
                       else messages info @ [next_addr st])\<rparr>))
       \<and> rooms_capped (store_of (on_file_message c (Some (room, name, data, mime)) has_ack
                                   fresh now st))
       \<and> MESSAGES (store_of (on_file_message c (Some (room, name, data, mime)) has_ack
                               fresh now st))
         = MESSAGES st @ [next_addr st]
       \<and> (ROOMS_get st (or_else room GLOBAL_ROOM) = Some info' \<longrightarrow>
            ROOMS_get (store_of (on_file_message c (Some (room, name, data, mime)) has_ack
                                   fresh now st))
              (or_else room GLOBAL_ROOM)
            = Some (info'\<lparr>messages :=
                      (if 2000 \<le> length (messages info')
                       then tl (messages info') @ [next_addr st]
                       else messages info' @ [next_addr st])\<rparr>))
       \<and> rooms_capped (run (initial_store t0) rqs)
       \<and> heap (store_of (on_message_B c (Some p) has_ack fresh now st))
         = (heap st)(next_addr st :=
              \<lparr>msg_id = fresh, msg_room = or_else (b_room p) GLOBAL_ROOM,
               senderId = userId c, senderName = userName c, msg_text = b_text p,
               msg_file = b_file p, msg_timestamp = now, msg_private = b_private p,
               msg_reactions = None, msg_readBy = None\<rparr>)
       \<and> next_addr (store_of (on_message_B c (Some p) has_ack fresh now st))
         = Suc (next_addr st)
       \<and> (r \<noteq> or_else (b_room p) GLOBAL_ROOM \<longrightarrow>
            ROOMS_get (store_of (on_message_B c (Some p) has_ack fresh now st)) r
            = ROOMS_get st r)
       \<and> (addrs_ok st \<longrightarrow>
            addrs_ok (store_of (on_message_B c (Some p) has_ack fresh now st))
            \<and> log_of (store_of (on_message_B c (Some p) has_ack fresh now st))
              = log_of st
                @ [\<lparr>msg_id = fresh, msg_room = or_else (b_room p) GLOBAL_ROOM,
                    senderId = userId c, senderName = userName c, msg_text = b_text p,
                    msg_file = b_file p, msg_timestamp = now, msg_private = b_private p,
                    msg_reactions = None, msg_readBy = None\<rparr>]
            \<and> (ROOMS_get st (or_else (b_room p) GLOBAL_ROOM) = Some info \<longrightarrow>
                 buffer_of (store_of (on_message_B c (Some p) has_ack fresh now st))
                   (or_else (b_room p) GLOBAL_ROOM)
                 = (if 2000 \<le> length (messages info)
                    then tl (buffer_of st (or_else (b_room p) GLOBAL_ROOM))
                    else buffer_of st (or_else (b_room p) GLOBAL_ROOM))
                   @ [\<lparr>msg_id = fresh, msg_room = or_else (b_room p) GLOBAL_ROOM,
                       senderId = userId c, senderName = userName c, msg_text = b_text p,
                       msg_file = b_file p, msg_timestamp = now, msg_private = b_private p,
                       msg_reactions = None, msg_readBy = None\<rparr>]))
       \<and> heap (store_of (on_file_message c (Some (room, name, data, mime)) has_ack fresh now st))
         = (heap st)(next_addr st :=
              \<lparr>msg_id = fresh, msg_room = or_else room GLOBAL_ROOM,
               senderId = userId c, senderName = userName c, msg_text = None,
               msg_file = Some (name, data, mime), msg_timestamp = now,
               msg_private = False, msg_reactions = None, msg_readBy = None\<rparr>)
       \<and> next_addr (store_of (on_file_message c (Some (room, name, data, mime)) has_ack
                                 fresh now st))
         = Suc (next_addr st)
       \<and> (r \<noteq> or_else room GLOBAL_ROOM \<longrightarrow>
            ROOMS_get (store_of (on_file_message c (Some (room, name, data, mime)) has_ack
                                   fresh now st)) r
            = ROOMS_get st r)
       \<and> (addrs_ok st \<longrightarrow>
            addrs_ok (store_of (on_file_message c (Some (room, name, data, mime)) has_ack
                                 fresh now st))
            \<and> log_of (store_of (on_file_message c (Some (room, name, data, mime)) has_ack
                                  fresh now st))
              = log_of st
                @ [\<lparr>msg_id = fresh, msg_room = or_else room GLOBAL_ROOM,
                    senderId = userId c, senderName = userName c, msg_text = None,
                    msg_file = Some (name, data, mime), msg_timestamp = now,
                    msg_private = False, msg_reactions = None, msg_readBy = None\<rparr>]
            \<and> (ROOMS_get st (or_else room GLOBAL_ROOM) = Some info' \<longrightarrow>
                 buffer_of (store_of (on_file_message c (Some (room, name, data, mime)) has_ack
                                        fresh now st))
                   (or_else room GLOBAL_ROOM)
                 = (if 2000 \<le> length (messages info')
                    then tl (buffer_of st (or_else room GLOBAL_ROOM))
                    else buffer_of st (or_else room GLOBAL_ROOM))
                   @ [\<lparr>msg_id = fresh, msg_room = or_else room GLOBAL_ROOM,
                       senderId = userId c, senderName = userName c, msg_text = None,
                       msg_file = Some (name, data, mime), msg_timestamp = now,
                       msg_private = False, msg_reactions = None, msg_readBy = None\<rparr>]))
       \<and> addrs_ok (run (initial_store t0) rqs)
       \<and> take (length (MESSAGES st)) (MESSAGES (run st rqs)) = MESSAGES st
       \<and> (addrs_ok st \<longrightarrow>
            addrs_ok (run st rqs)
            \<and> map as_sent (take (length (MESSAGES st)) (log_of (run st rqs)))
              = map as_sent (log_of st))"
proof -
  let ?m = "\<lparr>msg_id = fresh, msg_room = or_else (b_room p) GLOBAL_ROOM,
        senderId = userId c, senderName = userName c, msg_text = b_text p,
        msg_file = b_file p, msg_timestamp = now, msg_private = b_private p,
        msg_reactions = None, msg_readBy = None\<rparr>"
  let ?f = "\<lparr>msg_id = fresh, msg_room = or_else room GLOBAL_ROOM,
        senderId = userId c, senderName = userName c, msg_text = None,
        msg_file = Some (name, data, mime), msg_timestamp = now,
        msg_private = False, msg_reactions = None, msg_readBy = None\<rparr>"
  let ?sm = "store_of (on_message_B c (Some p) has_ack fresh now st)"
  let ?sf = "store_of (on_file_message c (Some (room, name, data, mime)) has_ack fresh now st)"
  have sm: "?sm = push_message ?m st" by (rule message_B_store)
  have sf: "?sf = push_message ?f st" by (rule file_message_store)
  have rm: "msg_room ?m = or_else (b_room p) GLOBAL_ROOM"
    and rf: "msg_room ?f = or_else room GLOBAL_ROOM" by simp_all
  have push: "rooms_capped (push_message m st)
       \<and> MESSAGES (push_message m st) = MESSAGES st @ [next_addr st]
       \<and> (ROOMS_get st (msg_room m) = Some i \<longrightarrow>
            ROOMS_get (push_message m st) (msg_room m)
            = Some (i\<lparr>messages :=
                      (if 2000 \<le> length (messages i)
                       then tl (messages i) @ [next_addr st]
                       else messages i @ [next_addr st])\<rparr>))
       \<and> heap (push_message m st) = (heap st)(next_addr st := m)
       \<and> next_addr (push_message m st) = Suc (next_addr st)
       \<and> (r \<noteq> msg_room m \<longrightarrow> ROOMS_get (push_message m st) r = ROOMS_get st r)
       \<and> (addrs_ok st \<longrightarrow>
            addrs_ok (push_message m st)
            \<and> log_of (push_message m st) = log_of st @ [m]
            \<and> (ROOMS_get st (msg_room m) = Some i \<longrightarrow>
                 buffer_of (push_message m st) (msg_room m)
                 = (if 2000 \<le> length (messages i)
                    then tl (buffer_of st (msg_room m))
                    else buffer_of st (msg_room m)) @ [m]))" for m i
  proof (intro conjI impI)
    show "rooms_capped (push_message m st)" by (rule push_message_rooms(3) [OF cap])
    show "MESSAGES (push_message m st) = MESSAGES st @ [next_addr st]"
      by (rule push_message_rooms(1))
    show "heap (push_message m st) = (heap st)(next_addr st := m)" by (rule push_message_heap)
    show "next_addr (push_message m st) = Suc (next_addr st)" by (rule push_message_next)
  next
    assume "ROOMS_get st (msg_room m) = Some i"
    then show "ROOMS_get (push_message m st) (msg_room m)
            = Some (i\<lparr>messages :=
                      (if 2000 \<le> length (messages i)
                       then tl (messages i) @ [next_addr st]
                       else messages i @ [next_addr st])\<rparr>)"
      using push_message_rooms(4) [of st m i] by (simp add: push_room_eq)
  next
    assume "r \<noteq> msg_room m"
    then show "ROOMS_get (push_message m st) r = ROOMS_get st r"
      by (rule push_message_rooms(5))
  next
    assume ok: "addrs_ok st"
    show "addrs_ok (push_message m st)" by (rule addrs_ok_push_message [OF ok])
    show "log_of (push_message m st) = log_of st @ [m]" by (rule push_message_log [OF ok])
    assume "ROOMS_get st (msg_room m) = Some i"
    from push_message_buffer [OF ok this]
    show "buffer_of (push_message m st) (msg_room m)
                 = (if 2000 \<le> length (messages i)
                    then tl (buffer_of st (msg_room m))
                    else buffer_of st (msg_room m)) @ [m]"
      by simp
  qed
  note pm = push [of ?m info, folded sm, unfolded rm]
  note pf = push [of ?f info', folded sf, unfolded rf]
  have r1: "rooms_capped (run (initial_store t0) rqs)" by (rule reachable_rooms_capped)
  have r2: "addrs_ok (run (initial_store t0) rqs)"
    by (rule run_addrs_ok [OF initial_store_addrs_ok])
  have r3: "take (length (MESSAGES st)) (MESSAGES (run st rqs)) = MESSAGES st"
    using run_kept [of st rqs] by (simp add: kept_def)
  have r4: "addrs_ok st \<longrightarrow>
            addrs_ok (run st rqs)
            \<and> map as_sent (take (length (MESSAGES st)) (log_of (run st rqs)))
              = map as_sent (log_of st)"
    using run_addrs_ok [of st rqs] kept_log [OF run_kept, of st rqs] by blast
  show ?thesis
    by (intro conjI pm [THEN conjunct1] pm [THEN conjunct2, THEN conjunct1]
        pm [THEN conjunct2, THEN conjunct2, THEN conjunct1]
        pf [THEN conjunct1] pf [THEN conjunct2, THEN conjunct1]
        pf [THEN conjunct2, THEN conjunct2, THEN conjunct1] r1
        pm [THEN conjunct2, THEN conjunct2, THEN conjunct2, THEN conjunct1]
        pm [THEN conjunct2, THEN conjunct2, THEN conjunct2, THEN conjunct2, THEN conjunct1]
        pm [THEN conjunct2, THEN conjunct2, THEN conjunct2, THEN conjunct2, THEN conjunct2,
          THEN conjunct1]
        pm [THEN conjunct2, THEN conjunct2, THEN conjunct2, THEN conjunct2, THEN conjunct2,
          THEN conjunct2]
        pf [THEN conjunct2, THEN conjunct2, THEN conjunct2, THEN conjunct1]
        pf [THEN conjunct2, THEN conjunct2, THEN conjunct2, THEN conjunct2, THEN conjunct1]
        pf [THEN conjunct2, THEN conjunct2, THEN conjunct2, THEN conjunct2, THEN conjunct2,
          THEN conjunct1]
        pf [THEN conjunct2, THEN conjunct2, THEN conjunct2, THEN conjunct2, THEN conjunct2,
          THEN conjunct2]
        r2 r3 r4)
qed

theorem room_buffer_capped_witness:
  "rooms_capped ex_full \<and> addrs_ok ex_full
   \<and> ROOMS_get ex_full ''General''
     = Some \<lparr>room_name = ''General'', createdBy = ''system'', createdAt = 900,
             messages = replicate 2000 0\<rparr>
   \<and> log_of ex_full = [ex_m]
   \<and> buffer_of ex_full ''General'' = replicate 2000 ex_m
   \<and> rooms_capped (store_of (on_message_B bob_conn
         (Some \<lparr>b_room = Some ''General'', b_text = Some ''hello'', b_file = None,
                b_private = False, b_from = None\<rparr>) True ''2000-xyz'' 2000 ex_full))
   \<and> MESSAGES (store_of (on_message_B bob_conn
         (Some \<lparr>b_room = Some ''General'', b_text = Some ''hello'', b_file = None,
                b_private = False, b_from = None\<rparr>) True ''2000-xyz'' 2000 ex_full))
     = [0, 1]
   \<and> ROOMS_get (store_of (on_message_B bob_conn
         (Some \<lparr>b_room = Some ''General'', b_text = Some ''hello'', b_file = None,
                b_private = False, b_from = None\<rparr>) True ''2000-xyz'' 2000 ex_full)) ''General''
     = Some \<lparr>room_name = ''General'', createdBy = ''system'', createdAt = 900,
             messages = tl (replicate 2000 0) @ [1]\<rparr>
   \<and> ROOMS_get (store_of (on_file_message bob_conn
         (Some (Some ''General'', ''hello.txt'', ''aGVsbG8='', ''text/plain'')) True
         ''2000-xyz'' 2000 ex_full)) ''General''
     = Some \<lparr>room_name = ''General'', createdBy = ''system'', createdAt = 900,
             messages = tl (replicate 2000 0) @ [1]\<rparr>
   \<and> rooms_capped (run (initial_store 1000)
         [JoinRoom bob_conn (Some (Some ''lobby'')) True 2000,
          SendMessage bob_conn
            (Some \<lparr>b_room = Some ''lobby'', b_text = Some ''hello'', b_file = None,
                   b_private = False, b_from = None\<rparr>) True ''2001-xyz'' 2001])
   \<and> heap (store_of (on_message_B bob_conn
         (Some \<lparr>b_room = Some ''General'', b_text = Some ''hello'', b_file = None,
                b_private = False, b_from = None\<rparr>) True ''2000-xyz'' 2000 ex_full)) 1
     = \<lparr>msg_id = ''2000-xyz'', msg_room = ''General'', senderId = ''u2'', senderName = ''Bob'',
        msg_text = Some ''hello'', msg_file = None, msg_timestamp = 2000, msg_private = False,
        msg_reactions = None, msg_readBy = None\<rparr>
   \<and> log_of (store_of (on_message_B bob_conn
         (Some \<lparr>b_room = Some ''General'', b_text = Some ''hello'', b_file = None,
                b_private = False, b_from = None\<rparr>) True ''2000-xyz'' 2000 ex_full))
     = [ex_m,
        \<lparr>msg_id = ''2000-xyz'', msg_room = ''General'', senderId = ''u2'', senderName = ''Bob'',
         msg_text = Some ''hello'', msg_file = None, msg_timestamp = 2000, msg_private = False,
         msg_reactions = None, msg_readBy = None\<rparr>]
   \<and> buffer_of (store_of (on_message_B bob_conn
         (Some \<lparr>b_room = Some ''General'', b_text = Some ''hello'', b_file = None,
                b_private = False, b_from = None\<rparr>) True ''2000-xyz'' 2000 ex_full)) ''General''
     = replicate 1999 ex_m
       @ [\<lparr>msg_id = ''2000-xyz'', msg_room = ''General'', senderId = ''u2'',
           senderName = ''Bob'', msg_text = Some ''hello'', msg_file = None,
           msg_timestamp = 2000, msg_private = False, msg_reactions = None,
           msg_readBy = None\<rparr>]
   \<and> log_of (store_of (on_file_message bob_conn
         (Some (Some ''General'', ''hello.txt'', ''aGVsbG8='', ''text/plain'')) True
         ''2000-xyz'' 2000 ex_full))
     = [ex_m,
        \<lparr>msg_id = ''2000-xyz'', msg_room = ''General'', senderId = ''u2'', senderName = ''Bob'',
         msg_text = None, msg_file = Some (''hello.txt'', ''aGVsbG8='', ''text/plain''),
         msg_timestamp = 2000, msg_private = False, msg_reactions = None, msg_readBy = None\<rparr>]
   \<and> addrs_ok (run ex_full
         [SendMessage bob_conn
            (Some \<lparr>b_room = Some ''General'', b_text = Some ''hello'', b_file = None,
                   b_private = False, b_from = None\<rparr>) True ''2001-xyz'' 2001,
          React bob_conn (Some (Some ''1000-abc'', ''+1'')) True])
   \<and> map as_sent (take 1 (log_of (run ex_full
         [SendMessage bob_conn
            (Some \<lparr>b_room = Some ''General'', b_text = Some ''hello'', b_file = None,
                   b_private = False, b_from = None\<rparr>) True ''2001-xyz'' 2001,
          React bob_conn (Some (Some ''1000-abc'', ''+1'')) True])))
     = [ex_m]"
proof -
  let ?p = "\<lparr>b_room = Some ''General'', b_text = Some ''hello'', b_file = None,
                b_private = False, b_from = None\<rparr>"
  let ?info = "\<lparr>room_name = ''General'', createdBy = ''system'', createdAt = 900,
             messages = replicate 2000 0\<rparr>"
  let ?rqs = "[SendMessage bob_conn (Some ?p) True ''2001-xyz'' 2001,
          React bob_conn (Some (Some ''1000-abc'', ''+1'')) True]"
  have h: "rooms_capped ex_full"
    by (simp add: rooms_capped_def ex_full_def)
  have ok: "addrs_ok ex_full"
    by (simp add: addrs_ok_def ex_full_def ex_store_def list_all_iff)
  have g: "ROOMS_get ex_full ''General'' = Some ?info"
    by (simp add: ROOMS_get_def ex_full_def)
  have l: "log_of ex_full = [ex_m]"
    by (simp add: log_of_def ex_full_def ex_store_def)
  have hp: "heap ex_full = (\<lambda>_. ex_m)" by (simp add: ex_full_def ex_store_def)
  have "buffer_of ex_full ''General'' = map (heap ex_full) (replicate 2000 0)"
    by (simp only: buffer_of_def g option.case room_info.simps)
  then have b: "buffer_of ex_full ''General'' = replicate 2000 ex_m"
    by (simp only: hp map_replicate)
  have e: "or_else (Some ''General'') GLOBAL_ROOM = ''General''"
    "next_addr ex_full = 1" "MESSAGES ex_full = [0]"
    "userId bob_conn = ''u2''" "userName bob_conn = ''Bob''"
    by (simp_all add: or_else_def truthy_def ex_full_def ex_store_def bob_conn_def)
  have s: "as_sent ex_m = ex_m" by (simp add: as_sent_def ex_m_def)
  have tl: "tl (replicate 2000 ex_m) = replicate 1999 ex_m" by simp
  note t = room_buffer_capped [OF h, where c = bob_conn and has_ack = True
      and fresh = "''2000-xyz''" and now = 2000 and p = ?p and info = ?info
      and room = "Some ''General''" and name = "''hello.txt''" and data = "''aGVsbG8=''"
      and mime = "''text/plain''" and info' = ?info and r = "''Developers''"
      and ?t0.0 = 1000
      and rqs = "[JoinRoom bob_conn (Some (Some ''lobby'')) True 2000,
          SendMessage bob_conn
            (Some \<lparr>b_room = Some ''lobby'', b_text = Some ''hello'', b_file = None,
                   b_private = False, b_from = None\<rparr>) True ''2001-xyz'' 2001]"]
  note u = room_buffer_capped [OF h, where c = bob_conn and has_ack = True
      and fresh = "''2000-xyz''" and now = 2000 and p = ?p and info = ?info
      and room = "Some ''General''" and name = "''hello.txt''" and data = "''aGVsbG8=''"
      and mime = "''text/plain''" and info' = ?info and r = "''Developers''"
      and ?t0.0 = 1000 and rqs = ?rqs]
  note t7 = t [THEN conjunct2, THEN conjunct2, THEN conjunct2, THEN conjunct2, THEN conjunct2,
      THEN conjunct2, THEN conjunct2]
  note u7 = u [THEN conjunct2, THEN conjunct2, THEN conjunct2, THEN conjunct2, THEN conjunct2,
      THEN conjunct2, THEN conjunct2]
  have r1: "rooms_capped (store_of (on_message_B bob_conn (Some ?p) True ''2000-xyz'' 2000 ex_full))"
    by (rule t [THEN conjunct1])
  have r2: "MESSAGES (store_of (on_message_B bob_conn (Some ?p) True ''2000-xyz'' 2000 ex_full))
     = [0, 1]"
    using t [THEN conjunct2, THEN conjunct1] by (simp add: e)
  have r3: "ROOMS_get (store_of (on_message_B bob_conn (Some ?p) True ''2000-xyz'' 2000 ex_full))
      ''General''
     = Some \<lparr>room_name = ''General'', createdBy = ''system'', createdAt = 900,
             messages = tl (replicate 2000 0) @ [1]\<rparr>"
    using t [THEN conjunct2, THEN conjunct2, THEN conjunct1] g
    by (simp add: e)
  have r4: "ROOMS_get (store_of (on_file_message bob_conn
         (Some (Some ''General'', ''hello.txt'', ''aGVsbG8='', ''text/plain'')) True
         ''2000-xyz'' 2000 ex_full)) ''General''
     = Some \<lparr>room_name = ''General'', createdBy = ''system'', createdAt = 900,
             messages = tl (replicate 2000 0) @ [1]\<rparr>"
    using t [THEN conjunct2, THEN conjunct2, THEN conjunct2, THEN conjunct2, THEN conjunct2,
        THEN conjunct1] g
    by (simp add: e)
  have r5: "rooms_capped (run (initial_store 1000)
         [JoinRoom bob_conn (Some (Some ''lobby'')) True 2000,
          SendMessage bob_conn
            (Some \<lparr>b_room = Some ''lobby'', b_text = Some ''hello'', b_file = None,
                   b_private = False, b_from = None\<rparr>) True ''2001-xyz'' 2001])"
    by (rule t [THEN conjunct2, THEN conjunct2, THEN conjunct2, THEN conjunct2, THEN conjunct2,
        THEN conjunct2, THEN conjunct1])
  have r6: "heap (store_of (on_message_B bob_conn (Some ?p) True ''2000-xyz'' 2000 ex_full)) 1
     = \<lparr>msg_id = ''2000-xyz'', msg_room = ''General'', senderId = ''u2'', senderName = ''Bob'',
        msg_text = Some ''hello'', msg_file = None, msg_timestamp = 2000, msg_private = False,
        msg_reactions = None, msg_readBy = None\<rparr>"
    using t7 [THEN conjunct1] by (simp add: e)
  note m4 = t7 [THEN conjunct2, THEN conjunct2, THEN conjunct2, THEN conjunct1, THEN mp, OF ok]
  have r7: "log_of (store_of (on_message_B bob_conn (Some ?p) True ''2000-xyz'' 2000 ex_full))
     = [ex_m,
        \<lparr>msg_id = ''2000-xyz'', msg_room = ''General'', senderId = ''u2'', senderName = ''Bob'',
         msg_text = Some ''hello'', msg_file = None, msg_timestamp = 2000, msg_private = False,
         msg_reactions = None, msg_readBy = None\<rparr>]"
    using m4 [THEN conjunct2, THEN conjunct1] by (simp add: e l)
  have r8: "buffer_of (store_of (on_message_B bob_conn (Some ?p) True ''2000-xyz'' 2000 ex_full))
       ''General''
     = replicate 1999 ex_m
       @ [\<lparr>msg_id = ''2000-xyz'', msg_room = ''General'', senderId = ''u2'',
           senderName = ''Bob'', msg_text = Some ''hello'', msg_file = None,
           msg_timestamp = 2000, msg_private = False, msg_reactions = None,
           msg_readBy = None\<rparr>]"
    using m4 [THEN conjunct2, THEN conjunct2] g by (simp add: e b tl del: replicate.simps)
  note f4 = t7 [THEN conjunct2, THEN conjunct2, THEN conjunct2, THEN conjunct2, THEN conjunct2,
      THEN conjunct2, THEN conjunct2, THEN conjunct1, THEN mp, OF ok]
  have r9: "log_of (store_of (on_file_message bob_conn
         (Some (Some ''General'', ''hello.txt'', ''aGVsbG8='', ''text/plain'')) True
         ''2000-xyz'' 2000 ex_full))
     = [ex_m,
        \<lparr>msg_id = ''2000-xyz'', msg_room = ''General'', senderId = ''u2'', senderName = ''Bob'',
         msg_text = None, msg_file = Some (''hello.txt'', ''aGVsbG8='', ''text/plain''),
         msg_timestamp = 2000, msg_private = False, msg_reactions = None, msg_readBy = None\<rparr>]"
    using f4 [THEN conjunct2, THEN conjunct1] by (simp add: e l)
  note run = u7 [THEN conjunct2, THEN conjunct2, THEN conjunct2, THEN conjunct2, THEN conjunct2,
      THEN conjunct2, THEN conjunct2, THEN conjunct2, THEN conjunct2, THEN conjunct2,
      THEN mp, OF ok]
  have r10: "addrs_ok (run ex_full ?rqs)" by (rule run [THEN conjunct1])
  have r11: "map as_sent (take 1 (log_of (run ex_full ?rqs))) = [ex_m]"
    using run [THEN conjunct2] by (simp add: e l s)
  show ?thesis by (intro conjI h ok g l b r1 r2 r3 r4 r5 r6 r7 r8 r9 r10 r11)
qed

subsection \<open>More on pagination: the other handlers and the database-backed route\<close>

text \<open>
  The handlers that add to the archive or change a stored message keep the archive in
  its shape as well.
\<close>

lemma archive_ok_heap_upd:
  assumes ok: "archive_ok st"
    and same: "msg_room m' = msg_room (heap st a)" "msg_timestamp m' = msg_timestamp (heap st a)"
  shows "archive_ok (st\<lparr>heap := (heap st)(a := m')\<rparr>)"
proof -
  have t: "map (\<lambda>b. msg_timestamp (((heap st)(a := m')) b)) (MESSAGES st)
           = map (\<lambda>b. msg_timestamp (heap st b)) (MESSAGES st)"
    using same by (intro map_cong refl) simp
  show ?thesis
    using ok same unfolding archive_ok_def
    by (simp add: t list_all_iff del: fun_upd_apply) (simp add: fun_upd_apply)
qed

lemma more_handlers_keep_archive_ok:
  assumes ok: "archive_ok st"
  shows "now \<noteq> 0 \<Longrightarrow> \<forall>a \<in> set (MESSAGES st). msg_timestamp (heap st a) \<le> now \<Longrightarrow>
           archive_ok (store_of (on_private_message c pp has_ack fresh now st))"
    and "archive_ok (store_of (on_react c pr has_ack st))"
    and "archive_ok (store_of (on_mark_read_B c pm has_ack st))"
proof -
  show "archive_ok (store_of (on_private_message c pp has_ack fresh now st))"
    if "now \<noteq> 0" "\<forall>a \<in> set (MESSAGES st). msg_timestamp (heap st a) \<le> now"
  proof (cases pp)
    case None
    then show ?thesis
      using ok by (simp add: on_private_message_def private_message_fn_def safeHandler_def)
  next
    case (Some q)
    then show ?thesis
      using ok that
      by (cases q) (simp add: on_private_message_def private_message_fn_def safeHandler_def
          Let_def archive_keeps_ok pm_room_def)
  qed
  show "archive_ok (store_of (on_react c pr has_ack st))"
    using ok
    by (auto simp: on_react_def react_fn_def safeHandler_def Let_def archive_ok_heap_upd
        split: option.splits prod.splits)
  show "archive_ok (store_of (on_mark_read_B c pm has_ack st))"
    using ok
    by (auto simp: on_mark_read_B_def mark_read_fn_def safeHandler_def Let_def archive_ok_heap_upd
        split: option.splits)
qed

lemma initial_store_archive_ok: "archive_ok (initial_store t0)"
  by (simp add: archive_ok_def initial_store_def)

text \<open>
  The route of the database-backed server asks the database for at most \<open>min n 200\<close>
  documents and reverses what it gets: when the query answers with documents of the
  room below \<open>T\<close>, latest first, the route answers with them in ascending order.
\<close>

lemma paginate_route_page:
  assumes room: "room \<noteq> []"
    and q: "run_query room (Num T) (Num (min n 200)) = Some ds"
    and desc: "sorted (rev (map doc_timestamp ds))"
  shows "paginate_route run_query now
           \<lparr>q_room = Some room, q_before = Some (Num T), q_limit = Some (Num n)\<rparr>
         = Json (rev ds)"
    and "sorted (map doc_timestamp (rev ds))"
  using assms
  by (simp_all add: paginate_route_def Let_def or_else_def clamp_limit_def rev_map)

end
